(* ===== verification/Prelude.thy ===== *)
theory Prelude
  imports Complex_Main "HOL-Library.Word" "HOL-Library.Multiset"
begin

text \<open>
  Shared vocabulary of the development: the exception values, the state-and-exception
  computations in which the effectful code is written, the rules that carry an invariant
  through such a computation, and the list lemmas the table operations share.

  A Python call that may raise and that changes the world is a function
  \<open>'w \<Rightarrow> (exn + 'a) \<times> 'w\<close>: \<open>Inl\<close> is the exception, and the world after the call is
  returned on both paths, because a Python exception does not undo side effects. Undoing the
  database changes is the business of the session context (\<open>session_scope\<close> in \<open>Storage\<close>).
\<close>

section \<open>Collections of facts\<close>

named_theorems run_simps \<open>unfolding rules of the state-and-exception primitives\<close>
named_theorems keeps_intros \<open>introduction rules for \<open>keeps\<close>\<close>

section \<open>Names of the model's types\<close>

type_synonym byte = "8 word"
type_synonym bytes = "8 word list"
type_synonym uuid = "128 word"
  \<comment> \<open>instants are microseconds since the Unix epoch, UTC: the resolution of \<open>datetime\<close>\<close>
type_synonym time = int

datatype exn =
    ValueError string
  | KeyError string
  | IndexError
  | TypeError string
  | AttributeError string
  | FileNotFoundError string
  | OSError string
  | ZeroDivisionError
  | IntegrityError string       \<comment> \<open>a constraint of the schema, by name\<close>
  | MultipleResultsFound
  | NoResultFound
  | DataError string
  | UnicodeDecodeError
  | RedisError string
  | HTTPException int string

type_synonym ('w, 'a) exec = "'w \<Rightarrow> (exn + 'a) \<times> 'w"

section \<open>Computations with state and exceptions\<close>

definition returnE :: "'a \<Rightarrow> ('w, 'a) exec" where
  "returnE a = (\<lambda>w. (Inr a, w))"

definition raiseE :: "exn \<Rightarrow> ('w, 'a) exec" where
  "raiseE e = (\<lambda>w. (Inl e, w))"

definition bindE :: "('w, 'a) exec \<Rightarrow> ('a \<Rightarrow> ('w, 'b) exec) \<Rightarrow> ('w, 'b) exec" where
  "bindE m k = (\<lambda>w. case m w of (Inl e, w') \<Rightarrow> (Inl e, w') | (Inr a, w') \<Rightarrow> k a w')"

definition readE :: "('w \<Rightarrow> 'a) \<Rightarrow> ('w, 'a) exec" where
  "readE f = (\<lambda>w. (Inr (f w), w))"

definition modifyE :: "('w \<Rightarrow> 'w) \<Rightarrow> ('w, unit) exec" where
  "modifyE f = (\<lambda>w. (Inr (), f w))"

text \<open>\<open>try: m except Exception as e: h(e)\<close>\<close>

definition catchE :: "('w, 'a) exec \<Rightarrow> (exn \<Rightarrow> ('w, 'a) exec) \<Rightarrow> ('w, 'a) exec" where
  "catchE m h = (\<lambda>w. case m w of (Inl e, w') \<Rightarrow> h e w' | (Inr a, w') \<Rightarrow> (Inr a, w'))"

text \<open>A \<open>for\<close> loop whose body is run for its effect, and one that threads an accumulator.\<close>

fun forE :: "'x list \<Rightarrow> ('x \<Rightarrow> ('w, unit) exec) \<Rightarrow> ('w, unit) exec" where
  "forE [] body = returnE ()"
| "forE (x # xs) body = bindE (body x) (\<lambda>_. forE xs body)"

fun foldE :: "'x list \<Rightarrow> ('x \<Rightarrow> 'a \<Rightarrow> ('w, 'a) exec) \<Rightarrow> 'a \<Rightarrow> ('w, 'a) exec" where
  "foldE [] body a = returnE a"
| "foldE (x # xs) body a = bindE (body x a) (\<lambda>a'. foldE xs body a')"

lemma returnE_run [simp, run_simps]: "returnE a w = (Inr a, w)"
  by (simp add: returnE_def)

lemma raiseE_run [simp, run_simps]: "raiseE e w = (Inl e, w)"
  by (simp add: raiseE_def)

lemma readE_run [simp, run_simps]: "readE f w = (Inr (f w), w)"
  by (simp add: readE_def)

lemma modifyE_run [simp, run_simps]: "modifyE f w = (Inr (), f w)"
  by (simp add: modifyE_def)

lemma bindE_ok [simp, run_simps]: "m w = (Inr a, w') \<Longrightarrow> bindE m k w = k a w'"
  by (simp add: bindE_def)

lemma bindE_err [simp, run_simps]: "m w = (Inl e, w') \<Longrightarrow> bindE m k w = (Inl e, w')"
  by (simp add: bindE_def)

lemma bindE_return [simp]: "bindE (returnE a) k = k a"
  by (simp add: bindE_def fun_eq_iff)

lemma bindE_assoc: "bindE (bindE m k) l = bindE m (\<lambda>a. bindE (k a) l)"
  by (auto simp: bindE_def fun_eq_iff split: prod.splits sum.splits)

lemma bindE_InrD:
  assumes "bindE m k w = (Inr b, w'')"
  obtains a w' where "m w = (Inr a, w')" "k a w' = (Inr b, w'')"
  using assms by (auto simp: bindE_def split: prod.splits sum.splits)

lemma bindE_cases:
  assumes "bindE m k w = (r, w')"
  obtains (raised) e where "m w = (Inl e, w')" "r = Inl e"
  | (bound) a w1 where "m w = (Inr a, w1)" "k a w1 = (r, w')"
  using assms by (auto simp: bindE_def split: prod.splits sum.splits)

lemma catchE_ok [simp, run_simps]: "m w = (Inr a, w') \<Longrightarrow> catchE m h w = (Inr a, w')"
  by (simp add: catchE_def)

lemma catchE_err [simp, run_simps]: "m w = (Inl e, w') \<Longrightarrow> catchE m h w = h e w'"
  by (simp add: catchE_def)

section \<open>Carrying an invariant through a computation\<close>

text \<open>
  \<open>keeps I m\<close>: whenever \<open>I\<close> holds before \<open>m\<close>, it holds after it, whether \<open>m\<close>
  returns or raises. The rules are the ones a proof needs to walk through the text of an
  operation, so a preservation proof names only the facts about the primitive steps.
\<close>

definition keeps :: "('w \<Rightarrow> bool) \<Rightarrow> ('w, 'a) exec \<Rightarrow> bool" where
  "keeps I m \<longleftrightarrow> (\<forall>w. I w \<longrightarrow> I (snd (m w)))"

lemma keepsD: "keeps I m \<Longrightarrow> I w \<Longrightarrow> m w = (r, w') \<Longrightarrow> I w'"
  by (auto simp: keeps_def dest: spec [of _ w])

lemma keepsI: "(\<And>w r w'. I w \<Longrightarrow> m w = (r, w') \<Longrightarrow> I w') \<Longrightarrow> keeps I m"
  by (auto simp: keeps_def) (metis prod.collapse)

lemma keeps_returnE [keeps_intros]: "keeps I (returnE a)"
  by (simp add: keeps_def)

lemma keeps_raiseE [keeps_intros]: "keeps I (raiseE e)"
  by (simp add: keeps_def)

lemma keeps_readE [keeps_intros]: "keeps I (readE f)"
  by (simp add: keeps_def)

lemma keeps_modifyE: "(\<And>w. I w \<Longrightarrow> I (f w)) \<Longrightarrow> keeps I (modifyE f)"
  by (simp add: keeps_def)

lemma keeps_bindE [keeps_intros]:
  assumes "keeps I m" "\<And>a. keeps I (k a)"
  shows "keeps I (bindE m k)"
proof (rule keepsI)
  fix w r w' assume I: "I w" and run: "bindE m k w = (r, w')"
  obtain r1 w1 where m: "m w = (r1, w1)" by (cases "m w")
  with assms(1) I have I1: "I w1" by (rule keepsD)
  show "I w'"
  proof (cases r1)
    case (Inl e) with m run I1 show ?thesis by simp
  next
    case (Inr a) with m run have "k a w1 = (r, w')" by simp
    with assms(2) I1 show ?thesis by (rule keepsD)
  qed
qed

lemma keeps_catchE [keeps_intros]:
  assumes "keeps I m" "\<And>e. keeps I (h e)"
  shows "keeps I (catchE m h)"
proof (rule keepsI)
  fix w r w' assume I: "I w" and run: "catchE m h w = (r, w')"
  obtain r1 w1 where m: "m w = (r1, w1)" by (cases "m w")
  with assms(1) I have I1: "I w1" by (rule keepsD)
  show "I w'"
  proof (cases r1)
    case (Inr a) with m run I1 show ?thesis by simp
  next
    case (Inl e) with m run have "h e w1 = (r, w')" by simp
    with assms(2) I1 show ?thesis by (rule keepsD)
  qed
qed

lemma keeps_if [keeps_intros]:
  "keeps I m \<Longrightarrow> keeps I n \<Longrightarrow> keeps I (if b then m else n)"
  by simp

lemma keeps_case_option [keeps_intros]:
  "keeps I m \<Longrightarrow> (\<And>x. keeps I (n x)) \<Longrightarrow> keeps I (case v of None \<Rightarrow> m | Some x \<Rightarrow> n x)"
  by (cases v) auto

lemma keeps_case_prod [keeps_intros]: "(\<And>a b. keeps I (n a b)) \<Longrightarrow> keeps I (case v of (a, b) \<Rightarrow> n a b)"
  by (cases v) auto

lemma keeps_case_sum [keeps_intros]:
  "(\<And>a. keeps I (m a)) \<Longrightarrow> (\<And>x. keeps I (n x)) \<Longrightarrow> keeps I (case v of Inl a \<Rightarrow> m a | Inr x \<Rightarrow> n x)"
  by (cases v) auto

lemma keeps_case_list [keeps_intros]:
  "keeps I m \<Longrightarrow> (\<And>x xs. keeps I (n x xs)) \<Longrightarrow> keeps I (case v of [] \<Rightarrow> m | x # xs \<Rightarrow> n x xs)"
  by (cases v) auto

lemma keeps_Let [keeps_intros]: "(\<And>a. keeps I (n a)) \<Longrightarrow> keeps I (let a = v in n a)"
  by simp

lemma keeps_forE [keeps_intros]: "(\<And>x. keeps I (body x)) \<Longrightarrow> keeps I (forE xs body)"
  by (induction xs) (auto intro!: keeps_intros)

lemma keeps_foldE [keeps_intros]: "(\<And>x a. keeps I (body x a)) \<Longrightarrow> keeps I (foldE xs body a)"
  by (induction xs arbitrary: a) (auto intro!: keeps_intros)

section \<open>Lists\<close>

text \<open>An \<open>UPDATE\<close> of the rows selected by a predicate.\<close>

definition map_where :: "('a \<Rightarrow> bool) \<Rightarrow> ('a \<Rightarrow> 'a) \<Rightarrow> 'a list \<Rightarrow> 'a list" where
  "map_where p f xs = map (\<lambda>x. if p x then f x else x) xs"

lemma length_map_where [simp]: "length (map_where p f xs) = length xs"
  by (simp add: map_where_def)

lemma map_where_Nil [simp]: "map_where p f [] = []"
  by (simp add: map_where_def)

lemma map_where_Cons [simp]:
  "map_where p f (x # xs) = (if p x then f x else x) # map_where p f xs"
  by (simp add: map_where_def)

lemma map_where_append [simp]: "map_where p f (xs @ ys) = map_where p f xs @ map_where p f ys"
  by (simp add: map_where_def)

text \<open>A column the update does not write is unchanged in every row.\<close>

lemma map_where_column: "(\<And>x. g (f x) = g x) \<Longrightarrow> map g (map_where p f xs) = map g xs"
  by (simp add: map_where_def)

lemma set_map_where: "set (map_where p f xs) = f ` {x \<in> set xs. p x} \<union> {x \<in> set xs. \<not> p x}"
  by (auto simp: map_where_def)

lemma image_map_where: "(\<And>x. g (f x) = g x) \<Longrightarrow> g ` set (map_where p f xs) = g ` set xs"
  using map_where_column [of g f p xs] by (metis list.set_map)

lemma Ball_map_where:
  "(\<forall>x \<in> set (map_where p f xs). P x) \<longleftrightarrow> (\<forall>x \<in> set xs. if p x then P (f x) else P x)"
  by (auto simp: map_where_def)

lemma filter_map_where:
  assumes "\<And>x. q (f x) = q x"
  shows "filter q (map_where p f xs) = map_where p f (filter q xs)"
  using assms by (induction xs) auto

lemma map_where_none: "(\<And>x. x \<in> set xs \<Longrightarrow> \<not> p x) \<Longrightarrow> map_where p f xs = xs"
  by (simp add: map_where_def map_idI)

lemma filter_eq_distinct_key:
  assumes "distinct (map f xs)" "x \<in> set xs"
  shows "filter (\<lambda>y. f y = f x) xs = [x]"
  using assms by (induction xs) (auto simp: image_iff filter_empty_conv)

end
