(* ===== verification/Py_Text.thy ===== *)
theory Py_Text
  imports Prelude
begin

text \<open>
  The part of Python's \<open>str\<close>, \<open>bytes\<close>, \<open>int\<close>, \<open>uuid\<close> and \<open>datetime\<close> that the
  program uses. A Python string is an Isabelle \<open>string\<close>, one \<open>char\<close> per code point, so the
  model covers the strings whose code points are at most U+00FF; on these \<open>len\<close>, slices,
  \<open>lower\<close>, \<open>strip\<close> and \<open>encode\<close> are exact.
\<close>

section \<open>Strings\<close>

text \<open>\<open>s.split(c, maxsplit=k)\<close> for a one-character separator.\<close>

fun split_max :: "char \<Rightarrow> nat \<Rightarrow> string \<Rightarrow> string list" where
  "split_max c 0 s = [s]"
| "split_max c (Suc k) s =
     (if c \<in> set s
      then takeWhile (\<lambda>x. x \<noteq> c) s # split_max c k (tl (dropWhile (\<lambda>x. x \<noteq> c) s))
      else [s])"

text \<open>\<open>sep.join(xs)\<close>\<close>

fun py_join :: "string \<Rightarrow> string list \<Rightarrow> string" where
  "py_join sep [] = []"
| "py_join sep [x] = x"
| "py_join sep (x # y # ys) = x @ sep @ py_join sep (y # ys)"

text \<open>\<open>s.lower()\<close> on the code points up to U+00FF.\<close>

definition char_lower :: "char \<Rightarrow> char" where
  "char_lower c =
     (let n = of_char c :: nat
      in if (65 \<le> n \<and> n \<le> 90) \<or> (192 \<le> n \<and> n \<le> 222 \<and> n \<noteq> 215) then char_of (n + 32) else c)"

definition py_lower :: "string \<Rightarrow> string" where
  "py_lower s = map char_lower s"

definition py_upper_hex :: "string \<Rightarrow> string" where
  "py_upper_hex s = map (\<lambda>c. let n = of_char c :: nat
     in if 97 \<le> n \<and> n \<le> 122 then char_of (n - 32) else c) s"

definition is_space :: "char \<Rightarrow> bool" where
  "is_space c \<longleftrightarrow> (let n = of_char c :: nat
     in (9 \<le> n \<and> n \<le> 13) \<or> (28 \<le> n \<and> n \<le> 32) \<or> n = 133 \<or> n = 160)"

definition strip_by :: "(char \<Rightarrow> bool) \<Rightarrow> string \<Rightarrow> string" where
  "strip_by p s = rev (dropWhile p (rev (dropWhile p s)))"

text \<open>\<open>s.replace(p, '')\<close>: leftmost, non-overlapping occurrences.\<close>

function remove_all :: "string \<Rightarrow> string \<Rightarrow> string" where
  "remove_all p s =
     (case s of [] \<Rightarrow> []
      | c # cs \<Rightarrow>
          if p \<noteq> [] \<and> take (length p) s = p then remove_all p (drop (length p) s)
          else c # remove_all p cs)"
  by pat_completeness auto
termination
  by (relation "measure (\<lambda>(p, s). length s)")
    (auto simp: less_Suc_eq_le Suc_diff_le neq_Nil_conv)

declare remove_all.simps [simp del]

section \<open>Integers as text\<close>

definition dec_digit :: "int \<Rightarrow> char" where
  "dec_digit d = char_of (nat (48 + d))"

function nat_str :: "int \<Rightarrow> string" where
  "nat_str n = (if n < 10 then [dec_digit n] else nat_str (n div 10) @ [dec_digit (n mod 10)])"
  by pat_completeness auto
termination
  by (relation "measure nat") auto

declare nat_str.simps [simp del]

text \<open>\<open>str(i)\<close> for a Python \<open>int\<close>.\<close>

definition int_str :: "int \<Rightarrow> string" where
  "int_str i = (if i < 0 then CHR ''-'' # nat_str (- i) else nat_str i)"

text \<open>\<open>f'{n:0kd}'\<close> and \<open>'{:0kx}'\<close>: exactly \<open>k\<close> digits.\<close>

fun dec_pad :: "nat \<Rightarrow> int \<Rightarrow> string" where
  "dec_pad 0 n = []"
| "dec_pad (Suc k) n = dec_pad k (n div 10) @ [dec_digit (n mod 10)]"

definition hex_digit :: "int \<Rightarrow> char" where
  "hex_digit d = char_of (nat (if d < 10 then 48 + d else 87 + d))"

fun hex_pad :: "nat \<Rightarrow> int \<Rightarrow> string" where
  "hex_pad 0 n = []"
| "hex_pad (Suc k) n = hex_pad k (n div 16) @ [hex_digit (n mod 16)]"

definition hex_value :: "char \<Rightarrow> int option" where
  "hex_value c =
     (let n = of_char c :: int
      in if 48 \<le> n \<and> n \<le> 57 then Some (n - 48)
         else if 97 \<le> n \<and> n \<le> 102 then Some (n - 87)
         else if 65 \<le> n \<and> n \<le> 70 then Some (n - 55)
         else None)"

text \<open>
  The digits of \<open>int(s, 16)\<close>: hexadecimal digits with single underscores between them. The
  flag says whether an underscore is allowed next.
\<close>

fun hex_digits :: "bool \<Rightarrow> int \<Rightarrow> string \<Rightarrow> int option" where
  "hex_digits us acc [] = (if us then Some acc else None)"
| "hex_digits us acc (c # cs) =
     (if c = CHR ''_'' then (if us then hex_digits False acc cs else None)
      else (case hex_value c of None \<Rightarrow> None | Some d \<Rightarrow> hex_digits True (16 * acc + d) cs))"

text \<open>\<open>int(s, 16)\<close>: surrounding white space, a sign and a \<open>0x\<close> prefix are accepted.\<close>

definition drop_0x :: "string \<Rightarrow> bool \<times> string" where
  "drop_0x s = (case s of
       z # x # cs \<Rightarrow> if z = CHR ''0'' \<and> (x = CHR ''x'' \<or> x = CHR ''X'') then (True, cs) else (False, s)
     | _ \<Rightarrow> (False, s))"

definition int_base16 :: "string \<Rightarrow> int option" where
  "int_base16 s0 =
     (let s = strip_by is_space s0;
          (neg, s1) = (case s of
               c # cs \<Rightarrow> if c = CHR ''-'' then (True, cs) else if c = CHR ''+'' then (False, cs)
                         else (False, s)
             | [] \<Rightarrow> (False, s));
          (pre, s2) = drop_0x s1
      in case hex_digits pre 0 s2 of
           None \<Rightarrow> None
         | Some n \<Rightarrow> if s2 = [] then None else Some (if neg then - n else n))"

section \<open>Bytes\<close>

text \<open>\<open>s.encode('utf-8')\<close>\<close>

definition utf8_char :: "char \<Rightarrow> bytes" where
  "utf8_char c =
     (let n = of_char c :: nat
      in if n < 128 then [of_nat n] else [of_nat (192 + n div 64), of_nat (128 + n mod 64)])"

definition utf8 :: "string \<Rightarrow> bytes" where
  "utf8 s = concat (map utf8_char s)"

text \<open>\<open>b.hex()\<close>\<close>

definition bytes_hex :: "bytes \<Rightarrow> string" where
  "bytes_hex bs = concat (map (\<lambda>b. hex_pad 2 (uint b)) bs)"

section \<open>UUIDs\<close>

text \<open>\<open>u.bytes\<close>: the 16 bytes, most significant first.\<close>

definition uuid_bytes :: "uuid \<Rightarrow> bytes" where
  "uuid_bytes u = map (\<lambda>i. ucast (drop_bit (8 * (15 - i)) u)) [0..<16]"

text \<open>\<open>str(u)\<close>\<close>

definition uuid_str :: "uuid \<Rightarrow> string" where
  "uuid_str u =
     (let h = hex_pad 32 (uint u)
      in take 8 h @ ''-'' @ take 4 (drop 8 h) @ ''-'' @ take 4 (drop 12 h) @ ''-''
         @ take 4 (drop 16 h) @ ''-'' @ drop 20 h)"

text \<open>\<open>UUID(s)\<close>: raises \<open>ValueError\<close> on a badly formed string.\<close>

definition uuid_parse :: "string \<Rightarrow> exn + uuid" where
  "uuid_parse s =
     (let h = filter (\<lambda>c. c \<noteq> CHR ''-'')
                (strip_by (\<lambda>c. c = CHR ''{'' \<or> c = CHR ''}'')
                  (remove_all ''uuid:'' (remove_all ''urn:'' s)))
      in if length h \<noteq> 32 then Inl (ValueError ''badly formed hexadecimal UUID string'')
         else (case int_base16 h of
             None \<Rightarrow> Inl (ValueError ''invalid literal for int() with base 16'')
           | Some i \<Rightarrow> if 0 \<le> i \<and> i < 2 ^ 128 then Inr (of_int i)
                       else Inl (ValueError ''int is out of range (need a 128-bit value)'')))"

section \<open>Dates\<close>

text \<open>
  \<open>dt.isoformat()\<close> of an aware UTC \<open>datetime\<close>: \<open>YYYY-MM-DDTHH:MM:SS[.ffffff]+00:00\<close>. The
  civil date of a day number follows the proleptic Gregorian calendar, with years that start
  in March so that the leap day is the last day of the year.
\<close>

definition civil_of_days :: "int \<Rightarrow> int \<times> int \<times> int" where
  "civil_of_days d =
     (let z = d + 719468;
          era = z div 146097;
          doe = z mod 146097;
          yoe = (doe - doe div 1460 + doe div 36524 - doe div 146096) div 365;
          doy = doe - (365 * yoe + yoe div 4 - yoe div 100);
          mp = (5 * doy + 2) div 153;
          day = doy - (153 * mp + 2) div 5 + 1;
          month = (if mp < 10 then mp + 3 else mp - 9);
          year = yoe + era * 400 + (if month \<le> 2 then 1 else 0)
      in (year, month, day))"

definition isoformat :: "time \<Rightarrow> string" where
  "isoformat t =
     (let us = t mod 1000000; secs = t div 1000000;
          sod = secs mod 86400;
          (y, m, d) = civil_of_days (secs div 86400)
      in dec_pad 4 y @ ''-'' @ dec_pad 2 m @ ''-'' @ dec_pad 2 d @ ''T''
         @ dec_pad 2 (sod div 3600) @ '':'' @ dec_pad 2 (sod div 60 mod 60) @ '':''
         @ dec_pad 2 (sod mod 60)
         @ (if us = 0 then [] else ''.'' @ dec_pad 6 us) @ ''+00:00'')"

section \<open>Facts about text\<close>

lemma of_nat_byte_inj: "n < 256 \<Longrightarrow> m < 256 \<Longrightarrow> of_nat n = (of_nat m :: byte) \<longleftrightarrow> n = m"
  by (auto simp: word_of_nat_eq_iff take_bit_nat_def)

lemma utf8_char_append_inj:
  assumes "utf8_char c @ xs = utf8_char d @ ys"
  shows "c = d \<and> xs = ys"
proof -
  let ?n = "of_char c :: nat" and ?m = "of_char d :: nat"
  have b: "?n < 256" "?m < 256" by simp_all
  have e: "?n = ?m \<and> xs = ys"
  proof (cases "?n < 128"; cases "?m < 128")
    assume "\<not> ?n < 128" "\<not> ?m < 128"
    with assms have "?n div 64 = ?m div 64" "?n mod 64 = ?m mod 64" "xs = ys"
      using b by (auto simp: utf8_char_def Let_def of_nat_byte_inj simp del: of_nat_add)
    then show ?thesis by (metis div_mult_mod_eq)
  qed (use assms b in \<open>auto simp: utf8_char_def Let_def of_nat_byte_inj simp del: of_nat_add\<close>)
  then show ?thesis by (simp add: of_char_eq_iff)
qed

lemma utf8_Nil [simp]: "utf8 [] = []"
  by (simp add: utf8_def)

lemma utf8_append [simp]: "utf8 (s @ t) = utf8 s @ utf8 t"
  by (simp add: utf8_def)

lemma utf8_char_not_Nil [simp]: "utf8_char c \<noteq> []"
  by (simp add: utf8_char_def Let_def)

lemma utf8_inj [simp]: "utf8 s = utf8 t \<longleftrightarrow> s = t"
proof
  show "utf8 s = utf8 t \<Longrightarrow> s = t"
  proof (induction s arbitrary: t)
    case Nil
    then show ?case by (cases t) (auto simp: utf8_def)
  next
    case (Cons c s)
    then obtain d t' where t: "t = d # t'" by (cases t) (auto simp: utf8_def)
    with Cons.prems have "utf8_char c @ utf8 s = utf8_char d @ utf8 t'" by (simp add: utf8_def)
    then have "c = d" "utf8 s = utf8 t'" by (auto dest: utf8_char_append_inj)
    with Cons.IH t show ?case by simp
  qed
qed simp

lemma length_dec_pad [simp]: "length (dec_pad k n) = k"
  by (induction k arbitrary: n) auto

lemma length_hex_pad [simp]: "length (hex_pad k n) = k"
  by (induction k arbitrary: n) auto

lemma length_uuid_bytes [simp]: "length (uuid_bytes u) = 16"
  by (simp add: uuid_bytes_def)

lemma uuid_bytes_inj [simp]: "uuid_bytes u = uuid_bytes v \<longleftrightarrow> u = v"
proof
  assume eq: "uuid_bytes u = uuid_bytes v"
  show "u = v"
  proof (rule bit_word_eqI)
    fix n assume n: "n < LENGTH(128)"
    let ?i = "15 - n div 8"
    from n have i: "?i < 16" "8 * (15 - ?i) + n mod 8 = n" by auto
    from eq have "uuid_bytes u ! ?i = uuid_bytes v ! ?i" by simp
    then have "(ucast (drop_bit (8 * (15 - ?i)) u) :: byte) = ucast (drop_bit (8 * (15 - ?i)) v)"
      using i by (simp add: uuid_bytes_def)
    then have "bit (ucast (drop_bit (8 * (15 - ?i)) u) :: byte) (n mod 8)
             = bit (ucast (drop_bit (8 * (15 - ?i)) v) :: byte) (n mod 8)" by simp
    then show "bit u n = bit v n" using i n
      by (simp add: bit_ucast_iff bit_drop_bit_eq)
  qed
qed simp

section \<open>A UUID survives printing and parsing\<close>

lemma of_char_char_of_int [simp]:
  assumes "0 \<le> n" "n < 256"
  shows "(of_char (char_of (nat n)) :: int) = n"
proof -
  have "(of_char (char_of (nat n)) :: int) = int (of_char (char_of (nat n)))"
    by (rule of_nat_of_char [symmetric])
  also have "\<dots> = int (nat n mod 256)" by (simp only: of_char_of)
  finally show ?thesis using assms by simp
qed

lemma hex_digit_value: "0 \<le> d \<Longrightarrow> d < 16 \<Longrightarrow> hex_value (hex_digit d) = Some d"
  by (auto simp: hex_value_def hex_digit_def Let_def)

definition is_hex :: "char \<Rightarrow> bool" where
  "is_hex c \<longleftrightarrow> c \<in> hex_digit ` {0..<16}"

lemma is_hex_digit [simp]: "is_hex (hex_digit (n mod 16))"
  by (auto simp: is_hex_def)

lemma hex_pad_is_hex: "c \<in> set (hex_pad k n) \<Longrightarrow> is_hex c"
  by (induction k arbitrary: n) auto

lemma is_hex_not [simp]:
  assumes "is_hex c"
  shows "c \<noteq> CHR ''_''" "c \<noteq> CHR ''-''" "c \<noteq> CHR ''+''" "c \<noteq> CHR ''x''" "c \<noteq> CHR ''X''"
    "c \<noteq> CHR ''u''" "c \<noteq> CHR ''{''" "c \<noteq> CHR ''}''" "\<not> is_space c" "c \<noteq> CHR ''/''" "c \<noteq> CHR ''.''"
proof -
  from assms obtain d where d: "0 \<le> d" "d < 16" "c = hex_digit d" by (auto simp: is_hex_def)
  then have "(of_char c :: int) = (if d < 10 then 48 + d else 87 + d)"
    by (auto simp: hex_digit_def)
  then have n: "(of_char c :: int) \<in> {48..57} \<union> {97..102}" using d by auto
  have m: "(of_char c :: nat) \<in> {48..57} \<union> {97..102}"
    using n of_nat_of_char [of c, where 'a = int] by auto
  show "c \<noteq> CHR ''_''" "c \<noteq> CHR ''-''" "c \<noteq> CHR ''+''" "c \<noteq> CHR ''x''" "c \<noteq> CHR ''X''"
    "c \<noteq> CHR ''u''" "c \<noteq> CHR ''{''" "c \<noteq> CHR ''}''" "\<not> is_space c" "c \<noteq> CHR ''/''" "c \<noteq> CHR ''.''"
    using m by (auto simp: is_space_def Let_def)
qed

lemma hex_digits_append:
  assumes "0 \<le> d" "d < 16" "hex_digits us acc s = Some n" "\<forall>c \<in> set s. is_hex c"
  shows "hex_digits us acc (s @ [hex_digit d]) = Some (16 * n + d)"
  using assms
proof (induction us acc s rule: hex_digits.induct)
  case (1 us acc)
  then show ?case
    by (auto simp: hex_digit_value split: if_splits) (metis atLeastLessThan_iff imageI is_hex_def is_hex_not(1))
next
  case (2 us acc c cs)
  then show ?case by (auto split: if_splits option.splits)
qed

lemma hex_digits_pad: "0 \<le> n \<Longrightarrow> n < 16 ^ k \<Longrightarrow> 0 < k \<Longrightarrow> hex_digits False 0 (hex_pad k n) = Some n"
proof (induction k arbitrary: n)
  case 0
  then show ?case by simp
next
  case (Suc k)
  show ?case
  proof (cases "k = 0")
    case True
    with Suc.prems have "is_hex (hex_digit n)" by (auto simp: is_hex_def)
    with True Suc.prems show ?thesis by (simp add: hex_digit_value)
  next
    case False
    from Suc.prems have "n div 16 < 16 ^ k" by (simp add: div_less_iff_less_mult mult.commute)
    with Suc.IH [of "n div 16"] Suc.prems False
    have "hex_digits False 0 (hex_pad k (n div 16)) = Some (n div 16)" by auto
    then have "hex_digits False 0 (hex_pad k (n div 16) @ [hex_digit (n mod 16)])
        = Some (16 * (n div 16) + n mod 16)"
      by (intro hex_digits_append) (auto dest: hex_pad_is_hex)
    then show ?thesis by simp
  qed
qed

lemma remove_all_id: "hd p \<notin> set s \<Longrightarrow> p \<noteq> [] \<Longrightarrow> remove_all p s = s"
proof (induction s)
  case Nil
  then show ?case by (simp add: remove_all.simps)
next
  case (Cons c s)
  then have "take (length p) (c # s) \<noteq> p" by (cases p) auto
  with Cons show ?case by (simp add: remove_all.simps [of p "c # s"])
qed

lemma strip_by_id: "s \<noteq> [] \<Longrightarrow> \<not> p (hd s) \<Longrightarrow> \<not> p (last s) \<Longrightarrow> strip_by p s = s"
proof -
  assume a: "s \<noteq> []" "\<not> p (hd s)" "\<not> p (last s)"
  from a have 1: "dropWhile p s = s" by (cases s) auto
  from a have 2: "dropWhile p (rev s) = rev s" by (cases s rule: rev_cases) auto
  from 1 2 show ?thesis by (simp add: strip_by_def)
qed

lemma not_is_hex [simp]: "\<not> is_hex (CHR ''-'')" "\<not> is_hex (CHR ''u'')" "\<not> is_hex (CHR ''/'')" "\<not> is_hex (CHR ''.'')"
  using is_hex_not(2) is_hex_not(6) is_hex_not(10) is_hex_not(11) by blast+

lemma five_parts:
  "take 8 h @ take 4 (drop 8 h) @ take 4 (drop 12 h) @ take 4 (drop 16 h) @ drop 20 h = h"
proof -
  have "h = take 8 h @ drop 8 h" by simp
  also have "drop 8 h = take 4 (drop 8 h) @ drop 12 h"
    using append_take_drop_id [of 4 "drop 8 h"] by simp
  also have "drop 12 h = take 4 (drop 12 h) @ drop 16 h"
    using append_take_drop_id [of 4 "drop 12 h"] by simp
  also have "drop 16 h = take 4 (drop 16 h) @ drop 20 h"
    using append_take_drop_id [of 4 "drop 16 h"] by simp
  finally show ?thesis by simp
qed

lemma uuid_str_chars: "c \<in> set (uuid_str u) \<Longrightarrow> is_hex c \<or> c = CHR ''-''"
  by (auto simp: uuid_str_def Let_def dest!: in_set_takeD in_set_dropD dest: hex_pad_is_hex)

lemma uuid_str_undash: "filter (\<lambda>c. c \<noteq> CHR ''-'') (uuid_str u) = hex_pad 32 (uint u)"
proof -
  let ?h = "hex_pad 32 (uint u)"
  have f: "filter (\<lambda>c. c \<noteq> CHR ''-'') xs = xs" if "set xs \<subseteq> set ?h" for xs
    using that by (auto simp: filter_id_conv dest!: subsetD hex_pad_is_hex)
  have f1: "filter (\<lambda>c. c \<noteq> CHR ''-'') (take n ?h) = take n ?h" for n
    by (rule f) (rule set_take_subset)
  have f2: "filter (\<lambda>c. c \<noteq> CHR ''-'') (drop n ?h) = drop n ?h" for n
    by (rule f) (rule set_drop_subset)
  have f3: "filter (\<lambda>c. c \<noteq> CHR ''-'') (take m (drop n ?h)) = take m (drop n ?h)" for m n
    by (rule f) (meson set_take_subset set_drop_subset order_trans)
  have "filter (\<lambda>c. c \<noteq> CHR ''-'') (uuid_str u)
      = take 8 ?h @ take 4 (drop 8 ?h) @ take 4 (drop 12 ?h) @ take 4 (drop 16 ?h) @ drop 20 ?h"
    unfolding uuid_str_def Let_def filter_append by (simp add: f1 f2 f3)
  then show ?thesis by (simp only: five_parts)
qed

lemma hd_last_is_hex:
  assumes "s \<noteq> []" "\<forall>c \<in> set s. is_hex c"
  shows "is_hex (hd s)" "is_hex (last s)"
  using assms by auto

lemma hd_last_uuid_str: "is_hex (hd (uuid_str u))" "is_hex (last (uuid_str u))"
proof -
  let ?h = "hex_pad 32 (uint u)"
  have "take 8 ?h \<noteq> []" "drop 20 ?h \<noteq> []" by (auto simp flip: length_0_conv)
  moreover from this have "is_hex (hd (take 8 ?h))" "is_hex (last (drop 20 ?h))"
    by (auto intro!: hd_last_is_hex dest: in_set_takeD in_set_dropD hex_pad_is_hex
        simp del: hd_take last_drop)
  ultimately show "is_hex (hd (uuid_str u))" "is_hex (last (uuid_str u))"
    by (simp_all add: uuid_str_def Let_def hd_append last_append del: hd_take last_drop take_eq_Nil drop_eq_Nil)
qed

lemma uuid_parse_str: "uuid_parse (uuid_str u) = Inr u"
proof -
  let ?h = "hex_pad 32 (uint u)" and ?s = "uuid_str u"
  have ne: "?s \<noteq> []" by (simp add: uuid_str_def Let_def)
  have no: "CHR ''u'' \<notin> set ?s" by (auto dest: uuid_str_chars)
  have ids: "remove_all ''uuid:'' (remove_all ''urn:'' ?s) = ?s"
    using no by (simp add: remove_all_id)
  have st: "strip_by (\<lambda>c. c = CHR ''{'' \<or> c = CHR ''}'') ?s = ?s"
    using ne hd_last_uuid_str [of u] by (intro strip_by_id) auto
  have hex: "\<forall>c \<in> set ?h. is_hex c" by (auto dest: hex_pad_is_hex)
  obtain a b cs where h: "?h = a # b # cs"
    using length_hex_pad [of 32 "uint u"] by (cases ?h rule: remdups_adj.cases) auto
  then have ab: "is_hex a" "is_hex b" using hex by auto
  have "strip_by is_space ?h = ?h"
    using hex h by (intro strip_by_id) auto
  moreover have "uint u < 16 ^ 32" using uint_bounded [of u] by simp
  ultimately have "int_base16 ?h = Some (uint u)"
    using hex_digits_pad [of "uint u" 32] h ab by (simp add: int_base16_def drop_0x_def)
  then show ?thesis
    using uint_bounded [of u] by (simp add: uuid_parse_def ids st uuid_str_undash)
qed

section \<open>Decimal integers\<close>

definition dec_value :: "char \<Rightarrow> int option" where
  "dec_value c = (let n = of_char c :: int in if 48 \<le> n \<and> n \<le> 57 then Some (n - 48) else None)"

fun dec_digits :: "bool \<Rightarrow> int \<Rightarrow> string \<Rightarrow> int option" where
  "dec_digits us acc [] = (if us then Some acc else None)"
| "dec_digits us acc (c # cs) =
     (if c = CHR ''_'' then (if us then dec_digits False acc cs else None)
      else (case dec_value c of None \<Rightarrow> None | Some d \<Rightarrow> dec_digits True (10 * acc + d) cs))"

text \<open>
  \<open>int(s)\<close>: surrounding white space and a sign are accepted, single underscores between digits,
  and at most 4300 digits.
\<close>

definition int_parse :: "string \<Rightarrow> int option" where
  "int_parse s =
     (let t = strip_by is_space s;
          (neg, ds) = (case t of
              c # cs \<Rightarrow> if c = CHR ''-'' then (True, cs) else if c = CHR ''+'' then (False, cs) else (False, t)
            | [] \<Rightarrow> (False, t))
      in if length (filter (\<lambda>c. c \<noteq> CHR ''_'') ds) > 4300 then None
         else map_option (\<lambda>n. if neg then - n else n) (dec_digits False 0 ds))"

definition is_dec :: "char \<Rightarrow> bool" where
  "is_dec c \<longleftrightarrow> c \<in> dec_digit ` {0..<10}"

lemma dec_digit_value: "0 \<le> d \<Longrightarrow> d < 10 \<Longrightarrow> dec_value (dec_digit d) = Some d"
  by (auto simp: dec_value_def dec_digit_def Let_def)

lemma is_dec_not [simp]:
  assumes "is_dec c" shows "c \<noteq> CHR ''_''" "c \<noteq> CHR ''-''" "c \<noteq> CHR ''+''" "\<not> is_space c"
proof -
  from assms obtain d where d: "0 \<le> d" "d < 10" "c = dec_digit d" by (auto simp: is_dec_def)
  then have "(of_char c :: int) = 48 + d" by (auto simp: dec_digit_def)
  then have n: "(of_char c :: int) \<in> {48..57}" using d by auto
  have m: "(of_char c :: nat) \<in> {48..57}"
    using n of_nat_of_char [of c, where 'a = int] by auto
  show "c \<noteq> CHR ''_''" "c \<noteq> CHR ''-''" "c \<noteq> CHR ''+''" "\<not> is_space c"
    using m by (auto simp: is_space_def Let_def)
qed

lemma nat_str_digits: "0 \<le> n \<Longrightarrow> nat_str n \<noteq> [] \<and> (\<forall>c \<in> set (nat_str n). is_dec c)"
proof (induction n rule: nat_str.induct)
  case (1 n)
  show ?case
  proof (cases "n < 10")
    case True
    then show ?thesis using 1(2) by (subst (1 2) nat_str.simps) (auto simp: is_dec_def)
  next
    case False
    then show ?thesis using 1 by (subst (1 2) nat_str.simps) (auto simp: is_dec_def)
  qed
qed

lemma dec_digits_append:
  "dec_digits us acc s = Some n \<Longrightarrow> \<forall>c \<in> set s. is_dec c \<Longrightarrow> 0 \<le> d \<Longrightarrow> d < 10 \<Longrightarrow>
     dec_digits us acc (s @ [dec_digit d]) = Some (10 * n + d)"
proof (induction us acc s rule: dec_digits.induct)
  case (1 us acc)
  then show ?case
    using is_dec_not(1) [of "dec_digit d"] by (auto simp: dec_digit_value is_dec_def split: if_splits)
next
  case (2 us acc c cs)
  then have c: "c \<noteq> CHR ''_''" by simp
  with 2(3) obtain v where v: "dec_value c = Some v" by (auto split: option.splits)
  with c 2 show ?case by simp
qed

lemma dec_digits_nat_str: "0 \<le> n \<Longrightarrow> dec_digits False 0 (nat_str n) = Some n"
proof (induction n rule: nat_str.induct)
  case (1 n)
  show ?case
  proof (cases "n < 10")
    case True
    then show ?thesis
      using 1(2) is_dec_not(1) [of "dec_digit n"]
      by (subst nat_str.simps) (auto simp: dec_digit_value is_dec_def)
  next
    case False
    then have "dec_digits False 0 (nat_str (n div 10)) = Some (n div 10)" using 1 by auto
    moreover have "\<forall>c \<in> set (nat_str (n div 10)). is_dec c" using nat_str_digits [of "n div 10"] 1(2) by simp
    ultimately have "dec_digits False 0 (nat_str (n div 10) @ [dec_digit (n mod 10)])
        = Some (10 * (n div 10) + n mod 10)"
      by (rule dec_digits_append) auto
    with False show ?thesis by (subst nat_str.simps) simp
  qed
qed

lemma length_nat_str: "0 \<le> n \<Longrightarrow> n < 10 ^ Suc k \<Longrightarrow> length (nat_str n) \<le> Suc k"
proof (induction k arbitrary: n)
  case 0
  then show ?case by (subst nat_str.simps) simp
next
  case (Suc k)
  have "n div 10 < 10 ^ Suc k" using Suc.prems by auto
  with Suc show ?case by (subst nat_str.simps) auto
qed

text \<open>\<open>int(str(n)) = n\<close>, for the numbers of a \<open>BIGINT\<close> column.\<close>

lemma int_parse_str:
  assumes "0 \<le> n" "n < 10 ^ 19" shows "int_parse (int_str n) = Some n"
proof -
  have d: "nat_str n \<noteq> []" "\<forall>c \<in> set (nat_str n). is_dec c" using nat_str_digits [OF assms(1)] by auto
  then obtain c cs where cs: "nat_str n = c # cs" "is_dec c" by (cases "nat_str n") auto
  have l: "is_dec (last (nat_str n))" using d by auto
  have st: "strip_by is_space (nat_str n) = nat_str n"
    using cs l d(1) by (intro strip_by_id) auto
  have len: "length (nat_str n) \<le> 4300" using length_nat_str [of n 18] assms by simp
  then have "length (filter (\<lambda>c. c \<noteq> CHR ''_'') (nat_str n)) \<le> 4300"
    by (rule order_trans [OF length_filter_le])
  with st cs dec_digits_nat_str [OF assms(1)] show ?thesis
    using assms(1) by (auto simp: int_parse_def int_str_def Let_def)
qed

end
