(* ===== verification/Json.thy ===== *)
theory Json
  imports Py_Text "HOL-Library.List_Lexorder" "HOL-Library.Char_ord" "HOL-Library.AList"
begin

text \<open>
  The Python values that travel as JSON: task payloads, audit payloads, step outputs and
  resolution payloads. A \<open>dict\<close> is an association list in insertion order. Floats are exact
  rationals; their text is produced by the function \<open>float_repr\<close>, Python's shortest
  round-trip \<open>repr\<close>, which is a parameter of the serializer.
\<close>

datatype json =
    JNull
  | JBool bool
  | JInt int
  | JFloat rat
  | JStr string
  | JArr "json list"
  | JObj "(string \<times> json) list"

type_synonym dict = "(string \<times> json) list"

section \<open>Dictionaries\<close>

text \<open>\<open>d.get(k)\<close> as an option, \<open>d.get(k, default)\<close>, and \<open>d[k] = v\<close>.\<close>

definition dict_get :: "dict \<Rightarrow> string \<Rightarrow> json option" where
  "dict_get d k = map_of d k"

definition dict_get_or :: "dict \<Rightarrow> string \<Rightarrow> json \<Rightarrow> json" where
  "dict_get_or d k v = (case map_of d k of None \<Rightarrow> v | Some x \<Rightarrow> x)"

definition dict_set :: "dict \<Rightarrow> string \<Rightarrow> json \<Rightarrow> dict" where
  "dict_set d k v = AList.update k v d"

text \<open>\<open>x or None\<close> style optional text.\<close>

definition jstr_opt :: "string option \<Rightarrow> json" where
  "jstr_opt v = (case v of None \<Rightarrow> JNull | Some s \<Rightarrow> JStr s)"

lemma dict_get_set: "dict_get (dict_set d k v) k' = (if k' = k then Some v else dict_get d k')"
  by (auto simp: dict_get_def dict_set_def update_conv)

section \<open>Serialization\<close>

text \<open>\<open>json.dumps\<close> escapes everything outside the printable ASCII range.\<close>

definition json_escape :: "char \<Rightarrow> string" where
  "json_escape c =
     (let n = of_char c :: int
      in if n = 34 then [CHR 0x5C, CHR 0x22]
         else if n = 92 then [CHR 0x5C, CHR 0x5C]
         else if n = 10 then [CHR 0x5C, CHR ''n'']
         else if n = 13 then [CHR 0x5C, CHR ''r'']
         else if n = 9 then [CHR 0x5C, CHR ''t'']
         else if n = 12 then [CHR 0x5C, CHR ''f'']
         else if n = 8 then [CHR 0x5C, CHR ''b'']
         else if 32 \<le> n \<and> n \<le> 126 then [c]
         else CHR 0x5C # ''u'' @ hex_pad 4 n)"

definition json_string :: "string \<Rightarrow> string" where
  "json_string s = [CHR 0x22] @ concat (map json_escape s) @ [CHR 0x22]"

text \<open>\<open>json.dumps(v, sort_keys=sk, separators=(',', ':'))\<close>\<close>

primrec json_dumps :: "bool \<Rightarrow> (rat \<Rightarrow> string) \<Rightarrow> json \<Rightarrow> string" where
  "json_dumps sk fr JNull = ''null''"
| "json_dumps sk fr (JBool b) = (if b then ''true'' else ''false'')"
| "json_dumps sk fr (JInt i) = int_str i"
| "json_dumps sk fr (JFloat x) = fr x"
| "json_dumps sk fr (JStr s) = json_string s"
| "json_dumps sk fr (JArr vs) = ''['' @ py_join '','' (map (json_dumps sk fr) vs) @ '']''"
| "json_dumps sk fr (JObj kvs) =
     (let items = map (map_prod id (json_dumps sk fr)) kvs;
          ordered = (if sk then sort_key fst items else items)
      in ''{'' @ py_join '','' (map (\<lambda>(k, t). json_string k @ '':'' @ t) ordered) @ ''}'')"

end
