(* ===== verification/Sha256.thy ===== *)
theory Sha256
  imports Py_Text
begin

unbundle bit_operations_syntax

text \<open>
  \<open>hashlib.sha256\<close>, the digest the audit chain, the document store and the API keys rest on
  (FIPS 180-4). The definition is executable; the development never assumes anything about it
  but what is proved here. Where a security property needs collision resistance, the theorem
  says instead that a violation exhibits two different messages with the same digest.
\<close>

type_synonym w32 = "32 word"

text \<open>The round constants and the initial state, in decimal.\<close>

definition sha_k :: "w32 list" where
  "sha_k = [
    1116352408, 1899447441, 3049323471, 3921009573, 961987163, 1508970993, 2453635748,
    2870763221, 3624381080, 310598401, 607225278, 1426881987, 1925078388, 2162078206,
    2614888103, 3248222580, 3835390401, 4022224774, 264347078, 604807628, 770255983,
    1249150122, 1555081692, 1996064986, 2554220882, 2821834349, 2952996808, 3210313671,
    3336571891, 3584528711, 113926993, 338241895, 666307205, 773529912, 1294757372,
    1396182291, 1695183700, 1986661051, 2177026350, 2456956037, 2730485921, 2820302411,
    3259730800, 3345764771, 3516065817, 3600352804, 4094571909, 275423344, 430227734,
    506948616, 659060556, 883997877, 958139571, 1322822218, 1537002063, 1747873779,
    1955562222, 2024104815, 2227730452, 2361852424, 2428436474, 2756734187, 3204031479,
    3329325298]"

definition sha_h0 :: "w32 list" where
  "sha_h0 = [
    1779033703, 3144134277, 1013904242, 2773480762, 1359893119, 2600822924, 528734635,
    1541459225]"

definition big_sigma0 :: "w32 \<Rightarrow> w32" where
  "big_sigma0 x = word_rotr 2 x XOR word_rotr 13 x XOR word_rotr 22 x"

definition big_sigma1 :: "w32 \<Rightarrow> w32" where
  "big_sigma1 x = word_rotr 6 x XOR word_rotr 11 x XOR word_rotr 25 x"

definition small_sigma0 :: "w32 \<Rightarrow> w32" where
  "small_sigma0 x = word_rotr 7 x XOR word_rotr 18 x XOR drop_bit 3 x"

definition small_sigma1 :: "w32 \<Rightarrow> w32" where
  "small_sigma1 x = word_rotr 17 x XOR word_rotr 19 x XOR drop_bit 10 x"

definition sha_ch :: "w32 \<Rightarrow> w32 \<Rightarrow> w32 \<Rightarrow> w32" where
  "sha_ch x y z = (x AND y) XOR (NOT x AND z)"

definition sha_maj :: "w32 \<Rightarrow> w32 \<Rightarrow> w32 \<Rightarrow> w32" where
  "sha_maj x y z = (x AND y) XOR (x AND z) XOR (y AND z)"

text \<open>Padding: a one bit, zero bytes up to 56 modulo 64, the bit length in 8 bytes.\<close>

definition sha_pad :: "bytes \<Rightarrow> bytes" where
  "sha_pad m =
     (let l = length m
      in m @ [0x80] @ replicate ((119 - l mod 64) mod 64) 0
         @ map (\<lambda>i. of_int (int l * 8 div 2 ^ (8 * (7 - i)))) [0..<8])"

fun be_words :: "bytes \<Rightarrow> w32 list" where
  "be_words (a # b # c # d # bs) =
     (push_bit 24 (ucast a) OR push_bit 16 (ucast b) OR push_bit 8 (ucast c) OR ucast d)
     # be_words bs"
| "be_words bs = []"

function sha_blocks :: "bytes \<Rightarrow> bytes list" where
  "sha_blocks bs = (if bs = [] then [] else take 64 bs # sha_blocks (drop 64 bs))"
  by pat_completeness auto
termination
  by (relation "measure length") auto

declare sha_blocks.simps [simp del]

text \<open>The message schedule, newest word first.\<close>

definition sha_extend :: "w32 list \<Rightarrow> w32 list" where
  "sha_extend ws = (small_sigma1 (ws ! 1) + ws ! 6 + small_sigma0 (ws ! 14) + ws ! 15) # ws"

definition sha_schedule :: "bytes \<Rightarrow> w32 list" where
  "sha_schedule block = rev ((sha_extend ^^ 48) (rev (be_words block)))"

fun sha_round :: "w32 \<times> w32 \<Rightarrow> w32 list \<Rightarrow> w32 list" where
  "sha_round (k, w) [a, b, c, d, e, f, g, h] =
     (let t1 = h + big_sigma1 e + sha_ch e f g + k + w;
          t2 = big_sigma0 a + sha_maj a b c
      in [t1 + t2, a, b, c, d + t1, e, f, g])"
| "sha_round kw st = st"

definition sha_compress :: "bytes \<Rightarrow> w32 list \<Rightarrow> w32 list" where
  "sha_compress block st = map2 (+) st (fold sha_round (zip sha_k (sha_schedule block)) st)"

definition w32_bytes :: "w32 \<Rightarrow> bytes" where
  "w32_bytes w = [ucast (drop_bit 24 w), ucast (drop_bit 16 w), ucast (drop_bit 8 w), ucast w]"

definition sha256 :: "bytes \<Rightarrow> bytes" where
  "sha256 m = concat (map w32_bytes (fold sha_compress (sha_blocks (sha_pad m)) sha_h0))"

section \<open>The digest has 32 bytes\<close>

lemma length_sha_round [simp]: "length (sha_round kw st) = length st"
  by (cases "(kw, st)" rule: sha_round.cases) (simp_all add: Let_def)

lemma length_fold_round [simp]: "length (fold sha_round kws st) = length st"
  by (induction kws arbitrary: st) auto

lemma length_sha_compress [simp]: "length (sha_compress block st) = length st"
  by (simp add: sha_compress_def)

lemma length_fold_compress [simp]: "length (fold sha_compress blocks st) = length st"
  by (induction blocks arbitrary: st) auto

lemma length_w32_bytes [simp]: "length (w32_bytes w) = 4"
  by (simp add: w32_bytes_def)

lemma length_concat_w32 [simp]: "length (concat (map w32_bytes ws)) = 4 * length ws"
  by (induction ws) auto

lemma length_sha256 [simp]: "length (sha256 m) = 32"
  by (simp add: sha256_def sha_h0_def)

section \<open>Collisions\<close>

text \<open>Two different messages with the same digest.\<close>

definition sha256_collision :: "bytes \<Rightarrow> bytes \<Rightarrow> bool" where
  "sha256_collision x y \<longleftrightarrow> x \<noteq> y \<and> sha256 x = sha256 y"

lemma sha256_eqD: "sha256 x = sha256 y \<Longrightarrow> \<not> sha256_collision x y \<Longrightarrow> x = y"
  by (auto simp: sha256_collision_def)

end
