(* ===== verification/Domain.thy ===== *)
theory Domain
  imports Json Sha256
begin

text \<open>
  \<open>src/insuranceops/domain\<close>: the pure domain models. The string enumerations of the code are
  datatypes with a \<open>_value\<close> function for the enum value; a dataclass with a
  \<open>__post_init__\<close> check is a record with a constructor function that may raise.
\<close>

section \<open>Workflow runs\<close>

datatype WorkflowRunState = pending | running | awaiting_human | completed | failed | cancelled

fun run_state_value :: "WorkflowRunState \<Rightarrow> string" where
  "run_state_value pending = ''pending''"
| "run_state_value running = ''running''"
| "run_state_value awaiting_human = ''awaiting_human''"
| "run_state_value completed = ''completed''"
| "run_state_value failed = ''failed''"
| "run_state_value cancelled = ''cancelled''"

definition run_terminal_states :: "WorkflowRunState list" where
  "run_terminal_states = [completed, failed, cancelled]"

fun run_valid_transitions :: "WorkflowRunState \<Rightarrow> WorkflowRunState list" where
  "run_valid_transitions pending = [running]"
| "run_valid_transitions running = [awaiting_human, completed, failed, cancelled]"
| "run_valid_transitions awaiting_human = [running, cancelled]"
| "run_valid_transitions completed = []"
| "run_valid_transitions failed = []"
| "run_valid_transitions cancelled = []"

text \<open>The message shows \<open>sorted(...)\<close> of the allowed values as a Python list.\<close>

definition list_repr :: "string list \<Rightarrow> string" where
  "list_repr xs = ''['' @ py_join '', '' (map (\<lambda>x. [CHR 0x27] @ x @ [CHR 0x27]) xs) @ '']''"

definition transition_error :: "string \<Rightarrow> string \<Rightarrow> string \<Rightarrow> string list \<Rightarrow> exn" where
  "transition_error cls cur tgt allowed =
     ValueError (''Invalid '' @ cls @ '' state transition: '' @ cur @ '' -> '' @ tgt
       @ ''. Allowed targets from '' @ cur @ '': ''
       @ (if allowed \<noteq> [] then list_repr (sort allowed) else ''none (terminal state)''))"

definition validate_run_transition :: "WorkflowRunState \<Rightarrow> WorkflowRunState \<Rightarrow> exn + unit" where
  "validate_run_transition current target =
     (if target \<in> set (run_valid_transitions current) then Inr ()
      else Inl (transition_error ''WorkflowRun'' (run_state_value current) (run_state_value target)
                 (map run_state_value (run_valid_transitions current))))"

record WorkflowRun =
  wr_workflow_run_id :: uuid
  wr_workflow_name :: string
  wr_workflow_version :: string
  wr_state :: WorkflowRunState
  wr_version :: int
  wr_created_at :: time
  wr_updated_at :: time
  wr_deadline_at :: time
  wr_created_by :: string
  wr_current_step_id :: "uuid option"
  wr_reference_data_snapshot_id :: "uuid option"
  wr_last_error_code :: "string option"
  wr_last_error_detail :: "string option"

definition run_transition_to :: "WorkflowRun \<Rightarrow> WorkflowRunState \<Rightarrow> exn + WorkflowRun" where
  "run_transition_to r target =
     (case validate_run_transition (wr_state r) target of
        Inl e \<Rightarrow> Inl e
      | Inr _ \<Rightarrow> Inr (r\<lparr>wr_state := target, wr_version := wr_version r + 1\<rparr>))"

definition run_is_terminal :: "WorkflowRun \<Rightarrow> bool" where
  "run_is_terminal r \<longleftrightarrow> wr_state r \<in> set run_terminal_states"

text \<open>A sequence of \<open>transition_to\<close> calls stops at the first exception.\<close>

fun run_transitions :: "WorkflowRun \<Rightarrow> WorkflowRunState list \<Rightarrow> exn + WorkflowRun" where
  "run_transitions r [] = Inr r"
| "run_transitions r (t # ts) =
     (case run_transition_to r t of Inl e \<Rightarrow> Inl e | Inr r' \<Rightarrow> run_transitions r' ts)"

section \<open>Escalation cases\<close>

datatype EscalationState = esc_open | claimed | resolved | rejected | expired

fun esc_state_value :: "EscalationState \<Rightarrow> string" where
  "esc_state_value esc_open = ''open''"
| "esc_state_value claimed = ''claimed''"
| "esc_state_value resolved = ''resolved''"
| "esc_state_value rejected = ''rejected''"
| "esc_state_value expired = ''expired''"

definition esc_terminal_states :: "EscalationState list" where
  "esc_terminal_states = [resolved, rejected, expired]"

fun esc_valid_transitions :: "EscalationState \<Rightarrow> EscalationState list" where
  "esc_valid_transitions esc_open = [claimed, expired]"
| "esc_valid_transitions claimed = [resolved, rejected, expired]"
| "esc_valid_transitions resolved = []"
| "esc_valid_transitions rejected = []"
| "esc_valid_transitions expired = []"

definition validate_esc_transition :: "EscalationState \<Rightarrow> EscalationState \<Rightarrow> exn + unit" where
  "validate_esc_transition current target =
     (if target \<in> set (esc_valid_transitions current) then Inr ()
      else Inl (transition_error ''EscalationCase'' (esc_state_value current) (esc_state_value target)
                 (map esc_state_value (esc_valid_transitions current))))"

record EscalationCase =
  ec_escalation_id :: uuid
  ec_workflow_run_id :: uuid
  ec_step_id :: uuid
  ec_state :: EscalationState
  ec_reason_code :: string
  ec_expires_at :: time
  ec_created_at :: time
  ec_reason_detail :: "string option"
  ec_claimed_by :: "string option"
  ec_claimed_at :: "time option"
  ec_resolved_by :: "string option"
  ec_resolved_at :: "time option"
  ec_resolution_payload :: "dict option"

definition esc_transition_to :: "EscalationCase \<Rightarrow> EscalationState \<Rightarrow> exn + EscalationCase" where
  "esc_transition_to c target =
     (case validate_esc_transition (ec_state c) target of
        Inl e \<Rightarrow> Inl e
      | Inr _ \<Rightarrow> Inr (c\<lparr>ec_state := target\<rparr>))"

definition esc_is_terminal :: "EscalationCase \<Rightarrow> bool" where
  "esc_is_terminal c \<longleftrightarrow> ec_state c \<in> set esc_terminal_states"

fun esc_transitions :: "EscalationCase \<Rightarrow> EscalationState list \<Rightarrow> exn + EscalationCase" where
  "esc_transitions c [] = Inr c"
| "esc_transitions c (t # ts) =
     (case esc_transition_to c t of Inl e \<Rightarrow> Inl e | Inr c' \<Rightarrow> esc_transitions c' ts)"

section \<open>Steps, attempts and documents\<close>

datatype StepState = queued | in_progress | succeeded | failed_retryable | failed_terminal | skipped

fun step_state_value :: "StepState \<Rightarrow> string" where
  "step_state_value queued = ''queued''"
| "step_state_value in_progress = ''in_progress''"
| "step_state_value succeeded = ''succeeded''"
| "step_state_value failed_retryable = ''failed_retryable''"
| "step_state_value failed_terminal = ''failed_terminal''"
| "step_state_value skipped = ''skipped''"

datatype StepAttemptOrigin = system | human | reaper | replay

text \<open>The checks of the dataclasses' \<open>__post_init__\<close>.\<close>

definition step_post_init :: "int \<Rightarrow> int \<Rightarrow> exn + unit" where
  "step_post_init step_index max_attempts =
     (if step_index < 0
      then Inl (ValueError (''step_index must be >= 0, got '' @ int_str step_index))
      else if max_attempts < 1 \<or> max_attempts > 10
      then Inl (ValueError (''max_attempts must be between 1 and 10, got '' @ int_str max_attempts))
      else Inr ())"

definition step_attempt_post_init :: "int \<Rightarrow> exn + unit" where
  "step_attempt_post_init n =
     (if n < 1 then Inl (ValueError (''step_attempt_number must be >= 1, got '' @ int_str n))
      else Inr ())"

definition document_post_init ::
  "bytes \<Rightarrow> int \<Rightarrow> string \<Rightarrow> string \<Rightarrow> string \<Rightarrow> exn + unit" where
  "document_post_init content_hash size_bytes content_type payload_ref ingested_by =
     (if length content_hash \<noteq> 32
      then Inl (ValueError (''content_hash must be exactly 32 bytes (SHA-256), got ''
                            @ int_str (int (length content_hash))))
      else if size_bytes < 0
      then Inl (ValueError (''size_bytes must be non-negative, got '' @ int_str size_bytes))
      else if content_type = [] then Inl (ValueError ''content_type must not be empty'')
      else if payload_ref = [] then Inl (ValueError ''payload_ref must not be empty'')
      else if ingested_by = [] then Inl (ValueError ''ingested_by must not be empty'')
      else Inr ())"

section \<open>Actors\<close>

definition canonical_kinds :: "string list" where
  "canonical_kinds = [''worker'', ''api'', ''user'', ''api_key'', ''anonymous'']"

record Actor =
  act_kind :: string
  act_subkind :: string
  act_id :: "string option"

text \<open>
  The message about an unknown kind also prints the set of kinds, in no fixed order; that part is
  left out.
\<close>

definition mk_actor :: "string \<Rightarrow> string \<Rightarrow> string option \<Rightarrow> exn + Actor" where
  "mk_actor kind subkind i =
     (if kind \<notin> set canonical_kinds then Inl (ValueError (''Invalid actor kind: '' @ kind))
      else if subkind = [] \<and> kind \<noteq> ''anonymous''
      then Inl (ValueError (''Actor kind '' @ kind @ '' requires a subkind''))
      else Inr \<lparr>act_kind = kind, act_subkind = subkind, act_id = i\<rparr>)"

definition actor_str :: "Actor \<Rightarrow> string" where
  "actor_str a =
     (if act_kind a = ''anonymous'' then ''anonymous''
      else case act_id a of
          Some i \<Rightarrow> act_kind a @ '':'' @ act_subkind a @ '':'' @ i
        | None \<Rightarrow> act_kind a @ '':'' @ act_subkind a)"

definition actor_parse :: "string \<Rightarrow> exn + Actor" where
  "actor_parse raw =
     (if raw = ''anonymous'' then mk_actor ''anonymous'' [] None
      else case split_max (CHR '':'') 2 raw of
          [k, s] \<Rightarrow> mk_actor k s None
        | [k, s, i] \<Rightarrow> mk_actor k s (Some i)
        | _ \<Rightarrow> Inl (ValueError (''Invalid actor string: '' @ raw)))"

section \<open>Audit events\<close>

text \<open>\<open>canonical_json\<close>; the first argument is Python's \<open>repr\<close> of a float.\<close>

definition canonical_json :: "(rat \<Rightarrow> string) \<Rightarrow> dict \<Rightarrow> string" where
  "canonical_json fr payload = json_dumps True fr (JObj payload)"

definition event_preimage ::
  "(rat \<Rightarrow> string) \<Rightarrow> uuid \<Rightarrow> uuid \<Rightarrow> string \<Rightarrow> string \<Rightarrow> dict \<Rightarrow> time \<Rightarrow> bytes option \<Rightarrow> bytes" where
  "event_preimage fr audit_event_id workflow_run_id actor event_type payload occurred_at prev =
     uuid_bytes audit_event_id @ uuid_bytes workflow_run_id @ utf8 actor @ utf8 event_type
     @ utf8 (canonical_json fr payload) @ utf8 (isoformat occurred_at)
     @ (case prev of None \<Rightarrow> [] | Some h \<Rightarrow> h)"

definition compute_event_hash ::
  "(rat \<Rightarrow> string) \<Rightarrow> uuid \<Rightarrow> uuid \<Rightarrow> string \<Rightarrow> string \<Rightarrow> dict \<Rightarrow> time \<Rightarrow> bytes option \<Rightarrow> bytes" where
  "compute_event_hash fr audit_event_id workflow_run_id actor event_type payload occurred_at prev =
     sha256 (event_preimage fr audit_event_id workflow_run_id actor event_type payload occurred_at prev)"

text \<open>The checks of \<open>AuditEvent.__post_init__\<close>.\<close>

definition audit_event_post_init :: "int \<Rightarrow> bytes \<Rightarrow> bytes option \<Rightarrow> exn + unit" where
  "audit_event_post_init seq_in_run event_hash prev_event_hash =
     (if seq_in_run < 1
      then Inl (ValueError (''seq_in_run must be >= 1, got '' @ int_str seq_in_run))
      else if length event_hash \<noteq> 32
      then Inl (ValueError (''event_hash must be exactly 32 bytes, got ''
                            @ int_str (int (length event_hash))))
      else case prev_event_hash of
          None \<Rightarrow> Inr ()
        | Some h \<Rightarrow> if length h \<noteq> 32
            then Inl (ValueError (''prev_event_hash must be exactly 32 bytes or None, got ''
                                  @ int_str (int (length h))))
            else Inr ())"

section \<open>Lifecycles\<close>

text \<open>
  The contract the two state machines share: \<open>step\<close> moves a value to a target state exactly
  when the transition table allows it, \<open>many\<close> runs a sequence of moves, and the terminal
  states are exactly those with no way out.
\<close>

locale lifecycle =
  fixes allowed :: "'s \<Rightarrow> 's list"
    and terminal :: "'s list"
    and st :: "'r \<Rightarrow> 's"
    and step :: "'r \<Rightarrow> 's \<Rightarrow> exn + 'r"
    and many :: "'r \<Rightarrow> 's list \<Rightarrow> exn + 'r"
  assumes step_ok: "t \<in> set (allowed (st r)) \<Longrightarrow> \<exists>r'. step r t = Inr r' \<and> st r' = t"
    and step_err: "t \<notin> set (allowed (st r)) \<Longrightarrow> \<exists>e. step r t = Inl (ValueError e)"
    and many_Nil: "many r [] = Inr r"
    and many_Cons: "many r (t # ts) = (case step r t of Inl e \<Rightarrow> Inl e | Inr r' \<Rightarrow> many r' ts)"
    and terminal_iff: "s \<in> set terminal \<longleftrightarrow> allowed s = []"
begin

lemma many_iff_path:
  "(\<exists>r'. many r ts = Inr r') \<longleftrightarrow> successively (\<lambda>a b. b \<in> set (allowed a)) (st r # ts)"
proof (induction ts arbitrary: r)
  case Nil
  show ?case by (simp add: many_Nil)
next
  case (Cons t ts)
  show ?case
  proof (cases "t \<in> set (allowed (st r))")
    case True
    then obtain r1 where r1: "step r t = Inr r1" "st r1 = t" using step_ok by blast
    with Cons.IH [of r1] True show ?thesis by (simp add: many_Cons)
  next
    case False
    then obtain e where "step r t = Inl (ValueError e)" using step_err by blast
    with False show ?thesis by (simp add: many_Cons)
  qed
qed

lemma many_last: "many r ts = Inr r' \<Longrightarrow> st r' = last (st r # ts)"
proof (induction ts arbitrary: r)
  case Nil
  then show ?case by (simp add: many_Nil)
next
  case (Cons t ts)
  then obtain r1 where r1: "step r t = Inr r1" "many r1 ts = Inr r'"
    by (auto simp: many_Cons split: sum.splits)
  then have "t \<in> set (allowed (st r))" using step_err [of t r] by fastforce
  with r1 have "st r1 = t" using step_ok [of t r] by auto
  with Cons.IH [OF r1(2)] show ?case by simp
qed

lemma terminal_absorbing: "st r \<in> set terminal \<Longrightarrow> (\<exists>r'. many r ts = Inr r') \<longleftrightarrow> ts = []"
  unfolding many_iff_path by (cases ts) (auto simp: terminal_iff)

end

interpretation wf_life: lifecycle run_valid_transitions run_terminal_states wr_state
    run_transition_to run_transitions
proof unfold_locales
  show "s \<in> set run_terminal_states \<longleftrightarrow> run_valid_transitions s = []" for s
    by (cases s) (auto simp: run_terminal_states_def)
qed (auto simp: run_transition_to_def validate_run_transition_def transition_error_def)

interpretation esc_life: lifecycle esc_valid_transitions esc_terminal_states ec_state
    esc_transition_to esc_transitions
proof unfold_locales
  show "s \<in> set esc_terminal_states \<longleftrightarrow> esc_valid_transitions s = []" for s
    by (cases s) (auto simp: esc_terminal_states_def)
qed (auto simp: esc_transition_to_def validate_esc_transition_def transition_error_def)

lemma run_transitions_version:
  "run_transitions r ts = Inr r' \<Longrightarrow> wr_version r' = wr_version r + int (length ts)"
  by (induction ts arbitrary: r)
    (auto simp: run_transition_to_def validate_run_transition_def split: sum.splits if_splits)

section \<open>Actors\<close>

lemma split_max_append: "c \<notin> set s \<Longrightarrow> split_max c (Suc k) (s @ c # t) = s # split_max c k t"
proof -
  assume "c \<notin> set s"
  then have "takeWhile (\<lambda>x. x \<noteq> c) (s @ c # t) = s \<and> dropWhile (\<lambda>x. x \<noteq> c) (s @ c # t) = c # t"
    by (induction s) auto
  then show ?thesis by simp
qed

lemma split_max_none: "c \<notin> set s \<Longrightarrow> split_max c k s = [s]"
  by (cases k) auto

lemma py_join_split_max: "py_join [c] (split_max c k s) = s"
proof (induction c k s rule: split_max.induct)
  case (2 c k s)
  show ?case
  proof (cases "c \<in> set s")
    case True
    then obtain a rest where s: "s = a @ c # rest" "c \<notin> set a"
      by (auto dest: split_list_first)
    have eq: "split_max c (Suc k) s = a # split_max c k rest"
      using s split_max_append by simp
    have "dropWhile (\<lambda>x. x \<noteq> c) s = c # rest"
      using s(2) unfolding s(1) by (induction a) auto
    with "2.IH" True have "py_join [c] (split_max c k rest) = rest" by simp
    moreover have "split_max c k rest \<noteq> []" by (cases k) auto
    ultimately have "py_join [c] (a # split_max c k rest) = s"
      using s by (cases "split_max c k rest") auto
    with eq show ?thesis by simp
  qed simp
qed simp

lemma kind_no_colon: "k \<in> set canonical_kinds \<Longrightarrow> CHR '':'' \<notin> set k"
  by (auto simp: canonical_kinds_def)

definition actor_wf :: "Actor \<Rightarrow> bool" where
  "actor_wf a \<longleftrightarrow> mk_actor (act_kind a) (act_subkind a) (act_id a) = Inr a"

lemma actor_parse_str_lemma:
  assumes wf: "actor_wf a" and k: "act_kind a \<noteq> ''anonymous''"
    and s: "CHR '':'' \<notin> set (act_subkind a)"
  shows "actor_parse (actor_str a) = Inr a"
proof -
  have kc: "CHR '':'' \<notin> set (act_kind a)"
    using wf by (auto simp: actor_wf_def mk_actor_def kind_no_colon split: if_splits)
  have colon: "CHR '':'' \<in> set (actor_str a)" using k by (auto simp: actor_str_def split: option.splits)
  then have na: "actor_str a \<noteq> ''anonymous''" by auto
  show ?thesis
  proof (cases "act_id a")
    case None
    then have "split_max (CHR '':'') 2 (actor_str a) = [act_kind a, act_subkind a]"
      using k kc s by (simp add: actor_str_def numeral_2_eq_2 split_max_append split_max_none
          del: split_max.simps)
    with na wf None show ?thesis by (simp add: actor_parse_def actor_wf_def)
  next
    case (Some i)
    then have "split_max (CHR '':'') 2 (actor_str a) = [act_kind a, act_subkind a, i]"
      using k kc s by (simp add: actor_str_def numeral_2_eq_2 split_max_append
          del: split_max.simps(2))
    with na wf Some show ?thesis by (simp add: actor_parse_def actor_wf_def)
  qed
qed

lemma actor_str_parse_lemma:
  assumes p: "actor_parse s = Inr a" and k: "act_kind a \<noteq> ''anonymous''"
  shows "actor_str a = s \<and> actor_wf a"
proof -
  from k p have ns: "s \<noteq> ''anonymous''"
    by (auto simp: actor_parse_def mk_actor_def split: if_splits)
  let ?ps = "split_max (CHR '':'') 2 s"
  have j: "py_join '':'' ?ps = s" by (rule py_join_split_max)
  from p ns consider k' s' where "?ps = [k', s']" "mk_actor k' s' None = Inr a"
    | k' s' i where "?ps = [k', s', i]" "mk_actor k' s' (Some i) = Inr a"
    unfolding actor_parse_def by (auto split: list.splits)
  then show ?thesis
    using j k by cases (auto simp: mk_actor_def actor_str_def actor_wf_def split: if_splits)
qed

end
