(* ===== verification/Storage.thy ===== *)
theory Storage
  imports Domain "HOL-Library.Product_Lexorder"
begin

text \<open>
  \<open>src/insuranceops/storage\<close>: the tables of \<open>models.py\<close> as lists of rows in insertion order,
  with the constraints the models declare, and the repositories that query them. A query is
  a filter over the table followed by the stable sort of its \<open>ORDER BY\<close> and the prefix of its
  \<open>LIMIT\<close>; an insert is refused with \<open>IntegrityError\<close> and the constraint's name when it
  breaks one; an \<open>UPDATE\<close> rewrites the selected rows. Text columns with an enumeration
  \<open>CHECK\<close> hold the datatype of that enumeration.

  \<open>world\<close> is what a process sees: the database and the sources of what the code cannot
  compute, each as a function of the number of calls made so far (\<open>uuid4\<close>, \<open>os.urandom\<close>,
  the clock, \<open>random\<close>), and the list of metric updates made.
\<close>

section \<open>Rows\<close>

record DocumentModel =
  doc_document_id :: uuid
  doc_content_hash :: bytes
  doc_content_type :: string
  doc_size_bytes :: int
  doc_payload_ref :: string
  doc_ingested_at :: time
  doc_ingested_by :: string
  doc_idempotency_key :: "string option"
  doc_api_key_id :: "uuid option"
  doc_metadata :: dict

record WorkflowRunModel =
  run_workflow_run_id :: uuid
  run_workflow_name :: string
  run_workflow_version :: string
  run_state :: WorkflowRunState
  run_version :: int
  run_current_step_id :: "uuid option"
  run_created_at :: time
  run_updated_at :: time
  run_deadline_at :: time
  run_reference_data_snapshot_id :: "uuid option"
  run_created_by :: string
  run_last_error_code :: "string option"
  run_last_error_detail :: "string option"

record WorkflowRunDocumentModel =
  rd_workflow_run_id :: uuid
  rd_document_id :: uuid
  rd_attached_at :: time

record StepModel =
  stp_step_id :: uuid
  stp_workflow_run_id :: uuid
  stp_step_name :: string
  stp_step_index :: int
  stp_state :: StepState
  stp_max_attempts :: int
  stp_escalate_on_failure :: bool
  stp_retry_policy :: dict
  stp_created_at :: time
  stp_started_at :: "time option"
  stp_ended_at :: "time option"

record StepAttemptModel =
  att_step_attempt_id :: uuid
  att_step_id :: uuid
  att_step_attempt_number :: int
  att_state :: StepState
  att_origin :: StepAttemptOrigin
  att_extractor_name :: "string option"
  att_extractor_version :: "string option"
  att_validator_name :: "string option"
  att_validator_version :: "string option"
  att_input_ref :: "string option"
  att_output_ref :: "json option"
  att_error_code :: "string option"
  att_error_detail :: "string option"
  att_started_at :: "time option"
  att_ended_at :: "time option"
  att_scheduled_for :: "time option"
  att_created_at :: time

record TasksOutboxModel =
  obx_outbox_id :: int
  obx_workflow_run_id :: uuid
  obx_step_id :: uuid
  obx_step_attempt_id :: uuid
  obx_payload :: dict
  obx_scheduled_for :: time
  obx_enqueued_at :: "time option"
  obx_attempts :: int
  obx_last_error :: "string option"
  obx_created_at :: time

record EscalationCaseModel =
  esc_escalation_id :: uuid
  esc_workflow_run_id :: uuid
  esc_step_id :: uuid
  esc_state :: EscalationState
  esc_reason_code :: string
  esc_reason_detail :: "string option"
  esc_claimed_by :: "string option"
  esc_claimed_at :: "time option"
  esc_resolved_by :: "string option"
  esc_resolved_at :: "time option"
  esc_resolution_payload :: "dict option"
  esc_expires_at :: time
  esc_created_at :: time

record AuditEventModel =
  evt_audit_event_id :: uuid
  evt_workflow_run_id :: uuid
  evt_step_id :: "uuid option"
  evt_step_attempt_id :: "uuid option"
  evt_event_type :: string
  evt_actor :: string
  evt_payload :: dict
  evt_occurred_at :: time
  evt_seq_in_run :: int
  evt_prev_event_hash :: "bytes option"
  evt_event_hash :: bytes

record ApiKeyModel =
  key_api_key_id :: uuid
  key_key_hash :: bytes
  key_label :: string
  key_role :: string
  key_created_at :: time
  key_created_by :: string
  key_expires_at :: "time option"
  key_revoked_at :: "time option"
  key_last_used_at :: "time option"

record db =
  documents :: "DocumentModel list"
  workflow_runs :: "WorkflowRunModel list"
  workflow_run_documents :: "WorkflowRunDocumentModel list"
  steps :: "StepModel list"
  step_attempts :: "StepAttemptModel list"
  tasks_outbox :: "TasksOutboxModel list"
  outbox_seq :: int
  escalation_cases :: "EscalationCaseModel list"
  audit_events :: "AuditEventModel list"
  api_keys :: "ApiKeyModel list"

record world =
  w_db :: db
  w_uuid4 :: "nat \<Rightarrow> uuid"
  w_uuid4_n :: nat
  w_urandom :: "nat \<Rightarrow> bytes"
  w_urandom_n :: nat
  w_now :: "nat \<Rightarrow> time"
  w_now_n :: nat
  w_random :: "nat \<Rightarrow> rat"
  w_random_n :: nat
  w_perf :: "nat \<Rightarrow> rat"
  w_perf_n :: nat
  w_float_repr :: "rat \<Rightarrow> string"
  w_metrics :: "(string \<times> string list) list"

type_synonym ('z, 'a) wexec = "('z world_scheme, 'a) exec"

section \<open>What the process draws from outside\<close>

definition uuid4 :: "('z, uuid) wexec" where
  "uuid4 = (\<lambda>w. (Inr (w_uuid4 w (w_uuid4_n w)), w\<lparr>w_uuid4_n := Suc (w_uuid4_n w)\<rparr>))"

definition urandom10 :: "('z, bytes) wexec" where
  "urandom10 = (\<lambda>w. (Inr (w_urandom w (w_urandom_n w)), w\<lparr>w_urandom_n := Suc (w_urandom_n w)\<rparr>))"

definition now_utc :: "('z, time) wexec" where
  "now_utc = (\<lambda>w. (Inr (w_now w (w_now_n w)), w\<lparr>w_now_n := Suc (w_now_n w)\<rparr>))"

text \<open>\<open>time.perf_counter()\<close>, in seconds: a clock of its own.\<close>

definition perf_counter :: "('z, rat) wexec" where
  "perf_counter = (\<lambda>w. (Inr (w_perf w (w_perf_n w)), w\<lparr>w_perf_n := Suc (w_perf_n w)\<rparr>))"

text \<open>\<open>random.uniform(a, b)\<close>: \<open>a + (b - a) * random()\<close>.\<close>

definition uniform :: "rat \<Rightarrow> rat \<Rightarrow> ('z, rat) wexec" where
  "uniform a b = (\<lambda>w. (Inr (a + (b - a) * w_random w (w_random_n w)),
                        w\<lparr>w_random_n := Suc (w_random_n w)\<rparr>))"

definition metric :: "string \<Rightarrow> string list \<Rightarrow> ('z, unit) wexec" where
  "metric name labels = modifyE (\<lambda>w. w\<lparr>w_metrics := w_metrics w @ [(name, labels)]\<rparr>)"

definition read_db :: "(db \<Rightarrow> 'a) \<Rightarrow> ('z, 'a) wexec" where
  "read_db f = readE (\<lambda>w. f (w_db w))"

definition write_db :: "(db \<Rightarrow> db) \<Rightarrow> ('z, unit) wexec" where
  "write_db f = modifyE (\<lambda>w. w\<lparr>w_db := f (w_db w)\<rparr>)"

text \<open>
  \<open>async with session_factory() as session: body; commit\<close>: the body's changes reach the
  database together, and an exception that leaves the block rolls them back.
\<close>

definition session_scope :: "('z, 'a) wexec \<Rightarrow> ('z, 'a) wexec" where
  "session_scope m =
     (\<lambda>w. case m w of (Inl e, w') \<Rightarrow> (Inl e, w'\<lparr>w_db := w_db w\<rparr>) | (Inr a, w') \<Rightarrow> (Inr a, w'))"

section \<open>Queries and statements\<close>

text \<open>\<open>result.scalar_one_or_none()\<close> and \<open>result.scalar_one()\<close>\<close>

definition scalar_one_or_none :: "'a list \<Rightarrow> ('w, 'a option) exec" where
  "scalar_one_or_none rows =
     (case rows of [] \<Rightarrow> returnE None | [x] \<Rightarrow> returnE (Some x) | _ \<Rightarrow> raiseE MultipleResultsFound)"

definition scalar_one :: "'a list \<Rightarrow> ('w, 'a) exec" where
  "scalar_one rows =
     (case rows of [] \<Rightarrow> raiseE NoResultFound | [x] \<Rightarrow> returnE x | _ \<Rightarrow> raiseE MultipleResultsFound)"

text \<open>Constraints are checked in the order given; the first broken one is reported.\<close>

fun check_constraints :: "(bool \<times> string) list \<Rightarrow> (db \<Rightarrow> db) \<Rightarrow> ('z, unit) wexec" where
  "check_constraints [] f = write_db f"
| "check_constraints ((ok, name) # cs) f =
     (if ok then check_constraints cs f else raiseE (IntegrityError name))"

text \<open>The unique keys of the schema that span two columns, and a nullable foreign key.\<close>

definition run_document_key :: "WorkflowRunDocumentModel \<Rightarrow> uuid \<times> uuid" where
  "run_document_key r = (rd_workflow_run_id r, rd_document_id r)"

definition step_index_key :: "StepModel \<Rightarrow> uuid \<times> int" where
  "step_index_key s = (stp_workflow_run_id s, stp_step_index s)"

definition step_name_key :: "StepModel \<Rightarrow> uuid \<times> string" where
  "step_name_key s = (stp_workflow_run_id s, stp_step_name s)"

definition attempt_key :: "StepAttemptModel \<Rightarrow> uuid \<times> int" where
  "attempt_key a = (att_step_id a, att_step_attempt_number a)"

definition escalation_key :: "EscalationCaseModel \<Rightarrow> uuid \<times> uuid" where
  "escalation_key c = (esc_workflow_run_id c, esc_step_id c)"

definition event_key :: "AuditEventModel \<Rightarrow> uuid \<times> int" where
  "event_key e = (evt_workflow_run_id e, evt_seq_in_run e)"

definition fk_opt :: "uuid option \<Rightarrow> uuid set \<Rightarrow> bool" where
  "fk_opt v ids \<longleftrightarrow> (case v of None \<Rightarrow> True | Some i \<Rightarrow> i \<in> ids)"

text \<open>\<open>content_type ~ '^[a-z0-9.+-]+/[a-z0-9.+-]+$'\<close>\<close>

definition mime_char :: "char \<Rightarrow> bool" where
  "mime_char c \<longleftrightarrow> (let n = of_char c :: nat in (97 \<le> n \<and> n \<le> 122) \<or> (48 \<le> n \<and> n \<le> 57))
     \<or> c \<in> set ''.+-''"

definition content_type_ok :: "string \<Rightarrow> bool" where
  "content_type_ok s =
     (let a = takeWhile (\<lambda>c. c \<noteq> CHR ''/'') s; r = dropWhile (\<lambda>c. c \<noteq> CHR ''/'') s
      in a \<noteq> [] \<and> list_all mime_char a \<and> r \<noteq> [] \<and> tl r \<noteq> [] \<and> list_all mime_char (tl r))"

text \<open>
  An insert checks \<open>CHECK\<close> constraints first, then the unique ones, then the foreign keys.
\<close>

definition insert_document :: "DocumentModel \<Rightarrow> ('z, unit) wexec" where
  "insert_document m = bindE (read_db id) (\<lambda>d.
     check_constraints
       [(length (doc_content_hash m) = 32, ''ck_documents_content_hash_len''),
        (content_type_ok (doc_content_type m), ''ck_documents_content_type_format''),
        (doc_size_bytes m \<ge> 0, ''ck_documents_size_bytes_nonneg''),
        (doc_document_id m \<notin> doc_document_id ` set (documents d), ''documents_pkey''),
        (fk_opt (doc_api_key_id m) (key_api_key_id ` set (api_keys d)), ''documents_api_key_id_fkey'')]
       (\<lambda>d. d\<lparr>documents := documents d @ [m]\<rparr>))"

definition insert_run :: "WorkflowRunModel \<Rightarrow> ('z, unit) wexec" where
  "insert_run m = bindE (read_db id) (\<lambda>d.
     check_constraints
       [(run_workflow_run_id m \<notin> run_workflow_run_id ` set (workflow_runs d), ''workflow_runs_pkey''),
        (fk_opt (run_current_step_id m) (stp_step_id ` set (steps d)), ''fk_workflow_runs_current_step_id'')]
       (\<lambda>d. d\<lparr>workflow_runs := workflow_runs d @ [m]\<rparr>))"

definition insert_run_document :: "WorkflowRunDocumentModel \<Rightarrow> ('z, unit) wexec" where
  "insert_run_document m = bindE (read_db id) (\<lambda>d.
     check_constraints
       [(run_document_key m \<notin> run_document_key ` set (workflow_run_documents d),
         ''workflow_run_documents_pkey''),
        (rd_workflow_run_id m \<in> run_workflow_run_id ` set (workflow_runs d),
         ''workflow_run_documents_workflow_run_id_fkey''),
        (rd_document_id m \<in> doc_document_id ` set (documents d),
         ''workflow_run_documents_document_id_fkey'')]
       (\<lambda>d. d\<lparr>workflow_run_documents := workflow_run_documents d @ [m]\<rparr>))"

definition insert_step :: "StepModel \<Rightarrow> ('z, unit) wexec" where
  "insert_step m = bindE (read_db id) (\<lambda>d.
     check_constraints
       [(stp_step_index m \<ge> 0, ''ck_steps_step_index_nonneg''),
        (stp_max_attempts m \<ge> 1 \<and> stp_max_attempts m \<le> 10, ''ck_steps_max_attempts_range''),
        (stp_step_id m \<notin> stp_step_id ` set (steps d), ''steps_pkey''),
        (step_index_key m \<notin> step_index_key ` set (steps d), ''uq_steps_run_index''),
        (step_name_key m \<notin> step_name_key ` set (steps d), ''uq_steps_run_name''),
        (stp_workflow_run_id m \<in> run_workflow_run_id ` set (workflow_runs d),
         ''steps_workflow_run_id_fkey'')]
       (\<lambda>d. d\<lparr>steps := steps d @ [m]\<rparr>))"

definition insert_attempt :: "StepAttemptModel \<Rightarrow> ('z, unit) wexec" where
  "insert_attempt m = bindE (read_db id) (\<lambda>d.
     check_constraints
       [(att_step_attempt_number m \<ge> 1, ''ck_step_attempts_number_positive''),
        (att_step_attempt_id m \<notin> att_step_attempt_id ` set (step_attempts d), ''step_attempts_pkey''),
        (attempt_key m \<notin> attempt_key ` set (step_attempts d), ''uq_step_attempts_step_number''),
        (att_step_id m \<in> stp_step_id ` set (steps d), ''step_attempts_step_id_fkey'')]
       (\<lambda>d. d\<lparr>step_attempts := step_attempts d @ [m]\<rparr>))"

text \<open>\<open>outbox_id\<close> comes from the column's sequence: the value in the argument is replaced.\<close>

definition insert_outbox :: "TasksOutboxModel \<Rightarrow> ('z, unit) wexec" where
  "insert_outbox m = bindE (read_db id) (\<lambda>d.
     check_constraints
       [(obx_attempts m \<ge> 0 \<and> obx_attempts m \<le> 10, ''ck_tasks_outbox_attempts_range''),
        (obx_workflow_run_id m \<in> run_workflow_run_id ` set (workflow_runs d),
         ''tasks_outbox_workflow_run_id_fkey''),
        (obx_step_id m \<in> stp_step_id ` set (steps d), ''tasks_outbox_step_id_fkey''),
        (obx_step_attempt_id m \<in> att_step_attempt_id ` set (step_attempts d),
         ''tasks_outbox_step_attempt_id_fkey'')]
       (\<lambda>d. d\<lparr>tasks_outbox := tasks_outbox d @ [m\<lparr>obx_outbox_id := outbox_seq d\<rparr>],
              outbox_seq := outbox_seq d + 1\<rparr>))"

definition insert_escalation :: "EscalationCaseModel \<Rightarrow> ('z, unit) wexec" where
  "insert_escalation m = bindE (read_db id) (\<lambda>d.
     check_constraints
       [(esc_escalation_id m \<notin> esc_escalation_id ` set (escalation_cases d), ''escalation_cases_pkey''),
        (escalation_key m \<notin> escalation_key ` set (escalation_cases d),
         ''uq_escalation_cases_run_step''),
        (esc_workflow_run_id m \<in> run_workflow_run_id ` set (workflow_runs d),
         ''escalation_cases_workflow_run_id_fkey''),
        (esc_step_id m \<in> stp_step_id ` set (steps d), ''escalation_cases_step_id_fkey'')]
       (\<lambda>d. d\<lparr>escalation_cases := escalation_cases d @ [m]\<rparr>))"

definition insert_audit_event :: "AuditEventModel \<Rightarrow> ('z, unit) wexec" where
  "insert_audit_event m = bindE (read_db id) (\<lambda>d.
     check_constraints
       [(case evt_prev_event_hash m of None \<Rightarrow> True | Some h \<Rightarrow> length h = 32,
         ''ck_audit_events_prev_hash_len''),
        (length (evt_event_hash m) = 32, ''ck_audit_events_hash_len''),
        (evt_audit_event_id m \<notin> evt_audit_event_id ` set (audit_events d), ''audit_events_pkey''),
        (event_key m \<notin> event_key ` set (audit_events d), ''uq_audit_events_run_seq''),
        (evt_workflow_run_id m \<in> run_workflow_run_id ` set (workflow_runs d),
         ''audit_events_workflow_run_id_fkey''),
        (fk_opt (evt_step_id m) (stp_step_id ` set (steps d)), ''audit_events_step_id_fkey''),
        (fk_opt (evt_step_attempt_id m) (att_step_attempt_id ` set (step_attempts d)),
         ''audit_events_step_attempt_id_fkey'')]
       (\<lambda>d. d\<lparr>audit_events := audit_events d @ [m]\<rparr>))"

text \<open>
  An attribute assignment on a loaded row followed by \<open>flush\<close> is an \<open>UPDATE\<close> of the row with
  that primary key.
\<close>

definition update_run :: "uuid \<Rightarrow> (WorkflowRunModel \<Rightarrow> WorkflowRunModel) \<Rightarrow> ('z, unit) wexec" where
  "update_run i f = bindE (read_db id) (\<lambda>d.
     let rows = map_where (\<lambda>r. run_workflow_run_id r = i) f (workflow_runs d) in
     check_constraints
       [(list_all (\<lambda>r. fk_opt (run_current_step_id r) (stp_step_id ` set (steps d))) rows,
         ''fk_workflow_runs_current_step_id'')]
       (\<lambda>d. d\<lparr>workflow_runs := rows\<rparr>))"

definition update_step :: "uuid \<Rightarrow> (StepModel \<Rightarrow> StepModel) \<Rightarrow> ('z, unit) wexec" where
  "update_step i f = write_db (\<lambda>d.
     d\<lparr>steps := map_where (\<lambda>s. stp_step_id s = i) f (steps d)\<rparr>)"

definition update_attempt :: "uuid \<Rightarrow> (StepAttemptModel \<Rightarrow> StepAttemptModel) \<Rightarrow> ('z, unit) wexec" where
  "update_attempt i f = write_db (\<lambda>d.
     d\<lparr>step_attempts := map_where (\<lambda>a. att_step_attempt_id a = i) f (step_attempts d)\<rparr>)"

definition update_escalation :: "uuid \<Rightarrow> (EscalationCaseModel \<Rightarrow> EscalationCaseModel) \<Rightarrow> ('z, unit) wexec" where
  "update_escalation i f = write_db (\<lambda>d.
     d\<lparr>escalation_cases := map_where (\<lambda>c. esc_escalation_id c = i) f (escalation_cases d)\<rparr>)"

end
