(* ===== verification/Repositories.thy ===== *)
theory Repositories
  imports Storage
begin

text \<open>
  \<open>src/insuranceops/storage/repositories\<close>: one definition per repository method, and the
  well-formedness of the database (every declared constraint holds), which every statement
  keeps.
\<close>

section \<open>Audit events\<close>

definition audit_append :: "AuditEventModel \<Rightarrow> ('z, AuditEventModel) wexec" where
  "audit_append m = bindE (insert_audit_event m) (\<lambda>_. returnE m)"

definition audit_get_by_id :: "uuid \<Rightarrow> ('z, AuditEventModel option) wexec" where
  "audit_get_by_id i = bindE
     (read_db (\<lambda>d. filter (\<lambda>e. evt_audit_event_id e = i) (audit_events d))) scalar_one_or_none"

definition events_of_run :: "uuid \<Rightarrow> db \<Rightarrow> AuditEventModel list" where
  "events_of_run i d = filter (\<lambda>e. evt_workflow_run_id e = i) (audit_events d)"

definition audit_list_by_workflow_run :: "uuid \<Rightarrow> nat \<Rightarrow> ('z, AuditEventModel list) wexec" where
  "audit_list_by_workflow_run i limit = read_db (\<lambda>d.
     take limit (sort_key (\<lambda>e. (evt_occurred_at e, evt_seq_in_run e)) (events_of_run i d)))"

definition audit_get_latest_for_run :: "uuid \<Rightarrow> ('z, AuditEventModel option) wexec" where
  "audit_get_latest_for_run i = bindE
     (read_db (\<lambda>d. take 1 (sort_key (\<lambda>e. - evt_seq_in_run e) (events_of_run i d))))
     scalar_one_or_none"

definition audit_count_by_workflow_run :: "uuid \<Rightarrow> ('z, int) wexec" where
  "audit_count_by_workflow_run i = read_db (\<lambda>d. int (length (events_of_run i d)))"

section \<open>Documents\<close>

definition document_get_by_id :: "uuid \<Rightarrow> ('z, DocumentModel option) wexec" where
  "document_get_by_id i = bindE
     (read_db (\<lambda>d. filter (\<lambda>x. doc_document_id x = i) (documents d))) scalar_one_or_none"

definition document_get_by_content_hash :: "bytes \<Rightarrow> ('z, DocumentModel list) wexec" where
  "document_get_by_content_hash h =
     read_db (\<lambda>d. filter (\<lambda>x. doc_content_hash x = h) (documents d))"

definition document_create :: "DocumentModel \<Rightarrow> ('z, DocumentModel) wexec" where
  "document_create m = bindE (insert_document m) (\<lambda>_. returnE m)"

definition document_list_recent :: "nat \<Rightarrow> nat \<Rightarrow> ('z, DocumentModel list) wexec" where
  "document_list_recent limit offset = read_db (\<lambda>d.
     take limit (drop offset (sort_key (\<lambda>x. - doc_ingested_at x) (documents d))))"

section \<open>Escalation cases\<close>

definition escalation_get_by_id :: "uuid \<Rightarrow> ('z, EscalationCaseModel option) wexec" where
  "escalation_get_by_id i = bindE
     (read_db (\<lambda>d. filter (\<lambda>c. esc_escalation_id c = i) (escalation_cases d))) scalar_one_or_none"

definition escalation_create :: "EscalationCaseModel \<Rightarrow> ('z, EscalationCaseModel) wexec" where
  "escalation_create m = bindE (insert_escalation m) (\<lambda>_. returnE m)"

definition escalation_claim :: "uuid \<Rightarrow> string \<Rightarrow> ('z, bool) wexec" where
  "escalation_claim i actor = bindE
     (read_db (\<lambda>d. length (filter (\<lambda>c. esc_escalation_id c = i \<and> esc_state c = esc_open)
                     (escalation_cases d)))) (\<lambda>rowcount.
   bindE (write_db (\<lambda>d. d\<lparr>escalation_cases :=
     map_where (\<lambda>c. esc_escalation_id c = i \<and> esc_state c = esc_open)
       (\<lambda>c. c\<lparr>esc_state := claimed, esc_claimed_by := Some actor\<rparr>) (escalation_cases d)\<rparr>)) (\<lambda>_.
   returnE (rowcount = 1)))"

definition escalation_list_open :: "nat \<Rightarrow> nat \<Rightarrow> ('z, EscalationCaseModel list) wexec" where
  "escalation_list_open limit offset = read_db (\<lambda>d.
     take limit (drop offset (sort_key esc_created_at
       (filter (\<lambda>c. esc_state c = esc_open) (escalation_cases d)))))"

definition escalation_get_by_run_and_step :: "uuid \<Rightarrow> uuid \<Rightarrow> ('z, EscalationCaseModel option) wexec" where
  "escalation_get_by_run_and_step run step = bindE
     (read_db (\<lambda>d. filter (\<lambda>c. esc_workflow_run_id c = run \<and> esc_step_id c = step)
                 (escalation_cases d))) scalar_one_or_none"

section \<open>Outbox\<close>

definition outbox_create :: "TasksOutboxModel \<Rightarrow> ('z, TasksOutboxModel) wexec" where
  "outbox_create m = bindE (insert_outbox m) (\<lambda>_. returnE m)"

definition outbox_get_pending :: "nat \<Rightarrow> time option \<Rightarrow> ('z, TasksOutboxModel list) wexec" where
  "outbox_get_pending limit now = read_db (\<lambda>d.
     take limit (sort_key obx_outbox_id
       (filter (\<lambda>o'. obx_enqueued_at o' = None \<and>
           (case now of None \<Rightarrow> True | Some t \<Rightarrow> obx_scheduled_for o' \<le> t)) (tasks_outbox d))))"

definition outbox_mark_enqueued :: "int \<Rightarrow> time \<Rightarrow> ('z, bool) wexec" where
  "outbox_mark_enqueued i enqueued_at = bindE
     (read_db (\<lambda>d. length (filter (\<lambda>o'. obx_outbox_id o' = i) (tasks_outbox d)))) (\<lambda>rowcount.
   bindE (write_db (\<lambda>d. d\<lparr>tasks_outbox := map_where (\<lambda>o'. obx_outbox_id o' = i)
       (\<lambda>o'. o'\<lparr>obx_enqueued_at := Some enqueued_at\<rparr>) (tasks_outbox d)\<rparr>)) (\<lambda>_.
   returnE (rowcount = 1)))"

text \<open>The increment is refused when it would leave the range the table allows.\<close>

definition outbox_increment_attempts :: "int \<Rightarrow> string \<Rightarrow> ('z, unit) wexec" where
  "outbox_increment_attempts i error = bindE (read_db id) (\<lambda>d.
     let rows = map_where (\<lambda>o'. obx_outbox_id o' = i)
       (\<lambda>o'. o'\<lparr>obx_attempts := obx_attempts o' + 1, obx_last_error := Some error\<rparr>) (tasks_outbox d) in
     check_constraints
       [(list_all (\<lambda>o'. 0 \<le> obx_attempts o' \<and> obx_attempts o' \<le> 10) rows,
         ''ck_tasks_outbox_attempts_range'')]
       (\<lambda>d. d\<lparr>tasks_outbox := rows\<rparr>))"

definition outbox_get_by_workflow_run :: "uuid \<Rightarrow> ('z, TasksOutboxModel list) wexec" where
  "outbox_get_by_workflow_run i = read_db (\<lambda>d.
     sort_key obx_outbox_id (filter (\<lambda>o'. obx_workflow_run_id o' = i) (tasks_outbox d)))"

section \<open>Step attempts\<close>

definition attempt_get_by_id :: "uuid \<Rightarrow> ('z, StepAttemptModel option) wexec" where
  "attempt_get_by_id i = bindE
     (read_db (\<lambda>d. filter (\<lambda>a. att_step_attempt_id a = i) (step_attempts d))) scalar_one_or_none"

definition attempt_create :: "StepAttemptModel \<Rightarrow> ('z, StepAttemptModel) wexec" where
  "attempt_create m = bindE (insert_attempt m) (\<lambda>_. returnE m)"

definition attempts_of_step :: "uuid \<Rightarrow> db \<Rightarrow> StepAttemptModel list" where
  "attempts_of_step i d = filter (\<lambda>a. att_step_id a = i) (step_attempts d)"

definition attempt_list_by_step :: "uuid \<Rightarrow> ('z, StepAttemptModel list) wexec" where
  "attempt_list_by_step i = read_db (\<lambda>d.
     sort_key (\<lambda>a. - att_step_attempt_number a) (attempts_of_step i d))"

definition attempt_get_latest_for_step :: "uuid \<Rightarrow> ('z, StepAttemptModel option) wexec" where
  "attempt_get_latest_for_step i = bindE
     (read_db (\<lambda>d. take 1 (sort_key (\<lambda>a. - att_step_attempt_number a) (attempts_of_step i d))))
     scalar_one_or_none"

section \<open>Steps\<close>

definition step_get_by_id :: "uuid \<Rightarrow> ('z, StepModel option) wexec" where
  "step_get_by_id i = bindE
     (read_db (\<lambda>d. filter (\<lambda>s. stp_step_id s = i) (steps d))) scalar_one_or_none"

definition step_create :: "StepModel \<Rightarrow> ('z, StepModel) wexec" where
  "step_create m = bindE (insert_step m) (\<lambda>_. returnE m)"

definition step_create_many :: "StepModel list \<Rightarrow> ('z, StepModel list) wexec" where
  "step_create_many ms = bindE (forE ms insert_step) (\<lambda>_. returnE ms)"

definition steps_of_run :: "uuid \<Rightarrow> db \<Rightarrow> StepModel list" where
  "steps_of_run i d = sort_key stp_step_index (filter (\<lambda>s. stp_workflow_run_id s = i) (steps d))"

definition step_list_by_workflow_run :: "uuid \<Rightarrow> ('z, StepModel list) wexec" where
  "step_list_by_workflow_run i = read_db (steps_of_run i)"

definition step_get_by_run_and_name :: "uuid \<Rightarrow> string \<Rightarrow> ('z, StepModel option) wexec" where
  "step_get_by_run_and_name i name = bindE
     (read_db (\<lambda>d. filter (\<lambda>s. stp_workflow_run_id s = i \<and> stp_step_name s = name) (steps d)))
     scalar_one_or_none"

section \<open>Workflow runs\<close>

definition run_get_by_id :: "uuid \<Rightarrow> ('z, WorkflowRunModel option) wexec" where
  "run_get_by_id i = bindE
     (read_db (\<lambda>d. filter (\<lambda>r. run_workflow_run_id r = i) (workflow_runs d))) scalar_one_or_none"

definition run_create :: "WorkflowRunModel \<Rightarrow> ('z, WorkflowRunModel) wexec" where
  "run_create m = bindE (insert_run m) (\<lambda>_. returnE m)"

text \<open>The further columns (\<open>**kwargs\<close>) are the update \<open>kw\<close>.\<close>

definition run_update_state_optimistic ::
  "uuid \<Rightarrow> int \<Rightarrow> WorkflowRunState \<Rightarrow> int \<Rightarrow> (WorkflowRunModel \<Rightarrow> WorkflowRunModel) \<Rightarrow> ('z, bool) wexec" where
  "run_update_state_optimistic i expected_version new_state new_version kw = bindE
     (read_db (\<lambda>d. length (filter (\<lambda>r. run_workflow_run_id r = i \<and> run_version r = expected_version)
                     (workflow_runs d)))) (\<lambda>rowcount.
   bindE (write_db (\<lambda>d. d\<lparr>workflow_runs :=
     map_where (\<lambda>r. run_workflow_run_id r = i \<and> run_version r = expected_version)
       (\<lambda>r. kw (r\<lparr>run_state := new_state, run_version := new_version\<rparr>)) (workflow_runs d)\<rparr>)) (\<lambda>_.
   returnE (rowcount = 1)))"

definition run_list_by_state :: "WorkflowRunState \<Rightarrow> nat \<Rightarrow> nat \<Rightarrow> ('z, WorkflowRunModel list) wexec" where
  "run_list_by_state state limit offset = read_db (\<lambda>d.
     take limit (drop offset (sort_key (\<lambda>r. - run_updated_at r)
       (filter (\<lambda>r. run_state r = state) (workflow_runs d)))))"

section \<open>Well-formed databases\<close>

definition runs_wf :: "db \<Rightarrow> bool" where
  "runs_wf d \<longleftrightarrow> distinct (map run_workflow_run_id (workflow_runs d)) \<and>
     (\<forall>r \<in> set (workflow_runs d). fk_opt (run_current_step_id r) (stp_step_id ` set (steps d)))"

definition documents_wf :: "db \<Rightarrow> bool" where
  "documents_wf d \<longleftrightarrow> distinct (map doc_document_id (documents d)) \<and>
     (\<forall>m \<in> set (documents d). length (doc_content_hash m) = 32 \<and> 0 \<le> doc_size_bytes m
        \<and> content_type_ok (doc_content_type m)
        \<and> fk_opt (doc_api_key_id m) (key_api_key_id ` set (api_keys d))) \<and>
     distinct (map run_document_key (workflow_run_documents d)) \<and>
     (\<forall>m \<in> set (workflow_run_documents d).
        rd_workflow_run_id m \<in> run_workflow_run_id ` set (workflow_runs d) \<and>
        rd_document_id m \<in> doc_document_id ` set (documents d))"

definition steps_wf :: "db \<Rightarrow> bool" where
  "steps_wf d \<longleftrightarrow> distinct (map stp_step_id (steps d)) \<and> distinct (map step_index_key (steps d)) \<and>
     distinct (map step_name_key (steps d)) \<and>
     (\<forall>s \<in> set (steps d). 0 \<le> stp_step_index s \<and> 1 \<le> stp_max_attempts s \<and> stp_max_attempts s \<le> 10 \<and>
        stp_workflow_run_id s \<in> run_workflow_run_id ` set (workflow_runs d))"

definition attempts_wf :: "db \<Rightarrow> bool" where
  "attempts_wf d \<longleftrightarrow> distinct (map att_step_attempt_id (step_attempts d)) \<and>
     distinct (map attempt_key (step_attempts d)) \<and>
     (\<forall>a \<in> set (step_attempts d). 1 \<le> att_step_attempt_number a \<and>
        att_step_id a \<in> stp_step_id ` set (steps d))"

definition outbox_wf :: "db \<Rightarrow> bool" where
  "outbox_wf d \<longleftrightarrow> distinct (map obx_outbox_id (tasks_outbox d)) \<and>
     (\<forall>m \<in> set (tasks_outbox d). obx_outbox_id m < outbox_seq d \<and>
        0 \<le> obx_attempts m \<and> obx_attempts m \<le> 10 \<and>
        obx_workflow_run_id m \<in> run_workflow_run_id ` set (workflow_runs d) \<and>
        obx_step_id m \<in> stp_step_id ` set (steps d) \<and>
        obx_step_attempt_id m \<in> att_step_attempt_id ` set (step_attempts d))"

definition escalations_wf :: "db \<Rightarrow> bool" where
  "escalations_wf d \<longleftrightarrow> distinct (map esc_escalation_id (escalation_cases d)) \<and>
     distinct (map escalation_key (escalation_cases d)) \<and>
     (\<forall>c \<in> set (escalation_cases d).
        esc_workflow_run_id c \<in> run_workflow_run_id ` set (workflow_runs d) \<and>
        esc_step_id c \<in> stp_step_id ` set (steps d))"

definition events_wf :: "db \<Rightarrow> bool" where
  "events_wf d \<longleftrightarrow> distinct (map evt_audit_event_id (audit_events d)) \<and>
     distinct (map event_key (audit_events d)) \<and>
     (\<forall>e \<in> set (audit_events d). length (evt_event_hash e) = 32 \<and>
        (case evt_prev_event_hash e of None \<Rightarrow> True | Some h \<Rightarrow> length h = 32) \<and>
        evt_workflow_run_id e \<in> run_workflow_run_id ` set (workflow_runs d) \<and>
        fk_opt (evt_step_id e) (stp_step_id ` set (steps d)) \<and>
        fk_opt (evt_step_attempt_id e) (att_step_attempt_id ` set (step_attempts d)))"

definition keys_wf :: "db \<Rightarrow> bool" where
  "keys_wf d \<longleftrightarrow> distinct (map key_api_key_id (api_keys d)) \<and> distinct (map key_key_hash (api_keys d)) \<and>
     (\<forall>k \<in> set (api_keys d). length (key_key_hash k) = 32 \<and>
        key_role k \<in> {''operator'', ''supervisor'', ''viewer''})"

definition db_wf :: "db \<Rightarrow> bool" where
  "db_wf d \<longleftrightarrow> runs_wf d \<and> documents_wf d \<and> steps_wf d \<and> attempts_wf d \<and> outbox_wf d \<and>
     escalations_wf d \<and> events_wf d \<and> keys_wf d"

abbreviation world_wf :: "'z world_scheme \<Rightarrow> bool" where
  "world_wf w \<equiv> db_wf (w_db w)"

section \<open>Every statement keeps the database well formed\<close>

lemmas db_wf_defs = db_wf_def runs_wf_def documents_wf_def steps_wf_def attempts_wf_def
  outbox_wf_def escalations_wf_def events_wf_def keys_wf_def

lemma check_constraints_run [run_simps]:
  "check_constraints cs f w =
     (case find (\<lambda>c. \<not> fst c) cs of
        None \<Rightarrow> (Inr (), w\<lparr>w_db := f (w_db w)\<rparr>)
      | Some c \<Rightarrow> (Inl (IntegrityError (snd c)), w))"
  by (induction cs f rule: check_constraints.induct) (auto simp: write_db_def)

lemma read_db_run [simp, run_simps]: "read_db f w = (Inr (f (w_db w)), w)"
  by (simp add: read_db_def)

lemma write_db_run [simp, run_simps]: "write_db f w = (Inr (), w\<lparr>w_db := f (w_db w)\<rparr>)"
  by (simp add: write_db_def)

text \<open>A checked statement keeps an invariant that its effect keeps when the checks pass.\<close>

lemma keeps_checked:
  assumes "\<And>w. I w \<Longrightarrow> list_all fst (cs (w_db w)) \<Longrightarrow> I (w\<lparr>w_db := f (w_db w) (w_db w)\<rparr>)"
  shows "keeps I (bindE (read_db id) (\<lambda>d. check_constraints (cs d) (f d)))"
proof (rule keepsI)
  fix w r w'
  assume I: "I w" and run: "bindE (read_db id) (\<lambda>d. check_constraints (cs d) (f d)) w = (r, w')"
  then have run': "check_constraints (cs (w_db w)) (f (w_db w)) w = (r, w')" by simp
  show "I w'"
  proof (cases "find (\<lambda>c. \<not> fst c) (cs (w_db w))")
    case None
    then have "list_all fst (cs (w_db w))" by (auto simp: find_None_iff list_all_iff)
    with assms I run' None show ?thesis by (auto simp: check_constraints_run)
  next
    case (Some c)
    with I run' show ?thesis by (simp add: check_constraints_run)
  qed
qed

text \<open>A checked statement either is refused and changes nothing, or takes effect.\<close>

lemma checked_cases:
  assumes "bindE (read_db id) (\<lambda>d. check_constraints (cs d) (f d)) w = (r, w')"
  obtains (refused) c where "r = Inl (IntegrityError c)" "w' = w"
  | (inserted) "r = Inr ()" "list_all fst (cs (w_db w))" "w' = w\<lparr>w_db := f (w_db w) (w_db w)\<rparr>"
proof (cases "find (\<lambda>c. \<not> fst c) (cs (w_db w))")
  case None
  then have "list_all fst (cs (w_db w))" by (auto simp: find_None_iff list_all_iff)
  with assms None show thesis by (auto simp: check_constraints_run intro: that(2))
next
  case (Some c)
  with assms show thesis by (auto simp: check_constraints_run intro: that(1))
qed

lemma keeps_write_db: "(\<And>w. I w \<Longrightarrow> I (w\<lparr>w_db := f (w_db w)\<rparr>)) \<Longrightarrow> keeps I (write_db f)"
  by (auto simp: keeps_def)

lemma keeps_read_db [keeps_intros]: "keeps I (read_db f)"
  by (simp add: keeps_def)

lemma keeps_scalar [keeps_intros]:
  "keeps I (scalar_one_or_none rows)" "keeps I (scalar_one rows)"
  by (auto simp: scalar_one_or_none_def scalar_one_def keeps_def split: list.splits)

lemma fk_opt_mono: "fk_opt v A \<Longrightarrow> A \<subseteq> B \<Longrightarrow> fk_opt v B"
  by (auto simp: fk_opt_def split: option.splits)

lemma insert_document_wf [keeps_intros]: "keeps world_wf (insert_document m)"
  unfolding insert_document_def by (rule keeps_checked) (auto simp: db_wf_defs)

lemma insert_run_wf [keeps_intros]: "keeps world_wf (insert_run m)"
  unfolding insert_run_def by (rule keeps_checked) (auto simp: db_wf_defs)

lemma insert_run_document_wf [keeps_intros]: "keeps world_wf (insert_run_document m)"
  unfolding insert_run_document_def by (rule keeps_checked) (auto simp: db_wf_defs)

lemma insert_step_wf [keeps_intros]: "keeps world_wf (insert_step m)"
  unfolding insert_step_def
  by (rule keeps_checked) (simp add: db_wf_defs, blast intro: fk_opt_mono)

lemma insert_attempt_wf [keeps_intros]: "keeps world_wf (insert_attempt m)"
  unfolding insert_attempt_def
  by (rule keeps_checked) (simp add: db_wf_defs, blast intro: fk_opt_mono)

lemma insert_outbox_wf [keeps_intros]: "keeps world_wf (insert_outbox m)"
  unfolding insert_outbox_def by (rule keeps_checked) (force simp: db_wf_defs)

lemma insert_escalation_wf [keeps_intros]: "keeps world_wf (insert_escalation m)"
  unfolding insert_escalation_def by (rule keeps_checked) (auto simp: db_wf_defs)

lemma insert_audit_event_wf [keeps_intros]: "keeps world_wf (insert_audit_event m)"
  unfolding insert_audit_event_def by (rule keeps_checked) (auto simp: db_wf_defs)

lemmas map_where_facts = map_where_column image_map_where Ball_map_where

lemma update_run_wf:
  assumes "\<And>r. run_workflow_run_id (f r) = run_workflow_run_id r"
  shows "keeps world_wf (update_run i f)"
  unfolding update_run_def Let_def
  by (rule keeps_checked) (auto simp: db_wf_defs map_where_facts assms list_all_iff)

lemma update_step_wf:
  assumes "\<And>s. stp_step_id (f s) = stp_step_id s" "\<And>s. step_index_key (f s) = step_index_key s"
    "\<And>s. step_name_key (f s) = step_name_key s" "\<And>s. stp_max_attempts (f s) = stp_max_attempts s"
  shows "keeps world_wf (update_step i f)"
proof -
  have c: "stp_workflow_run_id (f s) = stp_workflow_run_id s" "stp_step_index (f s) = stp_step_index s"
    for s using assms(2) [of s] by (auto simp: step_index_key_def)
  show ?thesis
    unfolding update_step_def
    by (rule keeps_write_db) (auto simp: db_wf_defs map_where_facts assms c)
qed

lemma update_attempt_wf:
  assumes "\<And>a. att_step_attempt_id (f a) = att_step_attempt_id a"
    "\<And>a. attempt_key (f a) = attempt_key a"
  shows "keeps world_wf (update_attempt i f)"
proof -
  have c: "att_step_id (f a) = att_step_id a"
    "att_step_attempt_number (f a) = att_step_attempt_number a" for a
    using assms(2) [of a] by (auto simp: attempt_key_def)
  show ?thesis
    unfolding update_attempt_def
    by (rule keeps_write_db) (auto simp: db_wf_defs map_where_facts assms c)
qed

lemma update_escalation_wf:
  assumes "\<And>c. esc_escalation_id (f c) = esc_escalation_id c"
    "\<And>c. escalation_key (f c) = escalation_key c"
  shows "keeps world_wf (update_escalation i f)"
proof -
  have e: "esc_workflow_run_id (f c) = esc_workflow_run_id c" "esc_step_id (f c) = esc_step_id c"
    for c using assms(2) [of c] by (auto simp: escalation_key_def)
  show ?thesis
    unfolding update_escalation_def
    by (rule keeps_write_db) (auto simp: db_wf_defs map_where_facts assms e)
qed

lemma outbox_increment_attempts_wf [keeps_intros]: "keeps world_wf (outbox_increment_attempts i e)"
  unfolding outbox_increment_attempts_def Let_def
  by (rule keeps_checked) (auto simp: db_wf_defs map_where_facts list_all_iff)

lemma outbox_mark_enqueued_wf [keeps_intros]: "keeps world_wf (outbox_mark_enqueued i t)"
  unfolding outbox_mark_enqueued_def
  by (intro keeps_intros keeps_write_db) (auto simp: db_wf_defs map_where_facts)

lemma escalation_claim_wf [keeps_intros]: "keeps world_wf (escalation_claim i a)"
  unfolding escalation_claim_def
  by (intro keeps_intros keeps_write_db)
    (auto simp: db_wf_defs map_where_facts escalation_key_def)

lemma run_update_state_optimistic_wf:
  assumes "\<And>r. run_workflow_run_id (kw r) = run_workflow_run_id r"
    "\<And>r. run_current_step_id (kw r) = run_current_step_id r"
  shows "keeps world_wf (run_update_state_optimistic i v s n kw)"
  unfolding run_update_state_optimistic_def
  by (intro keeps_intros keeps_write_db) (auto simp: db_wf_defs map_where_facts assms)

text \<open>The draws from outside do not touch the database.\<close>

lemma draws_wf [keeps_intros]:
  "keeps world_wf uuid4" "keeps world_wf now_utc" "keeps world_wf urandom10"
  "keeps world_wf (uniform a b)" "keeps world_wf (metric n l)"
  by (simp_all add: keeps_def uuid4_def now_utc_def urandom10_def uniform_def metric_def)

lemma repositories_wf [keeps_intros]:
  "keeps world_wf (audit_append ev)" "keeps world_wf (audit_get_by_id i)"
  "keeps world_wf (audit_list_by_workflow_run i n)" "keeps world_wf (audit_get_latest_for_run i)"
  "keeps world_wf (document_get_by_id i)" "keeps world_wf (document_create doc)"
  "keeps world_wf (document_get_by_content_hash h)"
  "keeps world_wf (escalation_get_by_id i)" "keeps world_wf (escalation_create esc)"
  "keeps world_wf (escalation_get_by_run_and_step i j)"
  "keeps world_wf (outbox_create obx)" "keeps world_wf (outbox_get_pending n tm)"
  "keeps world_wf (attempt_get_by_id i)" "keeps world_wf (attempt_create att)"
  "keeps world_wf (attempt_list_by_step i)" "keeps world_wf (attempt_get_latest_for_step i)"
  "keeps world_wf (step_get_by_id i)" "keeps world_wf (step_create stp)"
  "keeps world_wf (step_create_many stps)" "keeps world_wf (step_list_by_workflow_run i)"
  "keeps world_wf (step_get_by_run_and_name i nm)"
  "keeps world_wf (run_get_by_id i)" "keeps world_wf (run_create rn)"
  unfolding audit_append_def audit_get_by_id_def audit_list_by_workflow_run_def
    audit_get_latest_for_run_def document_get_by_id_def document_create_def
    document_get_by_content_hash_def escalation_get_by_id_def escalation_create_def
    escalation_get_by_run_and_step_def outbox_create_def outbox_get_pending_def
    attempt_get_by_id_def attempt_create_def attempt_list_by_step_def
    attempt_get_latest_for_step_def step_get_by_id_def step_create_def step_create_many_def
    step_list_by_workflow_run_def step_get_by_run_and_name_def run_get_by_id_def run_create_def
  by (intro keeps_intros)+

lemma session_scope_wf [keeps_intros]: "keeps world_wf m \<Longrightarrow> keeps world_wf (session_scope m)"
  by (force simp: keeps_def session_scope_def split: prod.splits sum.splits)

lemma session_scope_rollback:
  "fst (session_scope m w) = Inl e \<Longrightarrow> w_db (snd (session_scope m w)) = w_db w"
  by (auto simp: session_scope_def split: prod.splits sum.splits)

section \<open>Lookups by key\<close>

text \<open>On a well-formed database a lookup by a unique key returns the row or nothing.\<close>

lemma filter_key_distinct:
  assumes "distinct (map k rows)"
  shows "filter (\<lambda>x. k x = v) rows = [] \<or> (\<exists>x \<in> set rows. k x = v \<and> filter (\<lambda>x. k x = v) rows = [x])"
  using assms by (induction rows) (auto simp: filter_empty_conv image_iff)

lemma scalar_filter_run:
  assumes "distinct (map k rows)"
  shows "scalar_one_or_none (filter (\<lambda>x. k x = v) rows) w = (Inr (find (\<lambda>x. k x = v) rows), w)"
proof -
  have f: "find (\<lambda>x. k x = v) rows = (case filter (\<lambda>x. k x = v) rows of [] \<Rightarrow> None | x # _ \<Rightarrow> Some x)"
    by (induction rows) auto
  show ?thesis using filter_key_distinct [OF assms, of v] f by (auto simp: scalar_one_or_none_def)
qed

lemma run_get_by_id_run [run_simps]:
  "world_wf w \<Longrightarrow> run_get_by_id i w = (Inr (find (\<lambda>r. run_workflow_run_id r = i) (workflow_runs (w_db w))), w)"
  by (simp add: run_get_by_id_def scalar_filter_run db_wf_defs)

lemma step_get_by_id_run [run_simps]:
  "world_wf w \<Longrightarrow> step_get_by_id i w = (Inr (find (\<lambda>s. stp_step_id s = i) (steps (w_db w))), w)"
  by (simp add: step_get_by_id_def scalar_filter_run db_wf_defs)

lemma attempt_get_by_id_run [run_simps]:
  "world_wf w \<Longrightarrow>
     attempt_get_by_id i w = (Inr (find (\<lambda>a. att_step_attempt_id a = i) (step_attempts (w_db w))), w)"
  by (simp add: attempt_get_by_id_def scalar_filter_run db_wf_defs)

lemma escalation_get_by_id_run [run_simps]:
  "world_wf w \<Longrightarrow>
     escalation_get_by_id i w = (Inr (find (\<lambda>c. esc_escalation_id c = i) (escalation_cases (w_db w))), w)"
  by (simp add: escalation_get_by_id_def scalar_filter_run db_wf_defs)

lemma step_get_by_run_and_name_run [run_simps]:
  assumes "world_wf w"
  shows "step_get_by_run_and_name i n w =
     (Inr (find (\<lambda>s. stp_workflow_run_id s = i \<and> stp_step_name s = n) (steps (w_db w))), w)"
proof -
  have "distinct (map step_name_key (steps (w_db w)))" using assms by (simp add: db_wf_defs)
  from scalar_filter_run [OF this, of "(i, n)" w] show ?thesis
    by (simp add: step_get_by_run_and_name_def step_name_key_def)
qed

lemma find_SomeD: "find P xs = Some x \<Longrightarrow> P x \<and> x \<in> set xs"
  by (auto simp: find_Some_iff)

section \<open>Safe computations\<close>

text \<open>
  \<open>advances w w'\<close>: between the two worlds the clock was read some more times and nothing about
  the outside changed. A computation is safe for \<open>I\<close> when it keeps \<open>I\<close> and only advances;
  unlike \<open>keeps\<close> alone this passes through a rollback, which restores the database of a world
  whose clock has moved on.
\<close>

definition advances :: "'z world_scheme \<Rightarrow> 'z world_scheme \<Rightarrow> bool" where
  "advances w w' \<longleftrightarrow> w_now w' = w_now w \<and> w_now_n w \<le> w_now_n w' \<and> w_float_repr w' = w_float_repr w"

definition safe :: "('z world_scheme \<Rightarrow> bool) \<Rightarrow> ('z, 'a) wexec \<Rightarrow> bool" where
  "safe I m \<longleftrightarrow> (\<forall>w. I w \<longrightarrow> I (snd (m w)) \<and> advances w (snd (m w)))"

named_theorems safe_intros \<open>introduction rules for \<open>safe\<close>\<close>

lemma advances_refl [simp]: "advances w w"
  by (simp add: advances_def)

lemma advances_trans: "advances u v \<Longrightarrow> advances v w \<Longrightarrow> advances u w"
  by (simp add: advances_def)

lemma safeI: "(\<And>w r w'. I w \<Longrightarrow> m w = (r, w') \<Longrightarrow> I w' \<and> advances w w') \<Longrightarrow> safe I m"
  unfolding safe_def by (metis prod.collapse)

lemma safeD: "safe I m \<Longrightarrow> I w \<Longrightarrow> m w = (r, w') \<Longrightarrow> I w' \<and> advances w w'"
  by (simp add: safe_def) (metis snd_conv)

lemma safe_keeps: "safe I m \<Longrightarrow> keeps I m"
  by (simp add: safe_def keeps_def)

lemma safe_basic [safe_intros]:
  "safe I (returnE a)" "safe I (raiseE e)" "safe I (readE f)" "safe I (read_db g)"
  "safe I (scalar_one_or_none rows)" "safe I (scalar_one rows)"
  by (simp_all add: safe_def scalar_one_or_none_def scalar_one_def split: list.split)

lemma safe_bindE [safe_intros]:
  assumes "safe I m" "\<And>a. safe I (k a)"
  shows "safe I (bindE m k)"
proof (rule safeI)
  fix w r w' assume I: "I w" and run: "bindE m k w = (r, w')"
  obtain r1 w1 where m: "m w = (r1, w1)" by (cases "m w")
  with assms(1) I have I1: "I w1 \<and> advances w w1" by (rule safeD)
  show "I w' \<and> advances w w'"
  proof (cases r1)
    case (Inl e) with m run I1 show ?thesis by simp
  next
    case (Inr a) with m run have "k a w1 = (r, w')" by simp
    with assms(2) I1 safeD have "I w' \<and> advances w1 w'" by blast
    with I1 advances_trans show ?thesis by blast
  qed
qed

lemma safe_catchE [safe_intros]:
  assumes "safe I m" "\<And>e. safe I (h e)"
  shows "safe I (catchE m h)"
proof (rule safeI)
  fix w r w' assume I: "I w" and run: "catchE m h w = (r, w')"
  obtain r1 w1 where m: "m w = (r1, w1)" by (cases "m w")
  with assms(1) I have I1: "I w1 \<and> advances w w1" by (rule safeD)
  show "I w' \<and> advances w w'"
  proof (cases r1)
    case (Inr a) with m run I1 show ?thesis by simp
  next
    case (Inl e) with m run have "h e w1 = (r, w')" by simp
    with assms(2) I1 safeD have "I w' \<and> advances w1 w'" by blast
    with I1 advances_trans show ?thesis by blast
  qed
qed

lemma safe_if [safe_intros]: "safe I m \<Longrightarrow> safe I n \<Longrightarrow> safe I (if b then m else n)"
  by simp

lemma safe_case_option [safe_intros]:
  "safe I m \<Longrightarrow> (\<And>x. safe I (n x)) \<Longrightarrow> safe I (case v of None \<Rightarrow> m | Some x \<Rightarrow> n x)"
  by (cases v) auto

lemma safe_case_prod [safe_intros]: "(\<And>a b. safe I (n a b)) \<Longrightarrow> safe I (case v of (a, b) \<Rightarrow> n a b)"
  by (cases v) auto

lemma safe_case_sum [safe_intros]:
  "(\<And>a. safe I (m a)) \<Longrightarrow> (\<And>x. safe I (n x)) \<Longrightarrow> safe I (case v of Inl a \<Rightarrow> m a | Inr x \<Rightarrow> n x)"
  by (cases v) auto

lemma safe_case_list [safe_intros]:
  "safe I m \<Longrightarrow> (\<And>x xs. safe I (n x xs)) \<Longrightarrow> safe I (case v of [] \<Rightarrow> m | x # xs \<Rightarrow> n x xs)"
  by (cases v) auto

lemma safe_Let [safe_intros]: "(\<And>a. safe I (n a)) \<Longrightarrow> safe I (let a = v in n a)"
  by simp

lemma safe_forE [safe_intros]: "(\<And>x. safe I (body x)) \<Longrightarrow> safe I (forE xs body)"
  by (induction xs) (auto intro!: safe_intros)

lemma safe_foldE [safe_intros]: "(\<And>x a. safe I (body x a)) \<Longrightarrow> safe I (foldE xs body a)"
  by (induction xs arbitrary: a) (auto intro!: safe_intros)

section \<open>Effects of successful statements\<close>

text \<open>What a statement that returns has done to the database.\<close>

lemma insert_ok:
  "insert_run r w = (Inr u, w') \<Longrightarrow>
     w' = w\<lparr>w_db := (w_db w)\<lparr>workflow_runs := workflow_runs (w_db w) @ [r]\<rparr>\<rparr> \<and>
     run_workflow_run_id r \<notin> run_workflow_run_id ` set (workflow_runs (w_db w))"
  "insert_run_document rdoc w = (Inr u, w') \<Longrightarrow>
     w' = w\<lparr>w_db := (w_db w)\<lparr>workflow_run_documents := workflow_run_documents (w_db w) @ [rdoc]\<rparr>\<rparr>"
  "insert_step s w = (Inr u, w') \<Longrightarrow>
     w' = w\<lparr>w_db := (w_db w)\<lparr>steps := steps (w_db w) @ [s]\<rparr>\<rparr> \<and>
     stp_step_id s \<notin> stp_step_id ` set (steps (w_db w))"
  "insert_attempt a w = (Inr u, w') \<Longrightarrow>
     w' = w\<lparr>w_db := (w_db w)\<lparr>step_attempts := step_attempts (w_db w) @ [a]\<rparr>\<rparr> \<and>
     attempt_key a \<notin> attempt_key ` set (step_attempts (w_db w))"
  "insert_outbox ob w = (Inr u, w') \<Longrightarrow>
     w' = w\<lparr>w_db := (w_db w)\<lparr>tasks_outbox := tasks_outbox (w_db w) @ [ob\<lparr>obx_outbox_id := outbox_seq (w_db w)\<rparr>],
               outbox_seq := outbox_seq (w_db w) + 1\<rparr>\<rparr>"
  "insert_escalation c w = (Inr u, w') \<Longrightarrow>
     w' = w\<lparr>w_db := (w_db w)\<lparr>escalation_cases := escalation_cases (w_db w) @ [c]\<rparr>\<rparr>"
  unfolding insert_run_def insert_run_document_def insert_step_def insert_attempt_def
    insert_outbox_def insert_escalation_def
  by (erule checked_cases; simp)+

lemma update_ok:
  "update_run i fr w = (Inr u, w') \<Longrightarrow>
     w' = w\<lparr>w_db := (w_db w)\<lparr>workflow_runs :=
       map_where (\<lambda>r. run_workflow_run_id r = i) fr (workflow_runs (w_db w))\<rparr>\<rparr>"
  "update_step i fs w = (Inr u, w') \<Longrightarrow>
     w' = w\<lparr>w_db := (w_db w)\<lparr>steps := map_where (\<lambda>s. stp_step_id s = i) fs (steps (w_db w))\<rparr>\<rparr>"
  "update_attempt i fa w = (Inr u, w') \<Longrightarrow>
     w' = w\<lparr>w_db := (w_db w)\<lparr>step_attempts :=
       map_where (\<lambda>a. att_step_attempt_id a = i) fa (step_attempts (w_db w))\<rparr>\<rparr>"
  "update_escalation i fe w = (Inr u, w') \<Longrightarrow>
     w' = w\<lparr>w_db := (w_db w)\<lparr>escalation_cases :=
       map_where (\<lambda>c. esc_escalation_id c = i) fe (escalation_cases (w_db w))\<rparr>\<rparr>"
  subgoal unfolding update_run_def Let_def by (erule checked_cases; simp)
  by (auto simp: update_step_def update_attempt_def update_escalation_def)

lemma draws_ok:
  "uuid4 w = (Inr a, w') \<Longrightarrow> w_db w' = w_db w"
  "now_utc w = (Inr t, w') \<Longrightarrow> w_db w' = w_db w"
  "urandom10 w = (Inr bs, w') \<Longrightarrow> w_db w' = w_db w"
  "uniform x y w = (Inr q, w') \<Longrightarrow> w_db w' = w_db w"
  "metric n l w = (Inr u, w') \<Longrightarrow> w_db w' = w_db w"
  by (auto simp: uuid4_def now_utc_def urandom10_def uniform_def metric_def)

lemma scalar_ok: "scalar_one_or_none rows w = (Inr x, w') \<Longrightarrow>
    w' = w \<and> rows = (case x of None \<Rightarrow> [] | Some r \<Rightarrow> [r])"
  by (auto simp: scalar_one_or_none_def split: list.splits)

lemma filter_single: "filter P xs = [x] \<Longrightarrow> P x \<and> x \<in> set xs"
proof -
  assume "filter P xs = [x]"
  then have "x \<in> set (filter P xs)" by simp
  then show ?thesis by simp
qed

lemma lookup_ok:
  "run_get_by_id i w = (Inr (Some r), w') \<Longrightarrow>
     w' = w \<and> r \<in> set (workflow_runs (w_db w)) \<and> run_workflow_run_id r = i"
  "step_get_by_id i w = (Inr (Some s), w') \<Longrightarrow>
     w' = w \<and> s \<in> set (steps (w_db w)) \<and> stp_step_id s = i"
  "step_get_by_run_and_name i n w = (Inr (Some s), w') \<Longrightarrow>
     w' = w \<and> s \<in> set (steps (w_db w)) \<and> stp_workflow_run_id s = i \<and> stp_step_name s = n"
  "escalation_get_by_id i w = (Inr (Some c), w') \<Longrightarrow>
     w' = w \<and> c \<in> set (escalation_cases (w_db w)) \<and> esc_escalation_id c = i"
  "attempt_get_by_id i w = (Inr (Some a), w') \<Longrightarrow>
     w' = w \<and> a \<in> set (step_attempts (w_db w)) \<and> att_step_attempt_id a = i"
  by (auto simp: run_get_by_id_def step_get_by_id_def step_get_by_run_and_name_def
      escalation_get_by_id_def attempt_get_by_id_def dest!: scalar_ok dest: filter_single)

lemma create_ok:
  "run_create r w = (Inr x, w') \<Longrightarrow> insert_run r w = (Inr (), w')"
  "attempt_create a w = (Inr x2, w') \<Longrightarrow> insert_attempt a w = (Inr (), w')"
  "outbox_create ob w = (Inr x3, w') \<Longrightarrow> insert_outbox ob w = (Inr (), w')"
  "escalation_create c w = (Inr x4, w') \<Longrightarrow> insert_escalation c w = (Inr (), w')"
  by (auto simp: run_create_def attempt_create_def outbox_create_def escalation_create_def
      elim!: bindE_InrD)

end
