(* ===== verification/Audit_Chain.thy ===== *)
theory Audit_Chain
  imports Repositories
begin

text \<open>
  \<open>src/insuranceops/audit\<close> and \<open>src/insuranceops/workers/audit_verifier.py\<close>: appending
  hash-chained events, walking a chain, and the scheduled and on-demand verification of
  samples of runs. A transaction holds the row lock of its run while it appends, so an append
  is one step of the model.
\<close>

section \<open>UUID version 7\<close>

definition be_int :: "bytes \<Rightarrow> uuid" where
  "be_int bs = foldl (\<lambda>a b. push_bit 8 a OR ucast b) 0 bs"

definition uuid7_of :: "int \<Rightarrow> bytes \<Rightarrow> uuid" where
  "uuid7_of timestamp_ms rand_bytes =
     (let u0 = push_bit 80 (of_int timestamp_ms AND 0xFFFFFFFFFFFF);
          u1 = u0 OR push_bit 76 0x7;
          rand_a = push_bit 4 (ucast (rand_bytes ! 0)) OR drop_bit 4 (ucast (rand_bytes ! 1));
          u2 = u1 OR push_bit 64 (rand_a AND 0xFFF);
          u3 = u2 OR push_bit 62 2;
          rand_b = be_int (drop 2 rand_bytes) AND 0x3FFFFFFFFFFFFFFF
      in u3 OR rand_b)"

definition uuid7 :: "('z, uuid) wexec" where
  "uuid7 = bindE now_utc (\<lambda>t. bindE urandom10 (\<lambda>rand_bytes.
     returnE (uuid7_of (t div 1000) rand_bytes)))"

section \<open>Appending\<close>

definition append_audit_event ::
  "uuid \<Rightarrow> string \<Rightarrow> string \<Rightarrow> dict \<Rightarrow> uuid option \<Rightarrow> uuid option \<Rightarrow> ('z, AuditEventModel) wexec" where
  "append_audit_event workflow_run_id event_type actor payload step_id step_attempt_id =
     bindE (audit_get_latest_for_run workflow_run_id) (\<lambda>latest.
     let (seq_in_run, prev_event_hash) = (case latest of
           Some e \<Rightarrow> (evt_seq_in_run e + 1, Some (evt_event_hash e))
         | None \<Rightarrow> (1, None)) in
     bindE uuid7 (\<lambda>audit_event_id.
     bindE now_utc (\<lambda>occurred_at.
     bindE (readE w_float_repr) (\<lambda>fr.
     let event_hash = compute_event_hash fr audit_event_id workflow_run_id actor event_type payload
                        occurred_at prev_event_hash;
         model = \<lparr>evt_audit_event_id = audit_event_id, evt_workflow_run_id = workflow_run_id,
                  evt_step_id = step_id, evt_step_attempt_id = step_attempt_id,
                  evt_event_type = event_type, evt_actor = actor, evt_payload = payload,
                  evt_occurred_at = occurred_at, evt_seq_in_run = seq_in_run,
                  evt_prev_event_hash = prev_event_hash, evt_event_hash = event_hash\<rparr> in
     bindE (audit_append model) (\<lambda>_.
     bindE (metric ''audit_events_appended_total'' [event_type]) (\<lambda>_.
     returnE model))))))"

section \<open>Verifying\<close>

record VerificationResult =
  vr_is_valid :: bool
  vr_first_mismatch_index :: "int option"
  vr_detail :: "string option"

text \<open>The hash recomputed from the columns of a row (also \<open>AuditEvent.verify_hash\<close>).\<close>

definition event_row_hash :: "(rat \<Rightarrow> string) \<Rightarrow> AuditEventModel \<Rightarrow> bytes" where
  "event_row_hash fr e =
     compute_event_hash fr (evt_audit_event_id e) (evt_workflow_run_id e) (evt_actor e)
       (evt_event_type e) (evt_payload e) (evt_occurred_at e) (evt_prev_event_hash e)"

definition verify_hash :: "(rat \<Rightarrow> string) \<Rightarrow> AuditEventModel \<Rightarrow> bool" where
  "verify_hash fr e \<longleftrightarrow> evt_event_hash e = event_row_hash fr e"

definition mismatch_at :: "int \<Rightarrow> AuditEventModel \<Rightarrow> string \<Rightarrow> VerificationResult" where
  "mismatch_at idx e what =
     \<lparr>vr_is_valid = False, vr_first_mismatch_index = Some idx,
      vr_detail = Some (''Event at index '' @ int_str idx @ '' (seq_in_run=''
        @ int_str (evt_seq_in_run e) @ ''): '' @ what)\<rparr>"

text \<open>The loop over the events: the result of the first mismatch, if there is one.\<close>

fun verify_events ::
  "(rat \<Rightarrow> string) \<Rightarrow> int \<Rightarrow> bytes option \<Rightarrow> AuditEventModel list \<Rightarrow> VerificationResult option" where
  "verify_events fr idx prev [] = None"
| "verify_events fr idx prev (e # es) =
     (if evt_prev_event_hash e \<noteq> prev
      then Some (mismatch_at idx e ''prev_event_hash does not match previous event's event_hash'')
      else if evt_event_hash e \<noteq> event_row_hash fr e
      then Some (mismatch_at idx e ''computed event_hash does not match stored value'')
      else verify_events fr (idx + 1) (Some (evt_event_hash e)) es)"

definition verify_chain :: "uuid \<Rightarrow> ('z, VerificationResult) wexec" where
  "verify_chain workflow_run_id =
     bindE (audit_list_by_workflow_run workflow_run_id 1000) (\<lambda>events.
     if events = []
     then returnE \<lparr>vr_is_valid = True, vr_first_mismatch_index = None,
                   vr_detail = Some ''No events in chain''\<rparr>
     else bindE (readE w_float_repr) (\<lambda>fr.
       case verify_events fr 0 None events of
         Some r \<Rightarrow> bindE (metric ''audit_chain_mismatches_total'' []) (\<lambda>_. returnE r)
       | None \<Rightarrow> returnE \<lparr>vr_is_valid = True, vr_first_mismatch_index = None,
           vr_detail = Some (''All '' @ int_str (int (length events)) @ '' events verified'')\<rparr>))"

text \<open>
  \<open>ORDER BY random()\<close> is the database's choice of an order: the argument \<open>shuffle\<close>.
\<close>

definition sample_terminal_runs :: "(uuid list \<Rightarrow> uuid list) \<Rightarrow> nat \<Rightarrow> ('z, uuid list) wexec" where
  "sample_terminal_runs shuffle sample_size = read_db (\<lambda>d.
     take sample_size (shuffle (map run_workflow_run_id
       (filter (\<lambda>r. run_state r \<in> set [completed, failed, cancelled]) (workflow_runs d)))))"

definition verify_sample :: "(uuid list \<Rightarrow> uuid list) \<Rightarrow> nat \<Rightarrow> ('z, int \<times> int) wexec" where
  "verify_sample shuffle sample_size =
     bindE (sample_terminal_runs shuffle sample_size) (\<lambda>run_ids.
     foldE run_ids (\<lambda>run_id (verified, bad).
       bindE (session_scope (verify_chain run_id)) (\<lambda>result.
       returnE (if vr_is_valid result then (verified + 1, bad) else (verified, bad + 1)))) (0, 0))"

definition batch_states :: "string option \<Rightarrow> string list" where
  "batch_states state_filter = (case state_filter of
       Some s \<Rightarrow> if s \<noteq> [] then [s] else [''completed'', ''failed'', ''cancelled'']
     | None \<Rightarrow> [''completed'', ''failed'', ''cancelled''])"

definition batch_limit :: "int option \<Rightarrow> int" where
  "batch_limit sample_size = min (case sample_size of Some n \<Rightarrow> if n \<noteq> 0 then n else 1000 | None \<Rightarrow> 1000) 1000"

definition verify_batch ::
  "int option \<Rightarrow> string option \<Rightarrow> ('z, (uuid \<times> VerificationResult) list) wexec" where
  "verify_batch sample_size state_filter =
     bindE (if batch_limit sample_size < 0 then raiseE (DataError ''LIMIT must not be negative'')
            else read_db (\<lambda>d. map run_workflow_run_id (take (nat (batch_limit sample_size))
              (sort_key (\<lambda>r. - run_created_at r)
                (filter (\<lambda>r. run_state_value (run_state r) \<in> set (batch_states state_filter))
                  (workflow_runs d)))))) (\<lambda>run_ids.
     foldE run_ids (\<lambda>run_id results.
       bindE (session_scope (verify_chain run_id)) (\<lambda>vr.
       returnE (results @ [(run_id, vr)]))) [])"

section \<open>Chains\<close>

text \<open>
  What a chain is: sequence numbers count from 1, each row names the hash of the row before
  it, and each stored hash is the hash of its row.
\<close>

fun linked :: "(rat \<Rightarrow> string) \<Rightarrow> bytes option \<Rightarrow> AuditEventModel list \<Rightarrow> bool" where
  "linked fr p [] \<longleftrightarrow> True"
| "linked fr p (e # es) \<longleftrightarrow> evt_prev_event_hash e = p \<and> evt_event_hash e = event_row_hash fr e \<and>
     linked fr (Some (evt_event_hash e)) es"

definition chain_ok :: "(rat \<Rightarrow> string) \<Rightarrow> AuditEventModel list \<Rightarrow> bool" where
  "chain_ok fr es \<longleftrightarrow> map evt_seq_in_run es = map int [1..<Suc (length es)] \<and> linked fr None es"

text \<open>All chains of the database are intact.\<close>

definition audit_ok :: "'z world_scheme \<Rightarrow> bool" where
  "audit_ok w \<longleftrightarrow> (\<forall>i. chain_ok (w_float_repr w) (events_of_run i (w_db w)))"

text \<open>The clock never runs backwards, and no stored event lies in its future.\<close>

definition clock_ok :: "'z world_scheme \<Rightarrow> bool" where
  "clock_ok w \<longleftrightarrow> mono (w_now w) \<and>
     (\<forall>e \<in> set (audit_events (w_db w)). evt_occurred_at e \<le> w_now w (w_now_n w)) \<and>
     (\<forall>i. sorted (map evt_occurred_at (events_of_run i (w_db w))))"

section \<open>The newest event\<close>

lemma chain_seq_nth: "chain_ok fr es \<Longrightarrow> k < length es \<Longrightarrow> evt_seq_in_run (es ! k) = int (Suc k)"
proof -
  assume ok: "chain_ok fr es" and k: "k < length es"
  then have "map evt_seq_in_run es ! k = map int [1..<Suc (length es)] ! k"
    by (simp add: chain_ok_def)
  with k show ?thesis by (simp del: upt_Suc)
qed

lemma chain_ok_Nil [simp]: "chain_ok fr []"
  by (simp add: chain_ok_def)

lemma chain_seq_last: "chain_ok fr es \<Longrightarrow> es \<noteq> [] \<Longrightarrow> evt_seq_in_run (last es) = int (length es)"
  by (simp add: last_conv_nth chain_seq_nth)

lemma chain_seq_sorted: "chain_ok fr es \<Longrightarrow> sorted_wrt (<) (map evt_seq_in_run es)"
  by (simp add: chain_ok_def sorted_wrt_map del: upt_Suc) 

lemma newest_event:
  assumes "chain_ok fr es"
  shows "take 1 (sort_key (\<lambda>e. - evt_seq_in_run e) es) = (if es = [] then [] else [last es])"
proof -
  have sw: "sorted_wrt (<) (map evt_seq_in_run es)" using assms by (rule chain_seq_sorted)
  have inj: "inj_on (\<lambda>e. - evt_seq_in_run e) (set es)"
    using sw by (auto simp: inj_on_def sorted_wrt_map in_set_conv_nth sorted_wrt_iff_nth_less)
      (metis linorder_neqE_nat less_irrefl)
  have "sorted (map (\<lambda>e. - evt_seq_in_run e) (rev es))"
    using sw by (auto simp: sorted_wrt_map sorted_wrt_rev elim: sorted_wrt_mono_rel [rotated])
  with inj have "sort_key (\<lambda>e. - evt_seq_in_run e) es = rev es"
    by (intro sort_key_inj_key_eq) auto
  then show ?thesis by (cases es rule: rev_cases) auto
qed

section \<open>Appending extends the chain\<close>

lemma linked_append:
  "linked fr p (es @ [e]) \<longleftrightarrow> linked fr p es \<and>
     evt_prev_event_hash e = (if es = [] then p else Some (evt_event_hash (last es))) \<and>
     evt_event_hash e = event_row_hash fr e"
  by (induction fr p es rule: linked.induct) auto

definition extends_chain :: "(rat \<Rightarrow> string) \<Rightarrow> AuditEventModel list \<Rightarrow> AuditEventModel \<Rightarrow> bool" where
  "extends_chain fr es e \<longleftrightarrow> evt_seq_in_run e = int (length es) + 1 \<and>
     evt_prev_event_hash e = (if es = [] then None else Some (evt_event_hash (last es))) \<and>
     verify_hash fr e"

lemma chain_ok_append: "chain_ok fr es \<Longrightarrow> extends_chain fr es e \<Longrightarrow> chain_ok fr (es @ [e])"
  by (auto simp: chain_ok_def linked_append extends_chain_def verify_hash_def)

lemma insert_audit_event_cases:
  assumes "insert_audit_event m w = (r, w')"
  obtains (refused) c where "r = Inl (IntegrityError c)" "w' = w"
  | (inserted) "r = Inr ()"
      "w' = w\<lparr>w_db := (w_db w)\<lparr>audit_events := audit_events (w_db w) @ [m]\<rparr>\<rparr>"
      "evt_workflow_run_id m \<in> run_workflow_run_id ` set (workflow_runs (w_db w))"
  using assms unfolding insert_audit_event_def by (rule checked_cases) (auto intro: that)

text \<open>The one place where the text of \<open>append_audit_event\<close> is unfolded.\<close>

definition event_draft ::
  "'z world_scheme \<Rightarrow> uuid \<Rightarrow> string \<Rightarrow> string \<Rightarrow> dict \<Rightarrow> uuid option \<Rightarrow> uuid option \<Rightarrow> AuditEventModel" where
  "event_draft w i et actor p s sa =
     (let es = events_of_run i (w_db w);
          prev = (if es = [] then None else Some (evt_event_hash (last es)));
          eid = uuid7_of (w_now w (w_now_n w) div 1000) (w_urandom w (w_urandom_n w));
          t = w_now w (Suc (w_now_n w))
      in \<lparr>evt_audit_event_id = eid, evt_workflow_run_id = i, evt_step_id = s,
          evt_step_attempt_id = sa, evt_event_type = et, evt_actor = actor, evt_payload = p,
          evt_occurred_at = t, evt_seq_in_run = int (length es) + 1, evt_prev_event_hash = prev,
          evt_event_hash = compute_event_hash (w_float_repr w) eid i actor et p t prev\<rparr>)"

lemma event_draft_extends:
  "extends_chain (w_float_repr w) (events_of_run i (w_db w)) (event_draft w i et actor p s sa)"
  by (simp add: extends_chain_def event_draft_def Let_def verify_hash_def event_row_hash_def)

lemma append_audit_event_run:
  assumes ok: "chain_ok (w_float_repr w) (events_of_run i (w_db w))"
  shows "append_audit_event i et actor p s sa w =
    bindE (insert_audit_event (event_draft w i et actor p s sa)) (\<lambda>_.
    bindE (metric ''audit_events_appended_total'' [et]) (\<lambda>_.
    returnE (event_draft w i et actor p s sa)))
      (w\<lparr>w_urandom_n := Suc (w_urandom_n w), w_now_n := Suc (Suc (w_now_n w))\<rparr>)"
proof -
  let ?es = "events_of_run i (w_db w)"
  have latest: "audit_get_latest_for_run i w = (Inr (if ?es = [] then None else Some (last ?es)), w)"
    using newest_event [OF ok] by (simp add: audit_get_latest_for_run_def scalar_one_or_none_def)
  show ?thesis
    using chain_seq_last [OF ok]
    by (cases "?es = []")
      (simp_all add: append_audit_event_def latest Let_def uuid7_def now_utc_def urandom10_def
        audit_append_def event_draft_def bindE_assoc)
qed

lemma append_audit_event_cases:
  assumes ok: "chain_ok (w_float_repr w) (events_of_run i (w_db w))"
    and run: "append_audit_event i et actor p s sa w = (r, w')"
  obtains (refused) c where "r = Inl (IntegrityError c)"
      "w' = w\<lparr>w_urandom_n := Suc (w_urandom_n w), w_now_n := Suc (Suc (w_now_n w))\<rparr>"
  | (inserted) m where "m = event_draft w i et actor p s sa" "r = Inr m"
      "w' = w\<lparr>w_urandom_n := Suc (w_urandom_n w), w_now_n := Suc (Suc (w_now_n w)),
             w_db := (w_db w)\<lparr>audit_events := audit_events (w_db w) @ [m]\<rparr>,
             w_metrics := w_metrics w @ [(''audit_events_appended_total'', [et])]\<rparr>"
      "i \<in> run_workflow_run_id ` set (workflow_runs (w_db w))"
proof -
  let ?m = "event_draft w i et actor p s sa"
  let ?w = "w\<lparr>w_urandom_n := Suc (w_urandom_n w), w_now_n := Suc (Suc (w_now_n w))\<rparr>"
  have i: "evt_workflow_run_id ?m = i" by (simp add: event_draft_def Let_def)
  obtain r1 w1 where ins: "insert_audit_event ?m ?w = (r1, w1)" by (cases "insert_audit_event ?m ?w")
  from ins show thesis
  proof (cases rule: insert_audit_event_cases)
    case (refused c)
    with run ins show thesis by (intro that(1)) (auto simp: append_audit_event_run [OF ok])
  next
    case inserted
    with run ins i show thesis
      by (intro that(2)) (auto simp: append_audit_event_run [OF ok] metric_def)
  qed
qed

section \<open>Invariants of the audit log\<close>

text \<open>
  What an invariant of the log has to satisfy: it depends on the log and the outside only, and
  \<open>append_audit_event\<close> keeps it. Every other statement of the program is then safe for it.
\<close>

locale audit_invariant =
  fixes I :: "'z world_scheme \<Rightarrow> bool"
  assumes frame: "I w \<Longrightarrow> audit_events (w_db w') = audit_events (w_db w) \<Longrightarrow> advances w w' \<Longrightarrow> I w'"
    and append: "safe I (append_audit_event i et actor p s sa)"
begin

lemma session_safe [safe_intros]: "safe I m \<Longrightarrow> safe I (session_scope m)"
proof (rule safeI)
  fix w r w' assume m: "safe I m" and I: "I w" and run: "session_scope m w = (r, w')"
  obtain r1 w1 where m1: "m w = (r1, w1)" by (cases "m w")
  with m I have I1: "I w1 \<and> advances w w1" by (rule safeD)
  show "I w' \<and> advances w w'"
  proof (cases r1)
    case (Inl e)
    with m1 run have "w' = w1\<lparr>w_db := w_db w\<rparr>" by (simp add: session_scope_def)
    with I I1 show ?thesis by (auto simp: advances_def elim!: frame)
  qed (use m1 run I1 in \<open>simp add: session_scope_def\<close>)
qed

lemma write_safe: "(\<And>d. audit_events (f d) = audit_events d) \<Longrightarrow> safe I (write_db f)"
  by (rule safeI) (auto simp: advances_def elim!: frame)

lemma checked_safe:
  assumes "\<And>d d'. audit_events (f d d') = audit_events d'"
  shows "safe I (bindE (read_db id) (\<lambda>d. check_constraints (cs d) (f d)))"
  by (rule safeI, erule checked_cases) (auto simp: advances_def assms elim!: frame)

lemma draws_safe [safe_intros]:
  "safe I uuid4" "safe I now_utc" "safe I urandom10" "safe I (uniform a b)" "safe I (metric n l)"
  by (auto intro!: safeI simp: uuid4_def now_utc_def urandom10_def uniform_def metric_def advances_def
      elim!: frame)

lemma statements_safe [safe_intros]:
  "safe I (insert_document doc)" "safe I (insert_run rn)" "safe I (insert_run_document rdoc)"
  "safe I (insert_step stp)" "safe I (insert_attempt att)" "safe I (insert_outbox obx)"
  "safe I (insert_escalation esc)" "safe I (update_run i fr)" "safe I (update_step i fs)"
  "safe I (update_attempt i fa)" "safe I (update_escalation i fe)"
  "safe I (outbox_increment_attempts n err)"
  unfolding insert_document_def insert_run_def insert_run_document_def insert_step_def
    insert_attempt_def insert_outbox_def insert_escalation_def update_run_def update_step_def
    update_attempt_def update_escalation_def outbox_increment_attempts_def Let_def
  by (rule checked_safe write_safe; simp)+

lemma repositories_safe [safe_intros]:
  "safe I (audit_get_latest_for_run i)" "safe I (audit_list_by_workflow_run i n)"
  "safe I (audit_get_by_id i)"
  "safe I (document_get_by_id i)" "safe I (document_create doc)"
  "safe I (document_get_by_content_hash h)"
  "safe I (escalation_get_by_id i)" "safe I (escalation_create esc)" "safe I (escalation_claim i act)"
  "safe I (escalation_get_by_run_and_step i j)"
  "safe I (outbox_create obx)" "safe I (outbox_get_pending n tm)" "safe I (outbox_mark_enqueued z t)"
  "safe I (attempt_get_by_id i)" "safe I (attempt_create att)" "safe I (attempt_list_by_step i)"
  "safe I (attempt_get_latest_for_step i)" "safe I (step_get_by_id i)" "safe I (step_create stp)"
  "safe I (step_create_many stps)" "safe I (step_list_by_workflow_run i)"
  "safe I (step_get_by_run_and_name i nm)" "safe I (run_get_by_id i)" "safe I (run_create rn)"
  "safe I (run_update_state_optimistic i v st v' kw)"
  unfolding audit_get_by_id_def audit_list_by_workflow_run_def
    audit_get_latest_for_run_def document_get_by_id_def document_create_def
    document_get_by_content_hash_def escalation_get_by_id_def escalation_create_def
    escalation_claim_def escalation_get_by_run_and_step_def outbox_create_def
    outbox_get_pending_def outbox_mark_enqueued_def run_update_state_optimistic_def
    attempt_get_by_id_def attempt_create_def attempt_list_by_step_def
    attempt_get_latest_for_step_def step_get_by_id_def step_create_def step_create_many_def
    step_list_by_workflow_run_def step_get_by_run_and_name_def run_get_by_id_def run_create_def
  by ((intro safe_intros write_safe; simp?)+)

lemma verifier_safe [safe_intros]:
  "safe I (verify_chain i)" "safe I (verify_sample shuffle n)" "safe I (verify_batch sz flt)"
  unfolding verify_chain_def verify_sample_def sample_terminal_runs_def verify_batch_def
  by (intro safe_intros)+

end

lemma events_of_run_snoc:
  "events_of_run j (d\<lparr>audit_events := audit_events d @ [m]\<rparr>) =
     (if evt_workflow_run_id m = j then events_of_run j d @ [m] else events_of_run j d)"
  by (simp add: events_of_run_def)

lemma event_draft_fields [simp]:
  "evt_workflow_run_id (event_draft w i et actor p s sa) = i"
  "evt_event_type (event_draft w i et actor p s sa) = et"
  "evt_actor (event_draft w i et actor p s sa) = actor"
  "evt_payload (event_draft w i et actor p s sa) = p"
  "evt_step_id (event_draft w i et actor p s sa) = s"
  "evt_step_attempt_id (event_draft w i et actor p s sa) = sa"
  "evt_seq_in_run (event_draft w i et actor p s sa) = int (length (events_of_run i (w_db w))) + 1"
  "evt_occurred_at (event_draft w i et actor p s sa) = w_now w (Suc (w_now_n w))"
  by (simp_all add: event_draft_def Let_def)

lemma append_audit_event_ok_advances:
  assumes ok: "audit_ok w" and run: "append_audit_event i et actor p s sa w = (r, w')"
  shows "audit_ok w' \<and> advances w w'"
proof -
  have c: "chain_ok (w_float_repr w) (events_of_run j (w_db w))" for j using ok by (simp add: audit_ok_def)
  from c [of i] run show ?thesis
    by (rule append_audit_event_cases)
      (use c chain_ok_append [OF c event_draft_extends] in
        \<open>auto simp: audit_ok_def events_of_run_snoc advances_def\<close>)
qed

interpretation log_chain: audit_invariant audit_ok
  by unfold_locales
    (auto simp: audit_ok_def events_of_run_def advances_def intro!: safeI dest: append_audit_event_ok_advances)

text \<open>With a clock that does not run backwards the stored times are in chain order.\<close>

lemma mono_clock_le: "mono f \<Longrightarrow> (t::int) \<le> f n \<Longrightarrow> n \<le> k \<Longrightarrow> t \<le> f (k::nat)"
  using monoD order_trans by blast

lemma append_audit_event_clock:
  assumes ok: "audit_ok w" and ck: "clock_ok w"
    and run: "append_audit_event i et actor p s sa w = (r, w')"
  shows "clock_ok w'"
proof -
  have c: "chain_ok (w_float_repr w) (events_of_run i (w_db w))" using ok by (simp add: audit_ok_def)
  have le: "e \<in> set (audit_events (w_db w)) \<Longrightarrow> n \<ge> w_now_n w \<Longrightarrow> evt_occurred_at e \<le> w_now w n" for e n
    using ck mono_clock_le by (fastforce simp: clock_ok_def)
  have mono: "w_now w (Suc n) \<le> w_now w (Suc (Suc n))" for n
    using ck by (simp add: clock_ok_def monoD)
  from c run show ?thesis
    by (rule append_audit_event_cases)
      (use ck le mono in \<open>auto simp: clock_ok_def events_of_run_snoc sorted_append
          events_of_run_def [of i "w_db w"]\<close>)
qed

interpretation log_clock: audit_invariant "\<lambda>w. audit_ok w \<and> clock_ok w"
proof
  show "audit_ok w' \<and> clock_ok w'"
    if "audit_ok w \<and> clock_ok w" "audit_events (w_db w') = audit_events (w_db w)" "advances w w'"
    for w w' :: "'z world_scheme"
    using that by (auto simp: audit_ok_def clock_ok_def events_of_run_def advances_def
        intro: mono_clock_le)
  show "safe (\<lambda>w. audit_ok w \<and> clock_ok w) (append_audit_event i et actor p s sa)"
    for i et actor p s sa
    by (rule safeI) (use append_audit_event_ok_advances append_audit_event_clock in blast)
qed

text \<open>The log is append-only: what it held stays, in place.\<close>

definition log_extends :: "AuditEventModel list \<Rightarrow> 'z world_scheme \<Rightarrow> bool" where
  "log_extends es w \<longleftrightarrow> (\<exists>zs. audit_events (w_db w) = es @ zs)"

lemma insert_audit_event_log: "safe (log_extends es) (insert_audit_event m)"
  by (rule safeI, erule insert_audit_event_cases) (auto simp: log_extends_def advances_def)

lemma append_audit_event_log: "safe (log_extends es) (append_audit_event i et actor p s sa)"
proof -
  have d: "safe (log_extends es) now_utc" "safe (log_extends es) urandom10"
    "safe (log_extends es) (metric n l)" for n l
    by (simp_all add: safe_def now_utc_def urandom10_def metric_def log_extends_def advances_def)
  show ?thesis
    unfolding append_audit_event_def audit_get_latest_for_run_def uuid7_def audit_append_def
    by (intro safe_intros d insert_audit_event_log)
qed

interpretation log_append: audit_invariant "log_extends es"
  by unfold_locales (auto simp: log_extends_def intro: append_audit_event_log)

section \<open>Verifying intact chains\<close>

lemma verify_events_linked:
  "verify_events fr idx p es = None \<longleftrightarrow> linked fr p es"
  by (induction fr idx p es rule: verify_events.induct) auto

lemma linked_take: "linked fr p es \<Longrightarrow> linked fr p (take n es)"
proof (induction es arbitrary: p n)
  case (Cons e es) then show ?case by (cases n) auto
qed simp

lemma list_chain_order:
  assumes "audit_ok w" "clock_ok w"
  shows "sort_key (\<lambda>e. (evt_occurred_at e, evt_seq_in_run e)) (events_of_run i (w_db w)) =
    events_of_run i (w_db w)"
proof (rule sort_key_id_if_sorted)
  let ?es = "events_of_run i (w_db w)"
  have "sorted_wrt (\<lambda>a b. evt_occurred_at a \<le> evt_occurred_at b) ?es"
    using assms(2) by (simp add: clock_ok_def sorted_map)
  moreover have "sorted_wrt (\<lambda>a b. evt_seq_in_run a < evt_seq_in_run b) ?es"
    using assms(1) chain_seq_sorted [of _ ?es] by (auto simp: audit_ok_def sorted_wrt_map)
  ultimately show "sorted (map (\<lambda>e. (evt_occurred_at e, evt_seq_in_run e)) ?es)"
    by (fastforce simp: sorted_map less_eq_prod_def sorted_wrt_iff_nth_less intro: less_imp_le)
qed

lemma verify_chain_intact:
  assumes "audit_ok w" "clock_ok w"
  shows "\<exists>r. verify_chain i w = (Inr r, w) \<and> vr_is_valid r \<and> vr_first_mismatch_index r = None"
proof -
  have "linked (w_float_repr w) None (take 1000 (events_of_run i (w_db w)))"
    using assms(1) by (intro linked_take) (simp add: audit_ok_def chain_ok_def)
  then show ?thesis
    by (auto simp: verify_chain_def audit_list_by_workflow_run_def list_chain_order [OF assms]
        verify_events_linked [THEN iffD2])
qed


section \<open>Tampering\<close>

definition row_preimage :: "(rat \<Rightarrow> string) \<Rightarrow> AuditEventModel \<Rightarrow> bytes" where
  "row_preimage fr e =
     event_preimage fr (evt_audit_event_id e) (evt_workflow_run_id e) (evt_actor e)
       (evt_event_type e) (evt_payload e) (evt_occurred_at e) (evt_prev_event_hash e)"

lemma event_row_hash_preimage: "event_row_hash fr e = sha256 (row_preimage fr e)"
  by (simp add: event_row_hash_def compute_event_hash_def row_preimage_def)

lemma linked_hash_len: "linked fr p es \<Longrightarrow> e \<in> set es \<Longrightarrow> length (evt_event_hash e) = 32"
  by (induction fr p es rule: linked.induct) (auto simp: event_row_hash_preimage)

lemma row_preimage_prev:
  assumes eq: "row_preimage fr e = row_preimage fr e'"
    and "evt_prev_event_hash e = Some h" "evt_prev_event_hash e' = Some h'" "length h = length h'"
  shows "h = h'"
  using assms by (simp add: row_preimage_def event_preimage_def flip: append_assoc)

text \<open>The hash of the newest event commits to every event before it.\<close>

lemma chain_commitment_lemma:
  assumes "linked fr None es" "linked fr None es'" "length es = length es'" "es \<noteq> []"
    "evt_event_hash (last es) = evt_event_hash (last es')"
  shows "(\<forall>k < length es. row_preimage fr (es ! k) = row_preimage fr (es' ! k)) \<or>
    (\<exists>k < length es. row_preimage fr (es ! k) \<noteq> row_preimage fr (es' ! k) \<and>
       sha256 (row_preimage fr (es ! k)) = sha256 (row_preimage fr (es' ! k)))"
  using assms
proof (induction es arbitrary: es' rule: rev_induct)
  case (snoc e es)
  then obtain e' es0 where es': "es' = es0 @ [e']" by (cases es' rule: rev_cases) auto
  with snoc.prems have len: "length es0 = length es" by simp
  have l: "linked fr None es" "linked fr None es0" and h: "event_row_hash fr e = event_row_hash fr e'"
    and pe: "evt_prev_event_hash e = (if es = [] then None else Some (evt_event_hash (last es)))"
    and pe': "evt_prev_event_hash e' = (if es0 = [] then None else Some (evt_event_hash (last es0)))"
    using snoc.prems by (auto simp: es' linked_append)
  have sha: "sha256 (row_preimage fr e) = sha256 (row_preimage fr e')"
    using h by (simp add: event_row_hash_preimage)
  show ?case
  proof (cases "row_preimage fr e = row_preimage fr e'")
    case False
    with sha len show ?thesis by (intro disjI2 exI [of _ "length es"]) (auto simp: es' nth_append)
  next
    case True
    show ?thesis
    proof (cases "es = []")
      case es: True
      with len True show ?thesis by (simp add: es')
    next
      case False
      with len have ne: "es0 \<noteq> []" by auto
      have "evt_event_hash (last es) = evt_event_hash (last es0)"
        using row_preimage_prev [OF True] pe pe' False ne linked_hash_len [OF l(1)]
          linked_hash_len [OF l(2)] by simp
      from snoc.IH [OF l _ False this] len True show ?thesis
        by (auto simp: es' nth_append less_Suc_eq)
    qed
  qed
qed simp

lemma linked_app: "linked fr p (xs @ ys) \<longleftrightarrow>
    linked fr p xs \<and> linked fr (if xs = [] then p else Some (evt_event_hash (last xs))) ys"
  by (induction fr p xs rule: linked.induct) auto

text \<open>A row replaced in the middle, or with its stored hash kept, has to collide.\<close>

lemma replaced_row_collides:
  assumes "linked fr p (xs @ e # ys)" "linked fr p (xs @ e' # ys)"
    and "ys \<noteq> [] \<or> evt_event_hash e' = evt_event_hash e"
  shows "sha256 (row_preimage fr e') = sha256 (row_preimage fr e)"
  using assms by (cases ys) (auto simp: linked_app event_row_hash_preimage)

lemma row_preimage_ids:
  "row_preimage fr e' = row_preimage fr e \<Longrightarrow>
     evt_audit_event_id e' = evt_audit_event_id e \<and> evt_workflow_run_id e' = evt_workflow_run_id e"
  by (auto simp: row_preimage_def event_preimage_def append_eq_append_conv)

subsection \<open>What the hash of a row covers\<close>

lemma dec_pad_small: "c \<in> set (dec_pad k n) \<Longrightarrow> of_char c < (58 :: nat)"
proof (induction k arbitrary: n)
  case (Suc k)
  have "0 \<le> n mod 10" "n mod 10 < 10" by simp_all
  then have "nat (48 + n mod 10) < 58" by linarith
  then have "of_char (dec_digit (n mod 10)) < (58 :: nat)" by (simp add: dec_digit_def)
  with Suc show ?case by auto
qed simp

lemma isoformat_no_brace: "CHR ''}'' \<notin> set (isoformat t)"
proof -
  have d: "CHR ''}'' \<notin> set (dec_pad k n)" for k n using dec_pad_small [of "CHR ''}''" k n] by auto
  show ?thesis by (auto simp: isoformat_def Let_def d split: prod.splits if_splits)
qed

lemma canonical_json_braces: "\<exists>t. canonical_json fr p = CHR ''{'' # t @ [CHR ''}'']"
  by (simp add: canonical_json_def Let_def)

lemma split_last:
  assumes "xs @ c # us = ys @ c # vs" "c \<notin> set us" "c \<notin> set vs"
  shows "xs = ys \<and> us = vs"
proof -
  have "rev us @ c # rev xs = rev vs @ c # rev ys" using arg_cong [OF assms(1), of rev] by simp
  moreover have "takeWhile (\<lambda>x. x \<noteq> c) (rev zs @ c # ws) = rev zs" if "c \<notin> set zs" for zs ws
    using that by (subst takeWhile_append2) auto
  ultimately have "rev us = rev vs" using assms(2,3) by metis
  with assms(1) show ?thesis by simp
qed

lemma split_first:
  assumes "us @ c # xs = vs @ c # ys" "c \<notin> set us" "c \<notin> set vs"
  shows "us = vs \<and> xs = ys"
  using split_last [of "rev xs" c "rev us" "rev ys" "rev vs"] arg_cong [OF assms(1), of rev] assms(2,3) by simp

text \<open>
  Two rows with the same hashed bytes: the fixed-width columns agree, and so do the time's text and
  the run of actor, event type and payload before it. The texts of that run carry no lengths: where
  one ends and the next begins is fixed only as far as the payload's opening brace is the first one,
  and between actor and event type not at all.
\<close>

definition same_hashed :: "(rat \<Rightarrow> string) \<Rightarrow> AuditEventModel \<Rightarrow> AuditEventModel \<Rightarrow> bool" where
  "same_hashed fr e e' \<longleftrightarrow> evt_audit_event_id e = evt_audit_event_id e' \<and> evt_workflow_run_id e = evt_workflow_run_id e' \<and>
     evt_prev_event_hash e = evt_prev_event_hash e' \<and> evt_event_hash e = evt_event_hash e' \<and>
     isoformat (evt_occurred_at e) = isoformat (evt_occurred_at e') \<and>
     evt_actor e @ evt_event_type e @ canonical_json fr (evt_payload e) =
       evt_actor e' @ evt_event_type e' @ canonical_json fr (evt_payload e') \<and>
     (CHR ''{'' \<notin> set (evt_actor e @ evt_event_type e @ evt_actor e' @ evt_event_type e') \<longrightarrow>
        evt_actor e @ evt_event_type e = evt_actor e' @ evt_event_type e' \<and>
        canonical_json fr (evt_payload e) = canonical_json fr (evt_payload e') \<and>
        (length (evt_actor e) = length (evt_actor e') \<longrightarrow>
           evt_actor e = evt_actor e' \<and> evt_event_type e = evt_event_type e'))"

lemma same_preimage:
  assumes eq: "row_preimage fr e = row_preimage fr e'"
    and prev: "evt_prev_event_hash e = evt_prev_event_hash e'" and hash: "evt_event_hash e = evt_event_hash e'"
  shows "same_hashed fr e e'"
proof -
  let ?t = "\<lambda>e. evt_actor e @ evt_event_type e" and ?j = "\<lambda>e. canonical_json fr (evt_payload e)"
    and ?i = "\<lambda>e. isoformat (evt_occurred_at e)"
  have ids: "evt_audit_event_id e = evt_audit_event_id e'" "evt_workflow_run_id e = evt_workflow_run_id e'"
    using row_preimage_ids [OF eq] by simp_all
  have "utf8 (?t e @ ?j e @ ?i e) = utf8 (?t e' @ ?j e' @ ?i e')"
    using eq prev ids by (simp add: row_preimage_def event_preimage_def)
  then have all: "?t e @ ?j e @ ?i e = ?t e' @ ?j e' @ ?i e'" by (simp only: utf8_inj)
  obtain p p' where p: "?j e = CHR ''{'' # p @ [CHR ''}'']" and p': "?j e' = CHR ''{'' # p' @ [CHR ''}'']"
    using canonical_json_braces by metis
  have whole: "(?t e @ CHR ''{'' # p) @ CHR ''}'' # ?i e = (?t e' @ CHR ''{'' # p') @ CHR ''}'' # ?i e'"
    using all p p' by simp
  have body: "?t e @ CHR ''{'' # p = ?t e' @ CHR ''{'' # p'" and time: "?i e = ?i e'"
    using split_last [OF whole isoformat_no_brace isoformat_no_brace] by (rule conjunct1, rule conjunct2)
  have inner: "?t e = ?t e' \<and> p = p'" if "CHR ''{'' \<notin> set (?t e)" "CHR ''{'' \<notin> set (?t e')"
    using split_first [OF body that] .
  have run: "?t e @ ?j e = ?t e' @ ?j e'" using arg_cong [OF body, of "\<lambda>s. s @ [CHR ''}'']"] p p' by simp
  have "?t e = ?t e' \<and> ?j e = ?j e' \<and>
      (length (evt_actor e) = length (evt_actor e') \<longrightarrow> evt_actor e = evt_actor e' \<and> evt_event_type e = evt_event_type e')"
    if "CHR ''{'' \<notin> set (evt_actor e @ evt_event_type e @ evt_actor e' @ evt_event_type e')"
  proof -
    have "CHR ''{'' \<notin> set (?t e)" "CHR ''{'' \<notin> set (?t e')" using that by simp_all
    then have tp: "?t e = ?t e'" "p = p'" using inner by blast+
    have "?j e = ?j e'" unfolding p p' tp(2) ..
    moreover have "evt_actor e = evt_actor e' \<and> evt_event_type e = evt_event_type e'"
      if "length (evt_actor e) = length (evt_actor e')" using tp(1) that by (simp add: append_eq_append_conv)
    ultimately show ?thesis using tp(1) by blast
  qed
  then show ?thesis
    unfolding same_hashed_def using ids prev hash time run by (intro conjI impI) simp_all
qed

lemma linked_nth: "linked fr p es \<Longrightarrow> j < length es \<Longrightarrow>
    evt_prev_event_hash (es ! j) = (if j = 0 then p else Some (evt_event_hash (es ! (j - 1)))) \<and>
    evt_event_hash (es ! j) = event_row_hash fr (es ! j)"
proof (induction fr p es arbitrary: j rule: linked.induct)
  case (2 fr p e es)
  show ?case
  proof (cases j)
    case (Suc i)
    with 2 show ?thesis by (cases i) auto
  qed (use 2 in simp)
qed simp

text \<open>The rows of two chains with the same hashed bytes throughout.\<close>

lemma same_preimages:
  assumes l: "linked fr None es" "linked fr None es'" and len: "length es = length es'"
    and eq: "\<forall>k < length es. row_preimage fr (es ! k) = row_preimage fr (es' ! k)" and k: "k < length es"
  shows "same_hashed fr (es ! k) (es' ! k)"
proof -
  have row: "evt_event_hash (xs ! j) = sha256 (row_preimage fr (xs ! j))" if "linked fr None xs" "j < length xs" for xs j
    using that by (auto simp: linked_nth event_row_hash_preimage)
  have hash: "evt_event_hash (es ! j) = evt_event_hash (es' ! j)" if "j < length es" for j
    using row [OF l(1) that] row [OF l(2)] that len eq by simp
  have "evt_prev_event_hash (xs ! j) = (if j = 0 then None else Some (evt_event_hash (xs ! (j - 1))))"
    if "linked fr None xs" "j < length xs" for xs j
    using that by (auto simp: linked_nth)
  then have "evt_prev_event_hash (es ! k) = evt_prev_event_hash (es' ! k)"
    using l k len hash [of "k - 1"] by simp
  with eq k hash [OF k] show ?thesis by (intro same_preimage) simp_all
qed

text \<open>The boundary between actor and event type can move.\<close>

lemma boundary_not_hashed:
  assumes "a @ t = a' @ t'"
  shows "row_preimage fr (e\<lparr>evt_actor := a, evt_event_type := t\<rparr>) = row_preimage fr (e\<lparr>evt_actor := a', evt_event_type := t'\<rparr>)"
  using arg_cong [OF assms, of utf8] by (simp add: row_preimage_def event_preimage_def flip: append_assoc)

subsection \<open>What the verifier reports\<close>

text \<open>The first failing index is reported.\<close>

lemma verify_events_least:
  assumes "verify_events fr idx p es = Some r"
  shows "\<exists>k < length es. \<not> vr_is_valid r \<and> vr_first_mismatch_index r = Some (idx + int k) \<and>
    linked fr p (take k es) \<and> \<not> linked fr p (take (Suc k) es)"
  using assms
proof (induction fr idx p es rule: verify_events.induct)
  case (2 fr idx p e es)
  show ?case
  proof (cases "evt_prev_event_hash e = p \<and> evt_event_hash e = event_row_hash fr e")
    case True
    with "2.prems" have "verify_events fr (idx + 1) (Some (evt_event_hash e)) es = Some r" by simp
    with "2.IH" True obtain k where "k < length es" "\<not> vr_is_valid r"
      "vr_first_mismatch_index r = Some (idx + 1 + int k)"
      "linked fr (Some (evt_event_hash e)) (take k es)"
      "\<not> linked fr (Some (evt_event_hash e)) (take (Suc k) es)" by auto
    with True show ?thesis by (intro exI [of _ "Suc k"]) auto
  next
    case False
    with "2.prems" show ?thesis
      by (intro exI [of _ 0]) (auto simp: mismatch_at_def split: if_splits)
  qed
qed simp

section \<open>The bits of a version 7 UUID\<close>

lemma uuid7_mask:
  "(0xFFFFFFFFFFFF :: 128 word) = mask 48" "(0xFFF :: 128 word) = mask 12"
  "(0x3FFFFFFFFFFFFFFF :: 128 word) = mask 62"
  by (simp_all add: mask_eq_exp_minus_1)


lemma uuid7_bits:
  "bit (uuid7_of t rs) n \<longleftrightarrow> n < 128 \<and>
     (if 80 \<le> n then bit (of_int t :: 128 word) (n - 80)
      else if 76 \<le> n then n < 79
      else if 64 \<le> n then
        bit (push_bit 4 (ucast (rs ! 0)) OR drop_bit 4 (ucast (rs ! 1)) :: 128 word) (n - 64)
      else if 62 \<le> n then n = 63
      else bit (be_int (drop 2 rs)) n)"
proof -
  have v7: "bit (7 :: 128 word) k \<longleftrightarrow> k < 3" for k
  proof -
    have m: "(7 :: 128 word) = mask 3" by (simp add: mask_eq_exp_minus_1)
    show ?thesis unfolding m by (auto simp: bit_mask_iff)
  qed
  have v2: "bit (2 :: 128 word) k \<longleftrightarrow> k = 1" for k
  proof -
    have "(2 :: 128 word) = push_bit 1 1" by simp
    then show ?thesis by (auto simp: bit_simps)
  qed
  show ?thesis
    unfolding uuid7_of_def Let_def uuid7_mask
    by (simp only: bit_or_iff bit_push_bit_iff bit_and_iff bit_mask_iff v7 v2) auto
qed

lemma uuid7_timestamp: "drop_bit 80 (uuid7_of t rs) = of_int t AND mask 48"
  by (rule bit_word_eqI) (auto simp: bit_simps uuid7_bits)

lemma uuid7_version: "drop_bit 76 (uuid7_of t rs) AND mask 4 = 7"
proof -
  have m: "(7 :: 128 word) = mask 3" by (simp add: mask_eq_exp_minus_1)
  show ?thesis unfolding m by (rule bit_word_eqI) (auto simp: bit_simps uuid7_bits)
qed

lemma uuid7_variant: "drop_bit 62 (uuid7_of t rs) AND mask 2 = 2"
proof -
  have m: "(2 :: 128 word) = push_bit 1 (mask 1)" by (simp add: mask_eq_exp_minus_1)
  show ?thesis unfolding m by (rule bit_word_eqI) (auto simp: bit_simps uuid7_bits)
qed

text \<open>Identifiers drawn in different milliseconds are in the order of their times.\<close>

lemma uuid7_ordered:
  assumes "0 \<le> t" "t < t'" "t' < 2 ^ 48"
  shows "uuid7_of t rs < uuid7_of t' rs'"
proof -
  have ts: "uint (uuid7_of t rs) div 2 ^ 80 = t" if "0 \<le> t" "t < 2 ^ 48" for t rs
  proof -
    have "uint (drop_bit 80 (uuid7_of t rs)) = uint (of_int t AND mask 48 :: 128 word)"
      by (simp only: uuid7_timestamp)
    then have "uint (uuid7_of t rs) div 2 ^ 80 = uint (of_int t :: 128 word) mod 2 ^ 48"
      using uint_bounded [of "uuid7_of t rs"]
      by (simp only: unsigned_drop_bit_eq take_bit_eq_mask [symmetric] unsigned_take_bit_eq)
        (simp only: drop_bit_eq_div take_bit_eq_mod, simp)
    moreover have "uint (of_int t :: 128 word) = t"
      using that by (simp add: word_uint_eqI uint_word_of_int)
    ultimately show ?thesis using that by simp
  qed
  have "uint (uuid7_of t rs) div 2 ^ 80 < uint (uuid7_of t' rs') div 2 ^ 80"
    using ts assms by simp
  then have "uint (uuid7_of t rs) < uint (uuid7_of t' rs')"
    using zdiv_mono1 [of "uint (uuid7_of t' rs')" "uint (uuid7_of t rs)" "2 ^ 80"]
    by (meson linorder_not_le not_less zero_less_numeral zero_less_power)
  then show ?thesis by (simp add: word_less_def)
qed

lemma append_audit_event_ok:
  assumes "append_audit_event i et actor p s sa w = (Inr m, w')"
  shows "w_db w' = (w_db w)\<lparr>audit_events := audit_events (w_db w) @ [m]\<rparr> \<and>
    evt_workflow_run_id m = i \<and> evt_event_type m = et \<and> evt_actor m = actor \<and> evt_payload m = p \<and>
    evt_step_id m = s \<and> evt_step_attempt_id m = sa"
  using assms
  by (auto simp: append_audit_event_def audit_get_latest_for_run_def uuid7_def audit_append_def Let_def
      split: prod.splits elim!: bindE_InrD insert_audit_event_cases dest!: scalar_ok draws_ok)

lemmas run_ok = insert_ok update_ok draws_ok lookup_ok create_ok append_audit_event_ok

section \<open>Success\<close>

text \<open>When an append goes through, and what it returns.\<close>

definition event_id_fresh :: "'z world_scheme \<Rightarrow> bool" where
  "event_id_fresh w \<longleftrightarrow> uuid7_of (w_now w (w_now_n w) div 1000) (w_urandom w (w_urandom_n w))
     \<notin> evt_audit_event_id ` set (audit_events (w_db w))"

lemma event_key_fresh:
  assumes "chain_ok fr (events_of_run i d)"
  shows "(i, int (length (events_of_run i d)) + 1) \<notin> event_key ` set (audit_events d)"
proof
  assume "(i, int (length (events_of_run i d)) + 1) \<in> event_key ` set (audit_events d)"
  then obtain e where "e \<in> set (events_of_run i d)" "evt_seq_in_run e = int (length (events_of_run i d)) + 1"
    by (auto simp: event_key_def events_of_run_def)
  then show False using chain_seq_nth [OF assms] by (auto simp: in_set_conv_nth)
qed

lemma event_draft_prev_len:
  assumes "chain_ok (w_float_repr w) (events_of_run i (w_db w))"
  shows "case evt_prev_event_hash (event_draft w i et actor p s sa) of None \<Rightarrow> True | Some h \<Rightarrow> length h = 32"
  using assms linked_hash_len [of "w_float_repr w" None "events_of_run i (w_db w)"]
  by (auto simp: event_draft_def Let_def chain_ok_def)

lemma event_draft_hash_len [simp]: "length (evt_event_hash (event_draft w i et actor p s sa)) = 32"
  by (simp add: event_draft_def Let_def compute_event_hash_def)

definition appended :: "'z world_scheme \<Rightarrow> string \<Rightarrow> AuditEventModel \<Rightarrow> 'z world_scheme" where
  "appended w et m = w\<lparr>w_urandom_n := Suc (w_urandom_n w), w_now_n := Suc (Suc (w_now_n w)),
     w_db := (w_db w)\<lparr>audit_events := audit_events (w_db w) @ [m]\<rparr>,
     w_metrics := w_metrics w @ [(''audit_events_appended_total'', [et])]\<rparr>"

lemma append_audit_event_succeeds:
  assumes ok: "chain_ok (w_float_repr w) (events_of_run i (w_db w))" and fresh: "event_id_fresh w"
    and run: "i \<in> run_workflow_run_id ` set (workflow_runs (w_db w))"
    and fk: "fk_opt s (stp_step_id ` set (steps (w_db w)))"
      "fk_opt sa (att_step_attempt_id ` set (step_attempts (w_db w)))"
  shows "append_audit_event i et actor p s sa w =
    (Inr (event_draft w i et actor p s sa), appended w et (event_draft w i et actor p s sa))"
proof -
  let ?m = "event_draft w i et actor p s sa"
  let ?w = "w\<lparr>w_urandom_n := Suc (w_urandom_n w), w_now_n := Suc (Suc (w_now_n w))\<rparr>"
  have id: "evt_audit_event_id ?m \<notin> evt_audit_event_id ` set (audit_events (w_db w))"
    using fresh by (simp add: event_id_fresh_def event_draft_def Let_def)
  have key: "event_key ?m \<notin> event_key ` set (audit_events (w_db w))"
    using event_key_fresh [OF ok] by (simp add: event_key_def)
  have "insert_audit_event ?m ?w =
      (Inr (), ?w\<lparr>w_db := (w_db w)\<lparr>audit_events := audit_events (w_db w) @ [?m]\<rparr>\<rparr>)"
    using id key run fk event_draft_prev_len [OF ok, of et actor p s sa]
    by (simp add: insert_audit_event_def)
  then show ?thesis by (simp add: append_audit_event_run [OF ok] metric_def appended_def)
qed

text \<open>The columns that link a row to its step are not covered by its hash.\<close>

lemma step_columns_not_covered:
  "event_row_hash fr (e\<lparr>evt_step_id := s, evt_step_attempt_id := a, evt_seq_in_run := n\<rparr>) = event_row_hash fr e \<and>
   (verify_events fr idx p [e\<lparr>evt_step_id := s, evt_step_attempt_id := a, evt_seq_in_run := n\<rparr>] = None \<longleftrightarrow>
      verify_events fr idx p [e] = None)"
  by (auto simp: event_row_hash_def mismatch_at_def)

end
