(* ===== verification/Workflows.thy ===== *)
theory Workflows
  imports Storage
begin

text \<open>
  \<open>src/insuranceops/workflows/retry.py\<close>, \<open>registry.py\<close> and
  \<open>definitions/claim_intake_v1.py\<close>: backoff delays, the registry of workflow definitions and
  the one definition the program registers. Delays are exact rationals.
\<close>

section \<open>Retry policies\<close>

record RetryPolicy =
  base_delay_s :: rat
  cap_s :: rat
  jitter :: string

definition default_retry_policy :: RetryPolicy where
  "default_retry_policy = \<lparr>base_delay_s = 2, cap_s = 60, jitter = ''full''\<rparr>"

text \<open>Python's \<open>2 ** n\<close> for an integer exponent of either sign.\<close>

definition py_pow2 :: "int \<Rightarrow> rat" where
  "py_pow2 n = (if 0 \<le> n then 2 ^ nat n else 1 / 2 ^ nat (- n))"

definition backoff_raw :: "RetryPolicy \<Rightarrow> int \<Rightarrow> rat" where
  "backoff_raw policy attempt_number =
     min (cap_s policy) (base_delay_s policy * py_pow2 (attempt_number - 1))"

definition compute_backoff_delay :: "RetryPolicy \<Rightarrow> int \<Rightarrow> ('z, rat) wexec" where
  "compute_backoff_delay policy attempt_number =
     (let raw = backoff_raw policy attempt_number in
      if jitter policy = ''full'' then uniform 0 raw else returnE raw)"

section \<open>Definitions and their registry\<close>

record StepDefinition =
  sd_step_name :: string
  sd_handler_name :: string
  sd_step_index :: int
  sd_max_attempts :: int
  sd_escalate_on_failure :: bool
  sd_retry_policy :: RetryPolicy
  sd_timeout_seconds :: int

record WorkflowDefinition =
  wd_workflow_name :: string
  wd_workflow_version :: string
  wd_steps :: "StepDefinition list"
  wd_deadline_seconds :: int

text \<open>The dictionary of the registry, in insertion order.\<close>

type_synonym WorkflowRegistry = "((string \<times> string) \<times> WorkflowDefinition) list"

definition register :: "WorkflowRegistry \<Rightarrow> WorkflowDefinition \<Rightarrow> exn + WorkflowRegistry" where
  "register reg d =
     (let key = (wd_workflow_name d, wd_workflow_version d) in
      if key \<in> fst ` set reg
      then Inl (ValueError (''Workflow already registered: '' @ wd_workflow_name d @ '' ''
                            @ wd_workflow_version d))
      else Inr (reg @ [(key, d)]))"

definition registry_get :: "WorkflowRegistry \<Rightarrow> string \<Rightarrow> string \<Rightarrow> WorkflowDefinition option" where
  "registry_get reg name version = map_of reg (name, version)"

text \<open>\<open>max(xs, key=k)\<close>: the first of the elements with the largest key.\<close>

fun py_max_by :: "('a \<Rightarrow> 'k::linorder) \<Rightarrow> 'a \<Rightarrow> 'a list \<Rightarrow> 'a" where
  "py_max_by k m [] = m"
| "py_max_by k m (x # xs) = py_max_by k (if k m < k x then x else m) xs"

definition get_latest :: "WorkflowRegistry \<Rightarrow> string \<Rightarrow> WorkflowDefinition option" where
  "get_latest reg name =
     (case map snd (filter (\<lambda>((n, _), _). n = name) reg) of
        [] \<Rightarrow> None
      | c # cs \<Rightarrow> Some (py_max_by wd_workflow_version c cs))"

definition list_all_definitions :: "WorkflowRegistry \<Rightarrow> WorkflowDefinition list" where
  "list_all_definitions reg = map snd reg"

definition claim_intake_v1 :: WorkflowDefinition where
  "claim_intake_v1 =
     \<lparr>wd_workflow_name = ''claim_intake'', wd_workflow_version = ''v1'',
      wd_steps =
       [\<lparr>sd_step_name = ''ingest'', sd_handler_name = ''ingest'', sd_step_index = 0,
         sd_max_attempts = 1, sd_escalate_on_failure = False,
         sd_retry_policy = default_retry_policy, sd_timeout_seconds = 30\<rparr>,
        \<lparr>sd_step_name = ''extract'', sd_handler_name = ''extract'', sd_step_index = 1,
         sd_max_attempts = 3, sd_escalate_on_failure = True,
         sd_retry_policy = \<lparr>base_delay_s = 2, cap_s = 30, jitter = ''full''\<rparr>,
         sd_timeout_seconds = 30\<rparr>,
        \<lparr>sd_step_name = ''validate'', sd_handler_name = ''validate'', sd_step_index = 2,
         sd_max_attempts = 1, sd_escalate_on_failure = True,
         sd_retry_policy = default_retry_policy, sd_timeout_seconds = 30\<rparr>,
        \<lparr>sd_step_name = ''route'', sd_handler_name = ''route'', sd_step_index = 3,
         sd_max_attempts = 2, sd_escalate_on_failure = False,
         sd_retry_policy = default_retry_policy, sd_timeout_seconds = 30\<rparr>,
        \<lparr>sd_step_name = ''complete'', sd_handler_name = ''complete'', sd_step_index = 4,
         sd_max_attempts = 1, sd_escalate_on_failure = False,
         sd_retry_policy = default_retry_policy, sd_timeout_seconds = 30\<rparr>],
      wd_deadline_seconds = 3600\<rparr>"

text \<open>The global registry after the import of the definitions.\<close>

definition registry :: WorkflowRegistry where
  "registry = (case register [] claim_intake_v1 of Inr r \<Rightarrow> r | Inl _ \<Rightarrow> [])"

section \<open>Durations\<close>

text \<open>\<open>timedelta(seconds=x)\<close>: to the nearest microsecond, ties to the even one.\<close>

definition round_half_even :: "rat \<Rightarrow> int" where
  "round_half_even x =
     (let f = \<lfloor>x\<rfloor>; d = x - of_int f in
      if d < 1 / 2 then f else if d > 1 / 2 then f + 1 else if even f then f else f + 1)"

definition timedelta_seconds :: "rat \<Rightarrow> time" where
  "timedelta_seconds x = round_half_even (x * 1000000)"

lemma round_half_even_mono: "x \<le> y \<Longrightarrow> round_half_even x \<le> round_half_even y"
proof -
  assume le: "x \<le> y"
  show ?thesis
  proof (cases "\<lfloor>x\<rfloor> = \<lfloor>y\<rfloor>")
    case True
    with le show ?thesis by (auto simp: round_half_even_def Let_def)
  next
    case False
    with le have "\<lfloor>x\<rfloor> + 1 \<le> \<lfloor>y\<rfloor>" using floor_mono [OF le] by linarith
    then show ?thesis by (auto simp: round_half_even_def Let_def)
  qed
qed

lemma round_half_even_int [simp]: "round_half_even (of_int n) = n"
  by (simp add: round_half_even_def)

lemma timedelta_seconds_mono: "x \<le> y \<Longrightarrow> timedelta_seconds x \<le> timedelta_seconds y"
  by (simp add: timedelta_seconds_def round_half_even_mono)

lemma timedelta_seconds_int [simp]: "timedelta_seconds (of_int n) = n * 1000000"
  using round_half_even_int [of "n * 1000000"] by (simp add: timedelta_seconds_def)

section \<open>Backoff\<close>

lemma py_pow2_pos: "0 < py_pow2 n"
  by (simp add: py_pow2_def)

lemma py_pow2_mono: "m \<le> n \<Longrightarrow> py_pow2 m \<le> py_pow2 n"
proof -
  assume mn: "m \<le> n"
  consider "0 \<le> m" | "m < 0" "0 \<le> n" | "n < 0" using mn by linarith
  then show ?thesis
  proof cases
    case 1 with mn show ?thesis by (simp add: py_pow2_def power_increasing)
  next
    case 2
    have "1 / 2 ^ nat (- m) \<le> (1 :: rat)" "(1 :: rat) \<le> 2 ^ nat n" by simp_all
    then have "1 / 2 ^ nat (- m) \<le> (2 :: rat) ^ nat n" by (rule order_trans)
    with 2 show ?thesis by (simp add: py_pow2_def)
  next
    case 3
    with mn have "(2 :: rat) ^ nat (- n) \<le> 2 ^ nat (- m)" by (intro power_increasing) auto
    with 3 mn show ?thesis by (simp add: py_pow2_def frac_le)
  qed
qed

lemma backoff_raw_mono:
  "0 \<le> base_delay_s p \<Longrightarrow> m \<le> n \<Longrightarrow> backoff_raw p m \<le> backoff_raw p n"
  using py_pow2_mono [of "m - 1" "n - 1"]
  by (auto simp: backoff_raw_def min_def intro: order_trans mult_left_mono)

lemma backoff_delay_bounds:
  assumes "0 \<le> base_delay_s p" "0 \<le> cap_s p" "\<And>k. 0 \<le> w_random w k \<and> w_random w k < 1"
    and run: "compute_backoff_delay p n w = (Inr delay, w')"
  shows "0 \<le> delay \<and> delay \<le> backoff_raw p n \<and> backoff_raw p n \<le> cap_s p"
proof -
  have raw: "0 \<le> backoff_raw p n"
    using assms(1,2) py_pow2_pos [of "n - 1"] by (simp add: backoff_raw_def)
  have "0 \<le> w_random w (w_random_n w)" "w_random w (w_random_n w) \<le> 1" using assms(3) less_imp_le by auto
  with raw have "0 \<le> backoff_raw p n * w_random w (w_random_n w)"
    "backoff_raw p n * w_random w (w_random_n w) \<le> backoff_raw p n"
    by (simp_all add: mult_left_le)
  with raw run show ?thesis
    by (auto simp: compute_backoff_delay_def uniform_def Let_def backoff_raw_def split: if_splits)
qed

section \<open>The registry\<close>

lemma registry_eq: "registry = [((''claim_intake'', ''v1''), claim_intake_v1)]"
  by (simp add: registry_def register_def claim_intake_v1_def)

lemma register_get:
  assumes "register reg d = Inr reg'"
  shows "registry_get reg' n v =
    (if (n, v) = (wd_workflow_name d, wd_workflow_version d) then Some d else registry_get reg n v)"
  using assms
  by (auto simp: register_def registry_get_def Let_def map_add_def split: if_splits option.splits
      dest: map_of_SomeD) (metis fst_conv image_eqI map_of_SomeD option.exhaust)

lemma py_max_by_max:
  "py_max_by k m xs \<in> insert m (set xs) \<and> (\<forall>x \<in> insert m (set xs). k x \<le> k (py_max_by k m xs))"
  by (induction k m xs rule: py_max_by.induct) (auto split: if_splits)

end
