(* ===== verification/Orchestrator.thy ===== *)
theory Orchestrator
  imports Audit_Chain Workflows
begin

text \<open>
  \<open>src/insuranceops/workflows/orchestrator.py\<close>: starting a run, moving it on the result of a
  step, resuming it after an escalation and cancelling it. Each method works inside the
  caller's transaction. The registry is the argument \<open>reg\<close>.
\<close>

record StepResult =
  sr_status :: string
  sr_output :: "dict option"
  sr_error_code :: "string option"
  sr_error_detail :: "string option"

text \<open>\<open>x or default\<close> on optional text.\<close>

definition or_default :: "string option \<Rightarrow> string \<Rightarrow> string" where
  "or_default v d = (case v of Some s \<Rightarrow> if s \<noteq> [] then s else d | None \<Rightarrow> d)"

definition hour_us :: time where
  "hour_us = 3600000000"

section \<open>Starting a run\<close>

definition retry_policy_json :: "RetryPolicy \<Rightarrow> dict" where
  "retry_policy_json p =
     [(''base_delay_s'', JFloat (base_delay_s p)), (''cap_s'', JFloat (cap_s p)),
      (''jitter'', JStr (jitter p))]"

definition fresh_run ::
  "uuid \<Rightarrow> string \<Rightarrow> string \<Rightarrow> time \<Rightarrow> int \<Rightarrow> string \<Rightarrow> WorkflowRunModel" where
  "fresh_run rid name version now deadline actor =
     \<lparr>run_workflow_run_id = rid, run_workflow_name = name, run_workflow_version = version,
      run_state = pending, run_version = 0, run_current_step_id = None, run_created_at = now,
      run_updated_at = now, run_deadline_at = now + timedelta_seconds (of_int deadline),
      run_reference_data_snapshot_id = None, run_created_by = actor,
      run_last_error_code = None, run_last_error_detail = None\<rparr>"

definition mk_step :: "uuid \<Rightarrow> time \<Rightarrow> uuid \<Rightarrow> StepDefinition \<Rightarrow> StepModel" where
  "mk_step workflow_run_id now step_id sd =
     \<lparr>stp_step_id = step_id, stp_workflow_run_id = workflow_run_id,
      stp_step_name = sd_step_name sd, stp_step_index = sd_step_index sd, stp_state = queued,
      stp_max_attempts = sd_max_attempts sd, stp_escalate_on_failure = sd_escalate_on_failure sd,
      stp_retry_policy = retry_policy_json (sd_retry_policy sd), stp_created_at = now,
      stp_started_at = None, stp_ended_at = None\<rparr>"

definition mk_attempt ::
  "uuid \<Rightarrow> uuid \<Rightarrow> int \<Rightarrow> time option \<Rightarrow> time \<Rightarrow> StepAttemptModel" where
  "mk_attempt attempt_id step_id number scheduled_for now =
     \<lparr>att_step_attempt_id = attempt_id, att_step_id = step_id, att_step_attempt_number = number,
      att_state = queued, att_origin = system, att_extractor_name = None,
      att_extractor_version = None, att_validator_name = None, att_validator_version = None,
      att_input_ref = None, att_output_ref = None, att_error_code = None, att_error_detail = None,
      att_started_at = None, att_ended_at = None, att_scheduled_for = scheduled_for,
      att_created_at = now\<rparr>"

definition mk_outbox ::
  "uuid \<Rightarrow> uuid \<Rightarrow> uuid \<Rightarrow> dict \<Rightarrow> time \<Rightarrow> time \<Rightarrow> TasksOutboxModel" where
  "mk_outbox run step attempt payload scheduled_for now =
     \<lparr>obx_outbox_id = 0, obx_workflow_run_id = run, obx_step_id = step,
      obx_step_attempt_id = attempt, obx_payload = payload, obx_scheduled_for = scheduled_for,
      obx_enqueued_at = None, obx_attempts = 0, obx_last_error = None, obx_created_at = now\<rparr>"

text \<open>The payload of a task, as the three places that write one build it.\<close>

definition task_payload ::
  "uuid \<Rightarrow> string \<Rightarrow> string \<Rightarrow> uuid \<Rightarrow> uuid \<Rightarrow> string \<Rightarrow> string \<Rightarrow> string \<Rightarrow> string list \<Rightarrow> dict" where
  "task_payload run name version step attempt step_name handler_name correlation_id document_ids =
     [(''workflow_run_id'', JStr (uuid_str run)), (''workflow_name'', JStr name),
      (''workflow_version'', JStr version), (''step_id'', JStr (uuid_str step)),
      (''step_attempt_id'', JStr (uuid_str attempt)), (''step_name'', JStr step_name),
      (''handler_name'', JStr handler_name), (''correlation_id'', JStr correlation_id),
      (''document_ids'', JArr (map JStr document_ids))]"

definition mk_steps :: "uuid \<Rightarrow> time \<Rightarrow> StepDefinition list \<Rightarrow> ('z, StepModel list) wexec" where
  "mk_steps workflow_run_id now defs = foldE defs (\<lambda>sd models.
     bindE uuid4 (\<lambda>step_id. returnE (models @ [mk_step workflow_run_id now step_id sd]))) []"

definition effective_deadline :: "int option \<Rightarrow> WorkflowDefinition \<Rightarrow> int" where
  "effective_deadline deadline_seconds definition = (case deadline_seconds of
     Some n \<Rightarrow> if n \<noteq> 0 then n else wd_deadline_seconds definition
   | None \<Rightarrow> wd_deadline_seconds definition)"

text \<open>The first attempt and its task, once the steps are in the database.\<close>

definition queue_first_step ::
  "WorkflowDefinition \<Rightarrow> uuid \<Rightarrow> string \<Rightarrow> string \<Rightarrow> StepModel \<Rightarrow> time \<Rightarrow> uuid list \<Rightarrow> string \<Rightarrow>
   ('z, unit) wexec" where
  "queue_first_step definition workflow_run_id workflow_name workflow_version first_step now
     document_ids correlation_id =
     bindE uuid4 (\<lambda>first_attempt_id.
     bindE (attempt_create (mk_attempt first_attempt_id (stp_step_id first_step) 1 None now)) (\<lambda>_.
     bindE (update_run workflow_run_id
       (\<lambda>r. r\<lparr>run_current_step_id := Some (stp_step_id first_step)\<rparr>)) (\<lambda>_.
     bindE (outbox_create (mk_outbox workflow_run_id (stp_step_id first_step) first_attempt_id
       (task_payload workflow_run_id workflow_name workflow_version (stp_step_id first_step)
         first_attempt_id (stp_step_name first_step)
         (sd_handler_name (hd (wd_steps definition))) correlation_id (map uuid_str document_ids))
       now now)) (\<lambda>_.
     returnE ()))))"

text \<open>The returned run is given by its identifier: the row it names is in the database.\<close>

definition start_workflow_run ::
  "WorkflowRegistry \<Rightarrow> string \<Rightarrow> string \<Rightarrow> uuid list \<Rightarrow> string \<Rightarrow> string \<Rightarrow> int option \<Rightarrow>
   ('z, uuid) wexec" where
  "start_workflow_run reg workflow_name workflow_version document_ids actor correlation_id
     deadline_seconds =
   (case registry_get reg workflow_name workflow_version of
      None \<Rightarrow> raiseE (ValueError (''Workflow definition not found: '' @ workflow_name @ '' ''
                                 @ workflow_version))
    | Some definition \<Rightarrow>
     bindE now_utc (\<lambda>now.
     bindE uuid4 (\<lambda>workflow_run_id.
     bindE (run_create (fresh_run workflow_run_id workflow_name workflow_version now
       (effective_deadline deadline_seconds definition) actor)) (\<lambda>_.
     bindE (forE document_ids (\<lambda>doc_id.
       insert_run_document \<lparr>rd_workflow_run_id = workflow_run_id, rd_document_id = doc_id,
         rd_attached_at = now\<rparr>)) (\<lambda>_.
     bindE (mk_steps workflow_run_id now (wd_steps definition)) (\<lambda>step_models.
     bindE (step_create_many step_models) (\<lambda>_.
     case step_models of [] \<Rightarrow> raiseE IndexError | first_step # _ \<Rightarrow>
     bindE (queue_first_step definition workflow_run_id workflow_name workflow_version first_step now
       document_ids correlation_id) (\<lambda>_.
     bindE (append_audit_event workflow_run_id ''workflow_run.started'' actor
       [(''workflow_name'', JStr workflow_name), (''workflow_version'', JStr workflow_version),
        (''document_ids'', JArr (map (\<lambda>d. JStr (uuid_str d)) document_ids)),
        (''correlation_id'', JStr correlation_id),
        (''deadline_seconds'', JInt (effective_deadline deadline_seconds definition))]
       None None) (\<lambda>_.
     bindE now_utc (\<lambda>now2.
     bindE (update_run workflow_run_id
       (\<lambda>r. r\<lparr>run_state := running, run_version := 1, run_updated_at := now2\<rparr>)) (\<lambda>_.
     returnE workflow_run_id)))))))))))"

section \<open>The outcomes of a step\<close>

definition get_document_ids :: "uuid \<Rightarrow> ('z, string list) wexec" where
  "get_document_ids workflow_run_id = read_db (\<lambda>d.
     map (\<lambda>r. uuid_str (rd_document_id r))
       (filter (\<lambda>r. rd_workflow_run_id r = workflow_run_id) (workflow_run_documents d)))"

text \<open>The handler's name from the definition, by default the step's.\<close>

definition lookup_handler_name :: "WorkflowRegistry \<Rightarrow> string \<Rightarrow> string \<Rightarrow> string \<Rightarrow> string" where
  "lookup_handler_name reg name version step_name =
     (case registry_get reg name version of
        None \<Rightarrow> step_name
      | Some definition \<Rightarrow>
          (case find (\<lambda>sd. sd_step_name sd = step_name) (wd_steps definition) of
             None \<Rightarrow> step_name | Some sd \<Rightarrow> sd_handler_name sd))"

text \<open>The run's state, version, time and error columns, as the terminal branches write them.\<close>

definition close_run ::
  "WorkflowRunState \<Rightarrow> time \<Rightarrow> string option \<Rightarrow> string option \<Rightarrow> WorkflowRunModel \<Rightarrow> WorkflowRunModel" where
  "close_run st now code detail r =
     r\<lparr>run_state := st, run_version := run_version r + 1, run_updated_at := now,
       run_last_error_code := code, run_last_error_detail := detail\<rparr>"

definition handle_succeeded ::
  "WorkflowRegistry \<Rightarrow> WorkflowRunModel \<Rightarrow> StepModel list \<Rightarrow> StepModel \<Rightarrow> time \<Rightarrow> ('z, string) wexec" where
  "handle_succeeded reg workflow_run run_steps current_step now =
     bindE (update_step (stp_step_id current_step)
       (\<lambda>s. s\<lparr>stp_state := succeeded, stp_ended_at := Some now\<rparr>)) (\<lambda>_.
     case find (\<lambda>s. stp_step_index s = stp_step_index current_step + 1) run_steps of
       None \<Rightarrow>
         bindE (update_run (run_workflow_run_id workflow_run)
           (\<lambda>r. r\<lparr>run_state := completed, run_version := run_version r + 1, run_updated_at := now\<rparr>)) (\<lambda>_.
         bindE (metric ''workflow_run_duration_seconds''
           [run_workflow_name workflow_run, run_workflow_version workflow_run, ''completed'']) (\<lambda>_.
         bindE (append_audit_event (run_workflow_run_id workflow_run) ''workflow_run.completed''
           ''worker:orchestrator'' [(''final_step'', JStr (stp_step_name current_step))]
           (Some (stp_step_id current_step)) None) (\<lambda>_.
         returnE ''completed'')))
     | Some next_step \<Rightarrow>
         bindE uuid4 (\<lambda>next_attempt_id.
         bindE (attempt_create (mk_attempt next_attempt_id (stp_step_id next_step) 1 None now)) (\<lambda>_.
         bindE (update_run (run_workflow_run_id workflow_run)
           (\<lambda>r. r\<lparr>run_current_step_id := Some (stp_step_id next_step), run_updated_at := now\<rparr>)) (\<lambda>_.
         let handler_name = lookup_handler_name reg (run_workflow_name workflow_run)
               (run_workflow_version workflow_run) (stp_step_name next_step) in
         bindE (get_document_ids (run_workflow_run_id workflow_run)) (\<lambda>document_ids.
         bindE (outbox_create (mk_outbox (run_workflow_run_id workflow_run) (stp_step_id next_step)
           next_attempt_id
           (task_payload (run_workflow_run_id workflow_run) (run_workflow_name workflow_run)
             (run_workflow_version workflow_run) (stp_step_id next_step) next_attempt_id
             (stp_step_name next_step) handler_name [] document_ids) now now)) (\<lambda>_.
         bindE (append_audit_event (run_workflow_run_id workflow_run) ''step.advanced''
           ''worker:orchestrator''
           [(''from_step'', JStr (stp_step_name current_step)),
            (''to_step'', JStr (stp_step_name next_step))]
           (Some (stp_step_id next_step)) (Some next_attempt_id)) (\<lambda>_.
         returnE ''running'')))))))"

definition new_escalation ::
  "uuid \<Rightarrow> string \<Rightarrow> WorkflowRunModel \<Rightarrow> StepModel \<Rightarrow> StepResult \<Rightarrow> time \<Rightarrow> EscalationCaseModel" where
  "new_escalation eid code run step res now =
     \<lparr>esc_escalation_id = eid, esc_workflow_run_id = run_workflow_run_id run,
      esc_step_id = stp_step_id step, esc_state = esc_open,
      esc_reason_code = or_default (sr_error_code res) code,
      esc_reason_detail = sr_error_detail res, esc_claimed_by = None,
      esc_claimed_at = None, esc_resolved_by = None, esc_resolved_at = None,
      esc_resolution_payload = None, esc_expires_at = now + 24 * hour_us, esc_created_at = now\<rparr>"

text \<open>Shared by the two ways of asking for a human: the case, the run's state, the event.\<close>

definition open_escalation ::
  "string \<Rightarrow> WorkflowRunModel \<Rightarrow> StepModel \<Rightarrow> StepResult \<Rightarrow> time \<Rightarrow> ('z, string) wexec" where
  "open_escalation default_code workflow_run current_step step_result now =
     bindE uuid4 (\<lambda>escalation_id.
     bindE (escalation_create
       (new_escalation escalation_id default_code workflow_run current_step step_result now)) (\<lambda>_.
     bindE (update_run (run_workflow_run_id workflow_run)
       (close_run awaiting_human now (sr_error_code step_result) (sr_error_detail step_result))) (\<lambda>_.
     bindE (append_audit_event (run_workflow_run_id workflow_run) ''escalation.created''
       ''worker:orchestrator''
       [(''escalation_id'', JStr (uuid_str escalation_id)),
        (''step_name'', JStr (stp_step_name current_step)),
        (''reason_code'', JStr (or_default (sr_error_code step_result) default_code)),
        (''reason_detail'', jstr_opt (sr_error_detail step_result))]
       (Some (stp_step_id current_step)) None) (\<lambda>_.
     returnE ''awaiting_human''))))"

definition handle_failed_terminal ::
  "WorkflowRunModel \<Rightarrow> StepModel \<Rightarrow> StepResult \<Rightarrow> time \<Rightarrow> ('z, string) wexec" where
  "handle_failed_terminal workflow_run current_step step_result now =
     bindE (update_step (stp_step_id current_step)
       (\<lambda>s. s\<lparr>stp_state := failed_terminal, stp_ended_at := Some now\<rparr>)) (\<lambda>_.
     if stp_escalate_on_failure current_step
     then open_escalation ''STEP_FAILED_TERMINAL'' workflow_run current_step step_result now
     else
       bindE (update_run (run_workflow_run_id workflow_run)
         (close_run failed now (sr_error_code step_result) (sr_error_detail step_result))) (\<lambda>_.
       bindE (metric ''workflow_run_duration_seconds''
         [run_workflow_name workflow_run, run_workflow_version workflow_run, ''failed'']) (\<lambda>_.
       bindE (append_audit_event (run_workflow_run_id workflow_run) ''workflow_run.failed''
         ''worker:orchestrator''
         [(''step_name'', JStr (stp_step_name current_step)),
          (''error_code'', jstr_opt (sr_error_code step_result)),
          (''error_detail'', jstr_opt (sr_error_detail step_result))]
         (Some (stp_step_id current_step)) None) (\<lambda>_.
       returnE ''failed''))))"

definition handle_escalate ::
  "WorkflowRunModel \<Rightarrow> StepModel \<Rightarrow> StepResult \<Rightarrow> time \<Rightarrow> ('z, string) wexec" where
  "handle_escalate workflow_run current_step step_result now =
     open_escalation ''STEP_ESCALATED'' workflow_run current_step step_result now"

text \<open>
  The policy read back from the step's JSON column. A delay that is not a number makes the
  arithmetic of the backoff raise; any jitter but the text \<open>full\<close> means no jitter.
\<close>

definition json_number :: "json \<Rightarrow> exn + rat" where
  "json_number v = (case v of JInt n \<Rightarrow> Inr (of_int n) | JFloat x \<Rightarrow> Inr x
     | JBool b \<Rightarrow> Inr (if b then 1 else 0) | _ \<Rightarrow> Inl (TypeError ''unsupported operand type(s)''))"

definition policy_of_json :: "dict \<Rightarrow> exn + RetryPolicy" where
  "policy_of_json d =
     (case json_number (dict_get_or d ''base_delay_s'' (JFloat 2)) of
        Inl e \<Rightarrow> Inl e
      | Inr b \<Rightarrow> (case json_number (dict_get_or d ''cap_s'' (JFloat 60)) of
          Inl e \<Rightarrow> Inl e
        | Inr c \<Rightarrow> Inr \<lparr>base_delay_s = b, cap_s = c,
            jitter = (case dict_get_or d ''jitter'' (JStr ''full'') of JStr s \<Rightarrow> s | _ \<Rightarrow> [])\<rparr>))"

definition handle_failed_retryable ::
  "WorkflowRegistry \<Rightarrow> WorkflowRunModel \<Rightarrow> StepModel \<Rightarrow> StepResult \<Rightarrow> time \<Rightarrow> ('z, string) wexec" where
  "handle_failed_retryable reg workflow_run current_step step_result now =
     bindE (attempt_list_by_step (stp_step_id current_step)) (\<lambda>attempts.
     let attempt_count = int (length attempts) in
     if attempt_count < stp_max_attempts current_step
     then
       (case policy_of_json (stp_retry_policy current_step) of
          Inl e \<Rightarrow> raiseE e
        | Inr policy \<Rightarrow>
         bindE (compute_backoff_delay policy attempt_count) (\<lambda>delay.
         let scheduled_for = now + timedelta_seconds delay in
         bindE uuid4 (\<lambda>new_attempt_id.
         bindE (attempt_create (mk_attempt new_attempt_id (stp_step_id current_step)
           (attempt_count + 1) (Some scheduled_for) now)) (\<lambda>_.
         bindE (update_step (stp_step_id current_step) (\<lambda>s. s\<lparr>stp_state := failed_retryable\<rparr>)) (\<lambda>_.
         let handler_name = lookup_handler_name reg (run_workflow_name workflow_run)
               (run_workflow_version workflow_run) (stp_step_name current_step) in
         bindE (get_document_ids (run_workflow_run_id workflow_run)) (\<lambda>document_ids.
         bindE (outbox_create (mk_outbox (run_workflow_run_id workflow_run)
           (stp_step_id current_step) new_attempt_id
           (task_payload (run_workflow_run_id workflow_run) (run_workflow_name workflow_run)
             (run_workflow_version workflow_run) (stp_step_id current_step) new_attempt_id
             (stp_step_name current_step) handler_name [] document_ids) scheduled_for now)) (\<lambda>_.
         bindE (append_audit_event (run_workflow_run_id workflow_run)
           ''step_attempt.retry_scheduled'' ''worker:orchestrator''
           [(''step_name'', JStr (stp_step_name current_step)),
            (''attempt_number'', JInt (attempt_count + 1)), (''delay_seconds'', JFloat delay),
            (''error_code'', jstr_opt (sr_error_code step_result)),
            (''error_detail'', jstr_opt (sr_error_detail step_result))]
           (Some (stp_step_id current_step)) (Some new_attempt_id)) (\<lambda>_.
         returnE ''running''))))))))
     else handle_failed_terminal workflow_run current_step step_result now)"

definition advance_workflow ::
  "WorkflowRegistry \<Rightarrow> uuid \<Rightarrow> string \<Rightarrow> StepResult \<Rightarrow> ('z, string) wexec" where
  "advance_workflow reg workflow_run_id completed_step_name step_result =
     bindE (run_get_by_id workflow_run_id) (\<lambda>found.
     case found of
       None \<Rightarrow> raiseE (ValueError (''WorkflowRun not found: '' @ uuid_str workflow_run_id))
     | Some workflow_run \<Rightarrow>
     bindE (step_list_by_workflow_run workflow_run_id) (\<lambda>run_steps.
     bindE (step_get_by_run_and_name workflow_run_id completed_step_name) (\<lambda>found_step.
     case found_step of
       None \<Rightarrow> raiseE (ValueError (''Step not found: '' @ completed_step_name @ '' in run ''
                                  @ uuid_str workflow_run_id))
     | Some current_step \<Rightarrow>
     bindE now_utc (\<lambda>now.
     if sr_status step_result = ''succeeded''
     then handle_succeeded reg workflow_run run_steps current_step now
     else if sr_status step_result = ''failed_retryable''
     then handle_failed_retryable reg workflow_run current_step step_result now
     else if sr_status step_result = ''failed_terminal''
     then handle_failed_terminal workflow_run current_step step_result now
     else if sr_status step_result = ''escalate''
     then handle_escalate workflow_run current_step step_result now
     else raiseE (ValueError (''Unknown step result status: '' @ sr_status step_result))))))"

section \<open>After an escalation\<close>

definition resume_after_escalation ::
  "WorkflowRegistry \<Rightarrow> uuid \<Rightarrow> dict \<Rightarrow> string \<Rightarrow> ('z, string) wexec" where
  "resume_after_escalation reg escalation_id resolution_payload actor =
     bindE (escalation_get_by_id escalation_id) (\<lambda>found.
     case found of
       None \<Rightarrow> raiseE (ValueError (''EscalationCase not found: '' @ uuid_str escalation_id))
     | Some escalation \<Rightarrow>
     bindE (step_get_by_id (esc_step_id escalation)) (\<lambda>found_step.
     case found_step of
       None \<Rightarrow> raiseE (ValueError (''Step not found: '' @ uuid_str (esc_step_id escalation)))
     | Some current_step \<Rightarrow>
     bindE (run_get_by_id (esc_workflow_run_id escalation)) (\<lambda>found_run.
     case found_run of
       None \<Rightarrow> raiseE (ValueError (''WorkflowRun not found: ''
                                  @ uuid_str (esc_workflow_run_id escalation)))
     | Some workflow_run \<Rightarrow>
     bindE now_utc (\<lambda>now.
     bindE (update_escalation escalation_id
       (\<lambda>c. c\<lparr>esc_state := resolved, esc_resolved_by := Some actor, esc_resolved_at := Some now,
              esc_resolution_payload := Some resolution_payload\<rparr>)) (\<lambda>_.
     bindE (attempt_list_by_step (stp_step_id current_step)) (\<lambda>existing_attempts.
     let new_attempt_number = int (length existing_attempts) + 1 in
     bindE uuid4 (\<lambda>synthetic_attempt_id.
     bindE (attempt_create ((mk_attempt synthetic_attempt_id (stp_step_id current_step)
         new_attempt_number None now)\<lparr>att_state := succeeded, att_origin := human,
         att_started_at := Some now, att_ended_at := Some now\<rparr>)) (\<lambda>_.
     bindE (update_step (stp_step_id current_step)
       (\<lambda>s. s\<lparr>stp_state := succeeded, stp_ended_at := Some now\<rparr>)) (\<lambda>_.
     bindE (update_run (run_workflow_run_id workflow_run) (close_run running now None None)) (\<lambda>_.
     bindE (append_audit_event (run_workflow_run_id workflow_run) ''escalation.resolved'' actor
       [(''escalation_id'', JStr (uuid_str escalation_id)),
        (''step_name'', JStr (stp_step_name current_step)),
        (''resolution_payload'', JObj resolution_payload)]
       (Some (stp_step_id current_step)) (Some synthetic_attempt_id)) (\<lambda>_.
     bindE (step_list_by_workflow_run (run_workflow_run_id workflow_run)) (\<lambda>run_steps.
     handle_succeeded reg workflow_run run_steps current_step now))))))))))))"

section \<open>Cancelling\<close>

definition cancel_workflow :: "uuid \<Rightarrow> string \<Rightarrow> string option \<Rightarrow> ('z, unit) wexec" where
  "cancel_workflow workflow_run_id actor reason =
     bindE (run_get_by_id workflow_run_id) (\<lambda>found.
     case found of
       None \<Rightarrow> raiseE (ValueError (''WorkflowRun not found: '' @ uuid_str workflow_run_id))
     | Some workflow_run \<Rightarrow>
     if run_state workflow_run \<notin> set [running, awaiting_human]
     then raiseE (ValueError (''Cannot cancel WorkflowRun in state '' @ [CHR 0x27]
            @ run_state_value (run_state workflow_run) @ [CHR 0x27] @ ''. Cancellable states: ''
            @ list_repr (sort [''running'', ''awaiting_human''])))
     else
     bindE now_utc (\<lambda>now.
     bindE (update_run workflow_run_id
       (\<lambda>r. r\<lparr>run_state := cancelled, run_version := run_version r + 1, run_updated_at := now\<rparr>)) (\<lambda>_.
     bindE (metric ''workflow_run_duration_seconds''
       [run_workflow_name workflow_run, run_workflow_version workflow_run, ''cancelled'']) (\<lambda>_.
     bindE (append_audit_event workflow_run_id ''workflow_run.cancelled'' actor
       [(''reason'', jstr_opt reason),
        (''previous_state'', JStr (run_state_value (run_state workflow_run)))] None None) (\<lambda>_.
     returnE ())))))"

section \<open>Invariants of the log, and well-formedness\<close>

context audit_invariant
begin

lemma backoff_safe [safe_intros]: "safe I (compute_backoff_delay p n)"
  unfolding compute_backoff_delay_def by (intro safe_intros)

lemma mk_steps_safe [safe_intros]: "safe I (mk_steps run now defs)"
  unfolding mk_steps_def by (intro safe_intros)

lemma start_workflow_run_safe [safe_intros]:
  "safe I (start_workflow_run reg name version docs actor corr deadline)"
  unfolding start_workflow_run_def queue_first_step_def by (intro safe_intros append)

lemma handle_succeeded_safe [safe_intros]: "safe I (handle_succeeded reg run run_steps step now)"
  unfolding handle_succeeded_def get_document_ids_def by (intro safe_intros append)

lemma open_escalation_safe [safe_intros]: "safe I (open_escalation code run step res now)"
  unfolding open_escalation_def by (intro safe_intros append)

lemma handle_failed_terminal_safe [safe_intros]: "safe I (handle_failed_terminal run step res now)"
  unfolding handle_failed_terminal_def by (intro safe_intros append)

lemma handle_failed_retryable_safe [safe_intros]:
  "safe I (handle_failed_retryable reg run step res now)"
  unfolding handle_failed_retryable_def get_document_ids_def by (intro safe_intros append)

lemma advance_workflow_safe [safe_intros]: "safe I (advance_workflow reg run name res)"
  unfolding advance_workflow_def handle_escalate_def by (intro safe_intros)

lemma resume_after_escalation_safe [safe_intros]:
  "safe I (resume_after_escalation reg esc payload actor)"
  unfolding resume_after_escalation_def by (intro safe_intros append)

lemma cancel_workflow_safe [safe_intros]: "safe I (cancel_workflow run actor reason)"
  unfolding cancel_workflow_def by (intro safe_intros append)

end

lemma append_audit_event_wf [keeps_intros]: "keeps world_wf (append_audit_event i et actor p s sa)"
  unfolding append_audit_event_def uuid7_def by (intro keeps_intros)

lemmas update_wf = update_run_wf update_step_wf update_attempt_wf update_escalation_wf

lemmas key_defs = step_index_key_def step_name_key_def attempt_key_def escalation_key_def

lemma backoff_wf [keeps_intros]: "keeps world_wf (compute_backoff_delay p n)"
  unfolding compute_backoff_delay_def by (intro keeps_intros)

lemma mk_steps_wf [keeps_intros]: "keeps world_wf (mk_steps run now defs)"
  unfolding mk_steps_def by (intro keeps_intros)

lemma start_workflow_run_wf [keeps_intros]:
  "keeps world_wf (start_workflow_run reg name version docs actor corr deadline)"
  unfolding start_workflow_run_def queue_first_step_def by (intro keeps_intros update_wf) simp_all

lemma handle_succeeded_wf [keeps_intros]: "keeps world_wf (handle_succeeded reg run run_steps step now)"
  unfolding handle_succeeded_def get_document_ids_def
  by (intro keeps_intros update_wf) (simp_all add: key_defs)

lemma open_escalation_wf [keeps_intros]: "keeps world_wf (open_escalation code run step res now)"
  unfolding open_escalation_def by (intro keeps_intros update_wf) (simp_all add: close_run_def)

lemma handle_failed_terminal_wf [keeps_intros]: "keeps world_wf (handle_failed_terminal run step res now)"
  unfolding handle_failed_terminal_def
  by (intro keeps_intros update_wf) (simp_all add: key_defs close_run_def)

lemma handle_failed_retryable_wf [keeps_intros]:
  "keeps world_wf (handle_failed_retryable reg run step res now)"
  unfolding handle_failed_retryable_def get_document_ids_def
  by (intro keeps_intros update_wf) (simp_all add: key_defs)

lemma advance_workflow_wf [keeps_intros]: "keeps world_wf (advance_workflow reg run name res)"
  unfolding advance_workflow_def handle_escalate_def by (intro keeps_intros)

lemma resume_after_escalation_wf [keeps_intros]:
  "keeps world_wf (resume_after_escalation reg esc payload actor)"
  unfolding resume_after_escalation_def
  by (intro keeps_intros update_wf) (simp_all add: key_defs close_run_def)

lemma cancel_workflow_wf [keeps_intros]: "keeps world_wf (cancel_workflow run actor reason)"
  unfolding cancel_workflow_def by (intro keeps_intros update_wf) simp_all

section \<open>Effects of the operations\<close>

text \<open>The database a successful operation leaves, as a function of the one it found.\<close>

abbreviation upd_run :: "uuid \<Rightarrow> (WorkflowRunModel \<Rightarrow> WorkflowRunModel) \<Rightarrow> db \<Rightarrow> db" where
  "upd_run i f d \<equiv> d\<lparr>workflow_runs := map_where (\<lambda>r. run_workflow_run_id r = i) f (workflow_runs d)\<rparr>"

abbreviation upd_step :: "uuid \<Rightarrow> (StepModel \<Rightarrow> StepModel) \<Rightarrow> db \<Rightarrow> db" where
  "upd_step i f d \<equiv> d\<lparr>steps := map_where (\<lambda>s. stp_step_id s = i) f (steps d)\<rparr>"

abbreviation add_attempt :: "StepAttemptModel \<Rightarrow> db \<Rightarrow> db" where
  "add_attempt a d \<equiv> d\<lparr>step_attempts := step_attempts d @ [a]\<rparr>"

abbreviation add_outbox :: "TasksOutboxModel \<Rightarrow> db \<Rightarrow> db" where
  "add_outbox ob d \<equiv> d\<lparr>tasks_outbox := tasks_outbox d @ [ob\<lparr>obx_outbox_id := outbox_seq d\<rparr>],
                      outbox_seq := outbox_seq d + 1\<rparr>"

abbreviation add_event :: "AuditEventModel \<Rightarrow> db \<Rightarrow> db" where
  "add_event m d \<equiv> d\<lparr>audit_events := audit_events d @ [m]\<rparr>"

lemma handle_succeeded_last:
  assumes "handle_succeeded reg run run_steps step now w = (Inr res, w')"
    and "find (\<lambda>s. stp_step_index s = stp_step_index step + 1) run_steps = None"
  shows "res = ''completed'' \<and> (\<exists>m. evt_workflow_run_id m = run_workflow_run_id run \<and>
    evt_event_type m = ''workflow_run.completed'' \<and> evt_step_id m = Some (stp_step_id step) \<and>
    w_db w' = add_event m (upd_run (run_workflow_run_id run)
      (\<lambda>r. r\<lparr>run_state := completed, run_version := run_version r + 1, run_updated_at := now\<rparr>)
      (upd_step (stp_step_id step) (\<lambda>s. s\<lparr>stp_state := succeeded, stp_ended_at := Some now\<rparr>) (w_db w))))"
  using assms by (auto simp: handle_succeeded_def elim!: bindE_InrD dest!: run_ok)


abbreviation run_documents :: "uuid \<Rightarrow> db \<Rightarrow> string list" where
  "run_documents i d \<equiv> map (\<lambda>r. uuid_str (rd_document_id r))
     (filter (\<lambda>r. rd_workflow_run_id r = i) (workflow_run_documents d))"

text \<open>The task of an attempt: what the outbox row of every later task of a run holds.\<close>

definition next_task ::
  "WorkflowRegistry \<Rightarrow> WorkflowRunModel \<Rightarrow> StepModel \<Rightarrow> uuid \<Rightarrow> db \<Rightarrow> time \<Rightarrow> time \<Rightarrow> TasksOutboxModel" where
  "next_task reg run step aid d scheduled_for now =
     mk_outbox (run_workflow_run_id run) (stp_step_id step) aid
       (task_payload (run_workflow_run_id run) (run_workflow_name run) (run_workflow_version run)
         (stp_step_id step) aid (stp_step_name step)
         (lookup_handler_name reg (run_workflow_name run) (run_workflow_version run) (stp_step_name step))
         [] (run_documents (run_workflow_run_id run) d)) scheduled_for now"

lemma mk_attempt_simps [simp]:
  "attempt_key (mk_attempt aid sid n sf t) = (sid, n)" "att_step_id (mk_attempt aid sid n sf t) = sid"
  "att_step_attempt_id (mk_attempt aid sid n sf t) = aid"
  "att_step_attempt_number (mk_attempt aid sid n sf t) = n"
  "att_origin (mk_attempt aid sid n sf t) = system" "att_state (mk_attempt aid sid n sf t) = queued"
  "att_scheduled_for (mk_attempt aid sid n sf t) = sf"
  by (simp_all add: mk_attempt_def attempt_key_def)

lemma handle_succeeded_next:
  assumes "handle_succeeded reg run run_steps step now w = (Inr res, w')"
    and "find (\<lambda>s. stp_step_index s = stp_step_index step + 1) run_steps = Some nxt"
  shows "res = ''running'' \<and> (\<exists>aid m. evt_workflow_run_id m = run_workflow_run_id run \<and>
    evt_event_type m = ''step.advanced'' \<and> evt_step_attempt_id m = Some aid \<and>
    (stp_step_id nxt, 1) \<notin> attempt_key ` set (step_attempts (w_db w)) \<and>
    w_db w' = add_event m (add_outbox (next_task reg run nxt aid (w_db w) now now)
      (upd_run (run_workflow_run_id run)
        (\<lambda>r. r\<lparr>run_current_step_id := Some (stp_step_id nxt), run_updated_at := now\<rparr>)
      (add_attempt (mk_attempt aid (stp_step_id nxt) 1 None now)
      (upd_step (stp_step_id step) (\<lambda>s. s\<lparr>stp_state := succeeded, stp_ended_at := Some now\<rparr>) (w_db w))))))"
  using assms
  by (auto simp: handle_succeeded_def Let_def get_document_ids_def elim!: bindE_InrD dest!: run_ok)
    (unfold next_task_def, intro exI conjI; (assumption | rule refl))

abbreviation add_escalation :: "EscalationCaseModel \<Rightarrow> db \<Rightarrow> db" where
  "add_escalation c d \<equiv> d\<lparr>escalation_cases := escalation_cases d @ [c]\<rparr>"

lemma open_escalation_ok:
  assumes "open_escalation code run step res now w = (Inr st, w')"
  shows "st = ''awaiting_human'' \<and> (\<exists>eid m. evt_workflow_run_id m = run_workflow_run_id run \<and>
    evt_event_type m = ''escalation.created'' \<and> evt_step_id m = Some (stp_step_id step) \<and>
    w_db w' = add_event m (upd_run (run_workflow_run_id run)
        (close_run awaiting_human now (sr_error_code res) (sr_error_detail res))
      (add_escalation (new_escalation eid code run step res now) (w_db w))))"
  using assms
  by (auto simp: open_escalation_def elim!: bindE_InrD dest!: run_ok)
    (intro exI conjI; (assumption | rule refl))

lemma handle_failed_terminal_fail:
  assumes "handle_failed_terminal run step res now w = (Inr st, w')" "\<not> stp_escalate_on_failure step"
  shows "st = ''failed'' \<and> (\<exists>m. evt_workflow_run_id m = run_workflow_run_id run \<and>
    evt_event_type m = ''workflow_run.failed'' \<and> evt_step_id m = Some (stp_step_id step) \<and>
    w_db w' = add_event m (upd_run (run_workflow_run_id run)
        (close_run failed now (sr_error_code res) (sr_error_detail res))
      (upd_step (stp_step_id step) (\<lambda>s. s\<lparr>stp_state := failed_terminal, stp_ended_at := Some now\<rparr>) (w_db w))))"
  using assms by (auto simp: handle_failed_terminal_def elim!: bindE_InrD dest!: run_ok)

lemma handle_failed_terminal_escalate:
  assumes "handle_failed_terminal run step res now w = (Inr st, w')" "stp_escalate_on_failure step"
  shows "st = ''awaiting_human'' \<and> (\<exists>eid m. evt_workflow_run_id m = run_workflow_run_id run \<and>
    evt_event_type m = ''escalation.created'' \<and> evt_step_id m = Some (stp_step_id step) \<and>
    w_db w' = add_event m (upd_run (run_workflow_run_id run)
        (close_run awaiting_human now (sr_error_code res) (sr_error_detail res))
      (add_escalation (new_escalation eid ''STEP_FAILED_TERMINAL'' run step res now)
      (upd_step (stp_step_id step) (\<lambda>s. s\<lparr>stp_state := failed_terminal, stp_ended_at := Some now\<rparr>) (w_db w)))))"
proof -
  from assms obtain w1 where u: "update_step (stp_step_id step)
      (\<lambda>s. s\<lparr>stp_state := failed_terminal, stp_ended_at := Some now\<rparr>) w = (Inr (), w1)"
    and o: "open_escalation ''STEP_FAILED_TERMINAL'' run step res now w1 = (Inr st, w')"
    by (auto simp: handle_failed_terminal_def elim!: bindE_InrD)
  from open_escalation_ok [OF o] update_ok(2) [OF u] show ?thesis by auto
qed

lemma attempt_list_run: "attempt_list_by_step i w =
    (Inr (sort_key (\<lambda>a. - att_step_attempt_number a) (attempts_of_step i (w_db w))), w)"
  by (simp add: attempt_list_by_step_def)

lemma compute_backoff_ok: "compute_backoff_delay p n w = (Inr q, w') \<Longrightarrow> w_db w' = w_db w"
  by (auto simp: compute_backoff_delay_def Let_def split: if_splits dest: draws_ok)

lemma handle_failed_retryable_retry:
  assumes run: "handle_failed_retryable reg run step res now w = (Inr st, w')"
    and less: "int (length (attempts_of_step (stp_step_id step) (w_db w))) < stp_max_attempts step"
  shows "st = ''running'' \<and> (\<exists>aid m policy delay w1.
    evt_workflow_run_id m = run_workflow_run_id run \<and>
    evt_event_type m = ''step_attempt.retry_scheduled'' \<and> evt_step_attempt_id m = Some aid \<and>
    (stp_step_id step, int (length (attempts_of_step (stp_step_id step) (w_db w))) + 1)
      \<notin> attempt_key ` set (step_attempts (w_db w)) \<and>
    policy_of_json (stp_retry_policy step) = Inr policy \<and>
    compute_backoff_delay policy (int (length (attempts_of_step (stp_step_id step) (w_db w)))) w
      = (Inr delay, w1) \<and>
    w_db w' = add_event m (add_outbox
        (next_task reg run step aid (w_db w) (now + timedelta_seconds delay) now)
      (upd_step (stp_step_id step) (\<lambda>s. s\<lparr>stp_state := failed_retryable\<rparr>)
      (add_attempt (mk_attempt aid (stp_step_id step)
        (int (length (attempts_of_step (stp_step_id step) (w_db w))) + 1)
        (Some (now + timedelta_seconds delay)) now) (w_db w)))))"
proof -
  let ?n = "int (length (attempts_of_step (stp_step_id step) (w_db w)))"
  from run less obtain policy where p: "policy_of_json (stp_retry_policy step) = Inr policy"
    by (auto simp: handle_failed_retryable_def attempt_list_run Let_def split: sum.splits)
  with run less obtain delay aid m w1 w2 w3 w4 w5 x y
    where b: "compute_backoff_delay policy ?n w = (Inr delay, w1)" and aid: "uuid4 w1 = (Inr aid, w2)"
      and a: "attempt_create (mk_attempt aid (stp_step_id step) (?n + 1)
        (Some (now + timedelta_seconds delay)) now) w2 = (Inr x, w3)"
      and u: "update_step (stp_step_id step) (\<lambda>s. s\<lparr>stp_state := failed_retryable\<rparr>) w3 = (Inr (), w4)"
      and o: "outbox_create (next_task reg run step aid (w_db w4) (now + timedelta_seconds delay) now) w4
        = (Inr y, w5)"
      and m: "append_audit_event (run_workflow_run_id run)
           ''step_attempt.retry_scheduled'' ''worker:orchestrator''
           [(''step_name'', JStr (stp_step_name step)),
            (''attempt_number'', JInt (?n + 1)), (''delay_seconds'', JFloat delay),
            (''error_code'', jstr_opt (sr_error_code res)),
            (''error_detail'', jstr_opt (sr_error_detail res))]
           (Some (stp_step_id step)) (Some aid) w5 = (Inr m, w')" and st: "st = ''running''"
    by (auto simp: handle_failed_retryable_def get_document_ids_def Let_def attempt_list_run
        next_task_def elim!: bindE_InrD)
  note facts = compute_backoff_ok [OF b] draws_ok(1) [OF aid] insert_ok(4) [OF create_ok(2) [OF a]]
    update_ok(2) [OF u] insert_ok(5) [OF create_ok(3) [OF o]] append_audit_event_ok [OF m]
  have "next_task reg run step aid (w_db w4) = next_task reg run step aid (w_db w)"
    using facts by (simp add: next_task_def fun_eq_iff)
  then show ?thesis
    using st
    by (intro conjI exI [of _ aid] exI [of _ m] exI [of _ policy] exI [of _ delay] exI [of _ w1])
      (use facts p b in simp_all)
qed

lemma handle_failed_retryable_exhausted:
  assumes "\<not> int (length (attempts_of_step (stp_step_id step) (w_db w))) < stp_max_attempts step"
  shows "handle_failed_retryable reg run step res now w = handle_failed_terminal run step res now w"
  using assms by (simp add: handle_failed_retryable_def attempt_list_run)

lemma cancel_workflow_ok:
  assumes "cancel_workflow i actor reason w = (Inr u, w')"
  shows "\<exists>r m now. r \<in> set (workflow_runs (w_db w)) \<and> run_workflow_run_id r = i \<and>
    run_state r \<in> {running, awaiting_human} \<and> evt_workflow_run_id m = i \<and>
    evt_event_type m = ''workflow_run.cancelled'' \<and> evt_actor m = actor \<and>
    evt_payload m = [(''reason'', jstr_opt reason), (''previous_state'', JStr (run_state_value (run_state r)))] \<and>
    w_db w' = add_event m (upd_run i
      (\<lambda>r. r\<lparr>run_state := cancelled, run_version := run_version r + 1, run_updated_at := now\<rparr>) (w_db w))"
proof -
  from assms obtain r now m w0 w1 w2 w3 x
    where r: "run_get_by_id i w = (Inr (Some r), w0)" and st: "run_state r \<in> {running, awaiting_human}"
      and now: "now_utc w0 = (Inr now, w1)"
      and u: "update_run i (\<lambda>r. r\<lparr>run_state := cancelled, run_version := run_version r + 1,
        run_updated_at := now\<rparr>) w1 = (Inr (), w2)"
      and mt: "metric x [run_workflow_name r, run_workflow_version r, ''cancelled''] w2 = (Inr (), w3)"
      and m: "append_audit_event i ''workflow_run.cancelled'' actor
       [(''reason'', jstr_opt reason),
        (''previous_state'', JStr (run_state_value (run_state r)))] None None w3 = (Inr m, w')"
    by (auto simp: cancel_workflow_def elim!: bindE_InrD split: option.splits if_splits)
  show ?thesis
    by (rule exI [of _ r], rule exI [of _ m], rule exI [of _ now])
      (use lookup_ok(1) [OF r] st draws_ok(2) [OF now] update_ok(1) [OF u] draws_ok(5) [OF mt]
        append_audit_event_ok [OF m] in auto)
qed

lemma advance_workflow_ok:
  assumes "advance_workflow reg i name res w = (Inr st, w')"
  obtains r s now w1 where "r \<in> set (workflow_runs (w_db w))" "run_workflow_run_id r = i"
    "s \<in> set (steps (w_db w))" "stp_workflow_run_id s = i" "stp_step_name s = name"
    "w_db w1 = w_db w" "now_utc w = (Inr now, w1)"
    "(sr_status res = ''succeeded'' \<and>
        handle_succeeded reg r (steps_of_run i (w_db w)) s now w1 = (Inr st, w')) \<or>
     (sr_status res = ''failed_retryable'' \<and> handle_failed_retryable reg r s res now w1 = (Inr st, w')) \<or>
     (sr_status res = ''failed_terminal'' \<and> handle_failed_terminal r s res now w1 = (Inr st, w')) \<or>
     (sr_status res = ''escalate'' \<and> open_escalation ''STEP_ESCALATED'' r s res now w1 = (Inr st, w'))"
  using assms
  by (auto simp: advance_workflow_def handle_escalate_def step_list_by_workflow_run_def
      elim!: bindE_InrD dest!: lookup_ok split: option.splits if_splits)
    (blast dest: draws_ok(2))+

abbreviation upd_escalation :: "uuid \<Rightarrow> (EscalationCaseModel \<Rightarrow> EscalationCaseModel) \<Rightarrow> db \<Rightarrow> db" where
  "upd_escalation i f d \<equiv>
     d\<lparr>escalation_cases := map_where (\<lambda>c. esc_escalation_id c = i) f (escalation_cases d)\<rparr>"

definition human_attempt :: "uuid \<Rightarrow> uuid \<Rightarrow> int \<Rightarrow> time \<Rightarrow> StepAttemptModel" where
  "human_attempt aid sid n now = (mk_attempt aid sid n None now)\<lparr>att_state := succeeded,
     att_origin := human, att_started_at := Some now, att_ended_at := Some now\<rparr>"

lemma resume_after_escalation_ok:
  assumes "resume_after_escalation reg i payload actor w = (Inr st, w')"
  shows "\<exists>c s r now aid m w1. c \<in> set (escalation_cases (w_db w)) \<and> esc_escalation_id c = i \<and>
    s \<in> set (steps (w_db w)) \<and> stp_step_id s = esc_step_id c \<and>
    r \<in> set (workflow_runs (w_db w)) \<and> run_workflow_run_id r = esc_workflow_run_id c \<and>
    evt_workflow_run_id m = run_workflow_run_id r \<and> evt_event_type m = ''escalation.resolved'' \<and>
    attempt_key (human_attempt aid (stp_step_id s)
        (int (length (attempts_of_step (stp_step_id s) (w_db w))) + 1) now)
      \<notin> attempt_key ` set (step_attempts (w_db w)) \<and>
    w_db w1 = add_event m (upd_run (run_workflow_run_id r) (close_run running now None None)
      (upd_step (stp_step_id s) (\<lambda>s. s\<lparr>stp_state := succeeded, stp_ended_at := Some now\<rparr>)
      (add_attempt (human_attempt aid (stp_step_id s)
        (int (length (attempts_of_step (stp_step_id s) (w_db w))) + 1) now)
      (upd_escalation i (\<lambda>c. c\<lparr>esc_state := resolved, esc_resolved_by := Some actor,
         esc_resolved_at := Some now, esc_resolution_payload := Some payload\<rparr>) (w_db w))))) \<and>
    handle_succeeded reg r (steps_of_run (run_workflow_run_id r) (w_db w1)) s now w1 = (Inr st, w')"
proof -
  from assms obtain c s r now aid m w0 w1 w2 w3 w4 w5 w6 w7 x
    where c: "escalation_get_by_id i w = (Inr (Some c), w0)"
      and s: "step_get_by_id (esc_step_id c) w0 = (Inr (Some s), w1)"
      and r: "run_get_by_id (esc_workflow_run_id c) w1 = (Inr (Some r), w2)"
      and now: "now_utc w2 = (Inr now, w3)"
      and ue: "update_escalation i (\<lambda>c. c\<lparr>esc_state := resolved, esc_resolved_by := Some actor,
         esc_resolved_at := Some now, esc_resolution_payload := Some payload\<rparr>) w3 = (Inr (), w4)"
      and aid: "uuid4 w4 = (Inr aid, w5)"
      and at: "attempt_create (human_attempt aid (stp_step_id s)
        (int (length (attempts_of_step (stp_step_id s) (w_db w4))) + 1) now) w5 = (Inr x, w6)"
      and rest: "bindE (update_step (stp_step_id s) (\<lambda>s. s\<lparr>stp_state := succeeded, stp_ended_at := Some now\<rparr>)) (\<lambda>_.
        bindE (update_run (run_workflow_run_id r) (close_run running now None None)) (\<lambda>_.
        append_audit_event (run_workflow_run_id r) ''escalation.resolved'' actor
          [(''escalation_id'', JStr (uuid_str i)), (''step_name'', JStr (stp_step_name s)),
           (''resolution_payload'', JObj payload)] (Some (stp_step_id s)) (Some aid))) w6 = (Inr m, w7)"
      and h: "handle_succeeded reg r (steps_of_run (run_workflow_run_id r) (w_db w7)) s now w7 = (Inr st, w')"
    by (auto simp: resume_after_escalation_def step_list_by_workflow_run_def attempt_list_run Let_def
        human_attempt_def elim!: bindE_InrD split: option.splits)
  note facts = lookup_ok(4) [OF c] lookup_ok(2) [OF s] lookup_ok(1) [OF r] draws_ok(2) [OF now]
    update_ok(4) [OF ue] draws_ok(1) [OF aid] insert_ok(4) [OF create_ok(2) [OF at]]
  have w4: "w_db w4 = upd_escalation i (\<lambda>c. c\<lparr>esc_state := resolved, esc_resolved_by := Some actor,
         esc_resolved_at := Some now, esc_resolution_payload := Some payload\<rparr>) (w_db w)"
    using facts by simp
  then have n: "attempts_of_step (stp_step_id s) (w_db w4) = attempts_of_step (stp_step_id s) (w_db w)"
    by (simp add: attempts_of_step_def)
  have w7: "w_db w7 = add_event m (upd_run (run_workflow_run_id r) (close_run running now None None)
      (upd_step (stp_step_id s) (\<lambda>s. s\<lparr>stp_state := succeeded, stp_ended_at := Some now\<rparr>) (w_db w6)))"
    and m: "evt_workflow_run_id m = run_workflow_run_id r" "evt_event_type m = ''escalation.resolved''"
    using rest by (auto elim!: bindE_InrD dest!: run_ok)
  show ?thesis
    by (rule exI [of _ c], rule exI [of _ s], rule exI [of _ r], rule exI [of _ now],
        rule exI [of _ aid], rule exI [of _ m], rule exI [of _ w7])
      (use facts w4 n w7 m h in auto)
qed

lemma mk_steps_ok:
  assumes "mk_steps rid now defs w = (Inr ms, w')"
  shows "w_db w' = w_db w \<and> (\<exists>ids. length ids = length defs \<and> ms = map2 (mk_step rid now) ids defs)"
proof -
  have "foldE defs (\<lambda>sd models. bindE uuid4 (\<lambda>sid. returnE (models @ [mk_step rid now sid sd]))) acc w
      = (Inr ms, w') \<Longrightarrow>
    w_db w' = w_db w \<and> (\<exists>ids. length ids = length defs \<and> ms = acc @ map2 (mk_step rid now) ids defs)"
    for acc ms w
  proof (induction defs arbitrary: acc w)
    case (Cons sd defs)
    let ?sid = "w_uuid4 w (w_uuid4_n w)" and ?w = "w\<lparr>w_uuid4_n := Suc (w_uuid4_n w)\<rparr>"
    have "foldE defs (\<lambda>sd models. bindE uuid4 (\<lambda>sid. returnE (models @ [mk_step rid now sid sd])))
        (acc @ [mk_step rid now ?sid sd]) ?w = (Inr ms, w')"
      using Cons.prems by (simp add: bindE_def uuid4_def returnE_def)
    from Cons.IH [OF this] obtain ids where "length ids = length defs"
      "ms = acc @ mk_step rid now ?sid sd # map2 (mk_step rid now) ids defs" "w_db w' = w_db w" by auto
    then show ?case by (intro conjI exI [of _ "?sid # ids"]) auto
  qed simp
  from this [of "[]"] assms show ?thesis by (simp add: mk_steps_def)
qed

lemma step_create_many_ok:
  "step_create_many ms w = (Inr x, w') \<Longrightarrow> w_db w' = (w_db w)\<lparr>steps := steps (w_db w) @ ms\<rparr>"
proof -
  have "forE ms insert_step w = (Inr u, w') \<Longrightarrow> w_db w' = (w_db w)\<lparr>steps := steps (w_db w) @ ms\<rparr>" for u w
    by (induction ms arbitrary: w) (auto elim!: bindE_InrD dest!: insert_ok)
  then show "step_create_many ms w = (Inr x, w') \<Longrightarrow> ?thesis"
    by (auto simp: step_create_many_def elim!: bindE_InrD)
qed

lemma step_create_many_fresh:
  assumes "step_create_many ms w = (Inr x, w')"
  shows "distinct (map stp_step_id ms) \<and> stp_step_id ` set ms \<inter> stp_step_id ` set (steps (w_db w)) = {} \<and>
    (\<forall>s \<in> set ms. 1 \<le> stp_max_attempts s)"
proof -
  have ins: "insert_step s w = (Inr u, w') \<Longrightarrow>
     w_db w' = (w_db w)\<lparr>steps := steps (w_db w) @ [s]\<rparr> \<and> 1 \<le> stp_max_attempts s \<and>
     stp_step_id s \<notin> stp_step_id ` set (steps (w_db w))" for s u w w'
    unfolding insert_step_def by (erule checked_cases; simp)
  have "forE ms insert_step w = (Inr u, w') \<Longrightarrow> distinct (map stp_step_id ms) \<and>
     stp_step_id ` set ms \<inter> stp_step_id ` set (steps (w_db w)) = {} \<and> (\<forall>s \<in> set ms. 1 \<le> stp_max_attempts s)" for u w
    by (induction ms arbitrary: w) (fastforce elim!: bindE_InrD dest!: ins)+
  moreover from assms have "forE ms insert_step w = (Inr (), w')"
    by (auto simp: step_create_many_def elim!: bindE_InrD)
  ultimately show ?thesis by blast
qed

lemma attach_documents_ok:
  "forE docs (\<lambda>d. insert_run_document (f d)) w = (Inr u, w') \<Longrightarrow>
     w_db w' = (w_db w)\<lparr>workflow_run_documents := workflow_run_documents (w_db w) @ map f docs\<rparr>"
  by (induction docs arbitrary: w) (auto elim!: bindE_InrD dest!: insert_ok)

text \<open>The database with a new run: its steps, its documents, one attempt, one task, one event.\<close>

definition new_run_db ::
  "WorkflowRunModel \<Rightarrow> time \<Rightarrow> uuid list \<Rightarrow> StepModel list \<Rightarrow> StepAttemptModel \<Rightarrow> TasksOutboxModel \<Rightarrow>
   AuditEventModel \<Rightarrow> db \<Rightarrow> db" where
  "new_run_db rn now docs ms a t m d =
     d\<lparr>workflow_runs := workflow_runs d @ [rn],
       workflow_run_documents := workflow_run_documents d @
         map (\<lambda>doc. \<lparr>rd_workflow_run_id = run_workflow_run_id rn, rd_document_id = doc, rd_attached_at = now\<rparr>) docs,
       steps := steps d @ ms,
       step_attempts := step_attempts d @ [a],
       tasks_outbox := tasks_outbox d @ [t\<lparr>obx_outbox_id := outbox_seq d\<rparr>],
       outbox_seq := outbox_seq d + 1,
       audit_events := audit_events d @ [m]\<rparr>"

definition started_db ::
  "WorkflowDefinition \<Rightarrow> string \<Rightarrow> string \<Rightarrow> uuid list \<Rightarrow> string \<Rightarrow> string \<Rightarrow> int option \<Rightarrow>
   uuid \<Rightarrow> StepModel list \<Rightarrow> uuid \<Rightarrow> AuditEventModel \<Rightarrow> time \<Rightarrow> time \<Rightarrow> db \<Rightarrow> db" where
  "started_db def name version docs actor corr deadline rid ms aid m now now2 =
     new_run_db ((fresh_run rid name version now (effective_deadline deadline def) actor)
         \<lparr>run_current_step_id := Some (stp_step_id (hd ms)), run_state := running,
          run_version := 1, run_updated_at := now2\<rparr>) now docs ms
       (mk_attempt aid (stp_step_id (hd ms)) 1 None now)
       (mk_outbox rid (stp_step_id (hd ms)) aid
          (task_payload rid name version (stp_step_id (hd ms)) aid (stp_step_name (hd ms))
            (sd_handler_name (hd (wd_steps def))) corr (map uuid_str docs)) now now) m"

lemma start_workflow_run_ok:
  assumes "start_workflow_run reg name version docs actor corr deadline w = (Inr rid, w')"
  shows "\<exists>def ids ms aid m now now2. registry_get reg name version = Some def \<and>
    length ids = length (wd_steps def) \<and> ms = map2 (mk_step rid now) ids (wd_steps def) \<and> ms \<noteq> [] \<and>
    rid \<notin> run_workflow_run_id ` set (workflow_runs (w_db w)) \<and>
    distinct (map stp_step_id ms) \<and> stp_step_id ` set ms \<inter> stp_step_id ` set (steps (w_db w)) = {} \<and>
    (\<forall>s \<in> set ms. 1 \<le> stp_max_attempts s) \<and>
    (stp_step_id (hd ms), 1) \<notin> attempt_key ` set (step_attempts (w_db w)) \<and>
    evt_workflow_run_id m = rid \<and> evt_event_type m = ''workflow_run.started'' \<and> evt_actor m = actor \<and>
    w_db w' = started_db def name version docs actor corr deadline rid ms aid m now now2 (w_db w)"
proof -
  from assms obtain def now w0 w1 w2 w3 w4 w5 w6 w7 w8 ms s ss m now2 x y
    where def: "registry_get reg name version = Some def" and now: "now_utc w = (Inr now, w0)"
      and rid: "uuid4 w0 = (Inr rid, w1)"
      and run: "run_create (fresh_run rid name version now (effective_deadline deadline def) actor) w1
        = (Inr x, w2)"
      and docs: "forE docs (\<lambda>doc. insert_run_document \<lparr>rd_workflow_run_id = rid, rd_document_id = doc,
         rd_attached_at = now\<rparr>) w2 = (Inr (), w3)"
      and ms: "mk_steps rid now (wd_steps def) w3 = (Inr ms, w4)"
      and many: "step_create_many ms w4 = (Inr y, w5)" and s: "ms = s # ss"
      and q: "queue_first_step def rid name version s now docs corr w5 = (Inr (), w6)"
      and m: "append_audit_event rid ''workflow_run.started'' actor
       [(''workflow_name'', JStr name), (''workflow_version'', JStr version),
        (''document_ids'', JArr (map (\<lambda>d. JStr (uuid_str d)) docs)),
        (''correlation_id'', JStr corr), (''deadline_seconds'', JInt (effective_deadline deadline def))]
       None None w6 = (Inr m, w7)"
      and now2: "now_utc w7 = (Inr now2, w8)"
      and u: "update_run rid
       (\<lambda>r. r\<lparr>run_state := running, run_version := 1, run_updated_at := now2\<rparr>) w8 = (Inr (), w')"
    by (auto simp: start_workflow_run_def elim!: bindE_InrD split: option.splits list.splits)
  from run have fresh: "rid \<notin> run_workflow_run_id ` set (workflow_runs (w_db w))"
    and w2: "w_db w2 = (w_db w)\<lparr>workflow_runs := workflow_runs (w_db w) @
      [fresh_run rid name version now (effective_deadline deadline def) actor]\<rparr>"
    using draws_ok(1) [OF rid] draws_ok(2) [OF now]
    by (auto dest!: create_ok insert_ok simp: fresh_run_def)
  from mk_steps_ok [OF ms] obtain ids where ids: "length ids = length (wd_steps def)"
    "ms = map2 (mk_step rid now) ids (wd_steps def)" and w4: "w_db w4 = w_db w3" by auto
  have same: "step_attempts (w_db w5) = step_attempts (w_db w)"
    using step_create_many_ok [OF many] w4 attach_documents_ok [OF docs] w2 by simp
  obtain aid where key: "(stp_step_id s, 1) \<notin> attempt_key ` set (step_attempts (w_db w5))"
    and w6: "w_db w6 = add_outbox (mk_outbox rid (stp_step_id s) aid
       (task_payload rid name version (stp_step_id s) aid (stp_step_name s)
         (sd_handler_name (hd (wd_steps def))) corr (map uuid_str docs)) now now)
      (upd_run rid (\<lambda>r. r\<lparr>run_current_step_id := Some (stp_step_id s)\<rparr>)
      (add_attempt (mk_attempt aid (stp_step_id s) 1 None now) (w_db w5)))"
    using q by (auto simp: queue_first_step_def elim!: bindE_InrD dest!: run_ok)
  have others: "map_where (\<lambda>r. run_workflow_run_id r = rid) f (workflow_runs (w_db w))
      = workflow_runs (w_db w)" for f
    using fresh by (intro map_where_none) auto
  have "w_db w' = started_db def name version docs actor corr deadline rid ms aid m now now2 (w_db w)"
    unfolding started_db_def new_run_db_def
    using update_ok(1) [OF u] draws_ok(2) [OF now2] append_audit_event_ok [OF m] w6
      step_create_many_ok [OF many] w4 attach_documents_ok [OF docs] w2 s others
    by (simp add: fresh_run_def)
  moreover have "steps (w_db w4) = steps (w_db w)" using w4 attach_documents_ok [OF docs] w2 by simp
  with step_create_many_fresh [OF many] have "distinct (map stp_step_id ms) \<and>
    stp_step_id ` set ms \<inter> stp_step_id ` set (steps (w_db w)) = {} \<and> (\<forall>s \<in> set ms. 1 \<le> stp_max_attempts s)" by simp
  moreover have "(stp_step_id (hd ms), 1) \<notin> attempt_key ` set (step_attempts (w_db w))" "ms \<noteq> []"
    using key same s by simp_all
  ultimately show ?thesis using def ids fresh append_audit_event_ok [OF m] by blast
qed

end
