(* ===== verification/Orchestrator_Contract.thy ===== *)
theory Orchestrator_Contract
  imports Orchestrator
begin

text \<open>
  Sequences of orchestrator transactions and the invariants they keep: the laws of the
  elementary changes of the database as a locale, every operation of the orchestrator proved
  once inside it, and the invariants of the program as its interpretations.
\<close>


section \<open>Transactions\<close>

datatype orch_op =
    OpStart string string "uuid list" string string "int option"
  | OpAdvance uuid string StepResult
  | OpResume uuid dict string
  | OpCancel uuid string "string option"

fun orch_body :: "WorkflowRegistry \<Rightarrow> orch_op \<Rightarrow> ('z, unit) wexec" where
  "orch_body reg (OpStart name version docs actor corr deadline) =
     bindE (start_workflow_run reg name version docs actor corr deadline) (\<lambda>_. returnE ())"
| "orch_body reg (OpAdvance run name res) = bindE (advance_workflow reg run name res) (\<lambda>_. returnE ())"
| "orch_body reg (OpResume esc payload actor) =
     bindE (resume_after_escalation reg esc payload actor) (\<lambda>_. returnE ())"
| "orch_body reg (OpCancel run actor reason) = cancel_workflow run actor reason"

definition exec_orch :: "WorkflowRegistry \<Rightarrow> orch_op \<Rightarrow> ('z, unit) wexec" where
  "exec_orch reg op = session_scope (orch_body reg op)"

text \<open>A sequence of transactions, each of which may fail without stopping the others.\<close>

fun exec_orchs :: "WorkflowRegistry \<Rightarrow> orch_op list \<Rightarrow> 'z world_scheme \<Rightarrow> 'z world_scheme" where
  "exec_orchs reg [] w = w"
| "exec_orchs reg (op # ops) w = exec_orchs reg ops (snd (exec_orch reg op w))"

lemma orch_body_wf: "keeps world_wf (orch_body reg op)"
  by (cases op) (auto intro!: keeps_intros)

lemma exec_orch_wf: "keeps world_wf (exec_orch reg op)"
  unfolding exec_orch_def by (intro keeps_intros orch_body_wf)

context audit_invariant
begin

lemma exec_orch_safe [safe_intros]: "safe I (exec_orch reg op)"
  unfolding exec_orch_def by (cases op) (auto intro!: safe_intros)

end

text \<open>
  A property of the database that every successful operation keeps on well-formed databases
  holds along every sequence of transactions, since a failed one is rolled back.
\<close>

lemma exec_orchs_invariant:
  fixes w :: "'z world_scheme"
  assumes step: "\<And>(w :: 'z world_scheme) op w'. world_wf w \<Longrightarrow> P (w_db w) \<Longrightarrow> orch_body reg op w = (Inr (), w') \<Longrightarrow> P (w_db w')"
    and "world_wf w" "P (w_db w)"
  shows "world_wf (exec_orchs reg ops w) \<and> P (w_db (exec_orchs reg ops w))"
  using assms(2,3)
proof (induction ops arbitrary: w)
  case (Cons op ops)
  obtain r w1 where run: "exec_orch reg op w = (r, w1)" by (cases "exec_orch reg op w")
  have wf: "world_wf w1" using keepsD [OF exec_orch_wf Cons.prems(1) run] .
  have "P (w_db w1)"
  proof (cases r)
    case (Inl e)
    then show ?thesis using run session_scope_rollback [of "orch_body reg op" w e] Cons.prems
      by (simp add: exec_orch_def)
  next
    case (Inr u)
    then have "orch_body reg op w = (Inr (), w1)"
      using run by (auto simp: exec_orch_def session_scope_def split: prod.splits sum.splits)
    with step Cons.prems show ?thesis by blast
  qed
  from Cons.IH [OF wf this] run show ?case by simp
qed simp

section \<open>The contract of the elementary changes\<close>

definition step_owner :: "db \<Rightarrow> (uuid \<times> uuid) set" where
  "step_owner d = (\<lambda>s. (stp_step_id s, stp_workflow_run_id s)) ` set (steps d)"

definition attempt_owner :: "db \<Rightarrow> (uuid \<times> uuid) set" where
  "attempt_owner d = (\<lambda>a. (att_step_attempt_id a, att_step_id a)) ` set (step_attempts d)"

text \<open>What an update of a step leaves alone, and how a run's row may move.\<close>

definition step_same :: "StepModel \<Rightarrow> StepModel \<Rightarrow> bool" where
  "step_same s s' \<longleftrightarrow> stp_step_id s' = stp_step_id s \<and> stp_workflow_run_id s' = stp_workflow_run_id s \<and>
     stp_step_index s' = stp_step_index s \<and> stp_step_name s' = stp_step_name s \<and>
     stp_max_attempts s' = stp_max_attempts s"

definition run_moves :: "WorkflowRunModel \<Rightarrow> WorkflowRunModel \<Rightarrow> bool" where
  "run_moves r r' \<longleftrightarrow> run_workflow_run_id r' = run_workflow_run_id r \<and>
     run_workflow_name r' = run_workflow_name r \<and> run_workflow_version r' = run_workflow_version r \<and>
     run_created_at r' = run_created_at r \<and> run_created_by r' = run_created_by r \<and>
     run_deadline_at r' = run_deadline_at r \<and> run_version r \<le> run_version r' \<and>
     (run_state r \<noteq> run_state r' \<longrightarrow> run_version r < run_version r')"

text \<open>The attempts the program writes: a first one, a retry within the limit, a human one.\<close>

definition attempt_due :: "db \<Rightarrow> StepModel \<Rightarrow> StepAttemptModel \<Rightarrow> bool" where
  "attempt_due d s a \<longleftrightarrow>
     (let n = int (length (attempts_of_step (stp_step_id s) d)) in
      att_step_attempt_number a = 1 \<and> att_origin a = system \<or>
      att_step_attempt_number a = n + 1 \<and> att_origin a = system \<and> n < stp_max_attempts s \<or>
      att_step_attempt_number a = n + 1 \<and> att_origin a = human)"

text \<open>What a new run brings: steps of its own, an attempt of the first one and its task.\<close>

definition new_run_ok ::
  "WorkflowRunModel \<Rightarrow> StepModel list \<Rightarrow> StepAttemptModel \<Rightarrow> TasksOutboxModel \<Rightarrow> db \<Rightarrow> bool" where
  "new_run_ok rn ms a t d \<longleftrightarrow> ms \<noteq> [] \<and>
     (\<forall>s \<in> set ms. stp_workflow_run_id s = run_workflow_run_id rn \<and> 1 \<le> stp_max_attempts s) \<and>
     distinct (map stp_step_id ms) \<and> stp_step_id ` set ms \<inter> stp_step_id ` set (steps d) = {} \<and>
     attempt_key a = (stp_step_id (hd ms), 1) \<and> att_origin a = system \<and>
     attempt_key a \<notin> attempt_key ` set (step_attempts d) \<and>
     run_current_step_id rn = Some (stp_step_id (hd ms)) \<and>
     obx_step_id t = stp_step_id (hd ms) \<and> obx_workflow_run_id t = run_workflow_run_id rn \<and>
     obx_step_attempt_id t = att_step_attempt_id a"

definition attempt_same :: "StepAttemptModel \<Rightarrow> StepAttemptModel \<Rightarrow> bool" where
  "attempt_same a a' \<longleftrightarrow> att_step_attempt_id a' = att_step_attempt_id a \<and>
     attempt_key a' = attempt_key a \<and> att_origin a' = att_origin a"

definition outbox_same :: "TasksOutboxModel \<Rightarrow> TasksOutboxModel \<Rightarrow> bool" where
  "outbox_same t t' \<longleftrightarrow> obx_step_id t' = obx_step_id t \<and> obx_workflow_run_id t' = obx_workflow_run_id t \<and>
     obx_step_attempt_id t' = obx_step_attempt_id t"

text \<open>
  The changes the program makes, one law each, with what it guarantees when it makes them. A
  property of databases that satisfies the laws is kept by every operation.
\<close>

locale change_contract =
  fixes P :: "db \<Rightarrow> bool"
  assumes step_update: "P d \<Longrightarrow> (\<And>s. step_same s (f s)) \<Longrightarrow> P (upd_step i f d)"
    and run_update: "P d \<Longrightarrow> (\<And>r. run_moves r (g r)) \<Longrightarrow>
      (\<And>r. run_current_step_id (g r) = run_current_step_id r) \<Longrightarrow> P (upd_run i g d)"
    and run_current: "P d \<Longrightarrow> (\<And>r. run_moves r (g r)) \<Longrightarrow> (\<And>r. run_current_step_id (g r) = Some sid) \<Longrightarrow>
      (sid, i) \<in> step_owner d \<Longrightarrow> P (upd_run i g d)"
    and attempt_update: "P d \<Longrightarrow> (\<And>a. attempt_same a (k a)) \<Longrightarrow>
      P (d\<lparr>step_attempts := map_where (\<lambda>a. att_step_attempt_id a = i) k (step_attempts d)\<rparr>)"
    and outbox: "P d \<Longrightarrow> (obx_step_id t, obx_workflow_run_id t) \<in> step_owner d \<Longrightarrow>
      (obx_step_attempt_id t, obx_step_id t) \<in> attempt_owner d \<Longrightarrow> P (add_outbox t d)"
    and outbox_update: "P d \<Longrightarrow> (\<And>t. outbox_same t (u t)) \<Longrightarrow>
      P (d\<lparr>tasks_outbox := map_where q u (tasks_outbox d)\<rparr>)"
    and escalation: "P d \<Longrightarrow> (esc_step_id c, esc_workflow_run_id c) \<in> step_owner d \<Longrightarrow>
      P (add_escalation c d)"
    and escalation_update: "P d \<Longrightarrow> (\<And>c. escalation_key (h c) = escalation_key c) \<Longrightarrow>
      P (d\<lparr>escalation_cases := map_where e h (escalation_cases d)\<rparr>)"
    and event: "P d \<Longrightarrow> P (add_event m d)"
    and documents_frame: "P d \<Longrightarrow> P (d\<lparr>documents := ds\<rparr>)"
    and keys_frame: "P d \<Longrightarrow> P (d\<lparr>api_keys := ks\<rparr>)"
    and new_run: "P d \<Longrightarrow> new_run_ok rn ms a t d \<Longrightarrow> P (new_run_db rn now docs ms a t m d)"

text \<open>
  With the attempts the orchestrator writes, and with any attempt of a known step; the second
  contract asks for more, so it gives the first.
\<close>

locale orchestrator_contract = change_contract +
  assumes attempt: "P d \<Longrightarrow> s \<in> set (steps d) \<Longrightarrow> att_step_id a = stp_step_id s \<Longrightarrow>
      attempt_key a \<notin> attempt_key ` set (step_attempts d) \<Longrightarrow> attempt_due d s a \<Longrightarrow> P (add_attempt a d)"

locale row_contract = change_contract +
  assumes any_attempt: "P d \<Longrightarrow> s \<in> set (steps d) \<Longrightarrow> att_step_id a = stp_step_id s \<Longrightarrow> P (add_attempt a d)"

sublocale row_contract \<subseteq> orchestrator_contract P
  by unfold_locales (rule any_attempt)

context orchestrator_contract
begin

lemma handle_succeeded_keeps:
  assumes run: "handle_succeeded reg r (steps_of_run (run_workflow_run_id r) (w_db w)) s now w = (Inr st, w')"
    and P: "P (w_db w)"
  shows "P (w_db w')"
proof (cases "find (\<lambda>s'. stp_step_index s' = stp_step_index s + 1)
    (steps_of_run (run_workflow_run_id r) (w_db w))")
  case None
  obtain m where w': "w_db w' = add_event m (upd_run (run_workflow_run_id r)
      (\<lambda>r. r\<lparr>run_state := completed, run_version := run_version r + 1, run_updated_at := now\<rparr>)
      (upd_step (stp_step_id s) (\<lambda>s. s\<lparr>stp_state := succeeded, stp_ended_at := Some now\<rparr>) (w_db w)))"
    using handle_succeeded_last [OF run None] by blast
  show ?thesis unfolding w'
    by (intro event run_update step_update P) (simp_all add: step_same_def run_moves_def)
next
  case (Some nxt)
  have own: "nxt \<in> set (steps (w_db w))" "stp_workflow_run_id nxt = run_workflow_run_id r"
    using find_SomeD [OF Some] by (auto simp: steps_of_run_def)
  let ?f = "\<lambda>s. s\<lparr>stp_state := succeeded, stp_ended_at := Some now\<rparr>"
  let ?d = "upd_step (stp_step_id s) ?f (w_db w)"
  obtain aid m where key: "(stp_step_id nxt, 1) \<notin> attempt_key ` set (step_attempts (w_db w))"
    and w': "w_db w' = add_event m (add_outbox (next_task reg r nxt aid (w_db w) now now)
      (upd_run (run_workflow_run_id r)
        (\<lambda>r. r\<lparr>run_current_step_id := Some (stp_step_id nxt), run_updated_at := now\<rparr>)
      (add_attempt (mk_attempt aid (stp_step_id nxt) 1 None now) ?d)))"
    using handle_succeeded_next [OF run Some] by blast
  let ?nxt = "if stp_step_id nxt = stp_step_id s then ?f nxt else nxt"
  have "?nxt \<in> set (steps ?d)" using own by (auto simp: map_where_def)
  moreover have "P ?d" by (intro step_update P) (simp add: step_same_def)
  ultimately have "P (add_attempt (mk_attempt aid (stp_step_id nxt) 1 None now) ?d)"
    using key by (intro attempt [of _ ?nxt]) (auto simp: attempt_due_def)
  moreover have "(stp_step_id nxt, run_workflow_run_id r) \<in> step_owner (w_db w)"
    using own by (auto simp: step_owner_def)
  ultimately show ?thesis unfolding w'
    by (intro event outbox run_current [where sid = "stp_step_id nxt"])
      (simp_all add: step_owner_def attempt_owner_def image_map_where next_task_def mk_outbox_def run_moves_def)
qed

end

context orchestrator_contract
begin

lemma start_keeps:
  assumes "start_workflow_run reg name version docs actor corr deadline w = (Inr rid, w')" "P (w_db w)"
  shows "P (w_db w')"
proof -
  from start_workflow_run_ok [OF assms(1)] obtain def ids ms aid m now now2 where o:
    "ms = map2 (mk_step rid now) ids (wd_steps def)" "ms \<noteq> []"
    "distinct (map stp_step_id ms)" "stp_step_id ` set ms \<inter> stp_step_id ` set (steps (w_db w)) = {}"
    "\<forall>s \<in> set ms. 1 \<le> stp_max_attempts s"
    "(stp_step_id (hd ms), 1) \<notin> attempt_key ` set (step_attempts (w_db w))"
    "w_db w' = started_db def name version docs actor corr deadline rid ms aid m now now2 (w_db w)"
    by blast
  have "\<forall>s \<in> set ms. stp_workflow_run_id s = rid" by (auto simp: o(1) set_zip mk_step_def)
  with o(2-6) show ?thesis unfolding o(7) started_db_def
    by (intro new_run assms(2)) (simp add: new_run_ok_def fresh_run_def mk_outbox_def)
qed

lemma open_escalation_keeps:
  assumes run: "open_escalation code r s res now w = (Inr st, w')"
    and P: "P (w_db w)" and own: "(stp_step_id s, run_workflow_run_id r) \<in> step_owner (w_db w)"
  shows "P (w_db w')"
proof -
  obtain eid m where w': "w_db w' = add_event m (upd_run (run_workflow_run_id r)
        (close_run awaiting_human now (sr_error_code res) (sr_error_detail res))
      (add_escalation (new_escalation eid code r s res now) (w_db w)))"
    using open_escalation_ok [OF run] by blast
  show ?thesis unfolding w'
    by (intro event run_update escalation P)
      (use own in \<open>simp_all add: new_escalation_def run_moves_def close_run_def\<close>)
qed

lemma handle_failed_terminal_keeps:
  assumes run: "handle_failed_terminal r s res now w = (Inr st, w')"
    and P: "P (w_db w)" and own: "(stp_step_id s, run_workflow_run_id r) \<in> step_owner (w_db w)"
  shows "P (w_db w')"
proof -
  let ?d = "upd_step (stp_step_id s) (\<lambda>s. s\<lparr>stp_state := failed_terminal, stp_ended_at := Some now\<rparr>) (w_db w)"
  have d: "P ?d" by (intro step_update P) (simp add: step_same_def)
  show ?thesis
  proof (cases "stp_escalate_on_failure s")
    case True
    obtain eid m where w': "w_db w' = add_event m (upd_run (run_workflow_run_id r)
        (close_run awaiting_human now (sr_error_code res) (sr_error_detail res))
        (add_escalation (new_escalation eid ''STEP_FAILED_TERMINAL'' r s res now) ?d))"
      using handle_failed_terminal_escalate [OF run True] by blast
    show ?thesis unfolding w'
      by (intro event run_update escalation d)
        (use own in \<open>simp_all add: new_escalation_def run_moves_def close_run_def step_owner_def image_map_where\<close>)
  next
    case False
    obtain m where w': "w_db w' = add_event m (upd_run (run_workflow_run_id r)
        (close_run failed now (sr_error_code res) (sr_error_detail res)) ?d)"
      using handle_failed_terminal_fail [OF run False] by blast
    show ?thesis unfolding w' by (intro event run_update d) (simp_all add: run_moves_def close_run_def)
  qed
qed

lemma handle_failed_retryable_keeps:
  assumes run: "handle_failed_retryable reg r s res now w = (Inr st, w')"
    and P: "P (w_db w)" and s: "s \<in> set (steps (w_db w))" "stp_workflow_run_id s = run_workflow_run_id r"
  shows "P (w_db w')"
proof (cases "int (length (attempts_of_step (stp_step_id s) (w_db w))) < stp_max_attempts s")
  case True
  let ?n = "int (length (attempts_of_step (stp_step_id s) (w_db w)))"
  have own: "(stp_step_id s, run_workflow_run_id r) \<in> step_owner (w_db w)"
    using s by (auto simp: step_owner_def)
  obtain aid m delay where key: "(stp_step_id s, ?n + 1) \<notin> attempt_key ` set (step_attempts (w_db w))"
    and w': "w_db w' = add_event m (add_outbox
        (next_task reg r s aid (w_db w) (now + timedelta_seconds delay) now)
      (upd_step (stp_step_id s) (\<lambda>s. s\<lparr>stp_state := failed_retryable\<rparr>)
      (add_attempt (mk_attempt aid (stp_step_id s) (?n + 1)
        (Some (now + timedelta_seconds delay)) now) (w_db w))))"
    using handle_failed_retryable_retry [OF run True] by blast
  have "P (add_attempt (mk_attempt aid (stp_step_id s) (?n + 1) (Some (now + timedelta_seconds delay)) now) (w_db w))"
    using True key by (intro attempt [OF P s(1)]) (auto simp: attempt_due_def)
  with own show ?thesis unfolding w'
    by (intro event outbox step_update)
      (auto simp: step_same_def step_owner_def attempt_owner_def image_map_where next_task_def mk_outbox_def)
next
  case False
  with run have "handle_failed_terminal r s res now w = (Inr st, w')"
    by (simp add: handle_failed_retryable_exhausted)
  moreover have "(stp_step_id s, run_workflow_run_id r) \<in> step_owner (w_db w)"
    using s by (auto simp: step_owner_def)
  ultimately show ?thesis using P by (intro handle_failed_terminal_keeps [of r s res now w st w'])
qed

lemma advance_keeps:
  assumes "advance_workflow reg i name res w = (Inr st, w')" and P: "P (w_db w)"
  shows "P (w_db w')"
proof -
  from advance_workflow_ok [OF assms(1)] obtain r s now w1
    where o: "run_workflow_run_id r = i" "s \<in> set (steps (w_db w1))" "stp_workflow_run_id s = i"
      and w1: "w_db w1 = w_db w" and c: "handle_succeeded reg r (steps_of_run i (w_db w1)) s now w1 = (Inr st, w') \<or>
        handle_failed_retryable reg r s res now w1 = (Inr st, w') \<or>
        handle_failed_terminal r s res now w1 = (Inr st, w') \<or>
        open_escalation ''STEP_ESCALATED'' r s res now w1 = (Inr st, w')"
    by metis
  have "(stp_step_id s, run_workflow_run_id r) \<in> step_owner (w_db w1)" using o by (auto simp: step_owner_def)
  with c o P w1 show ?thesis
    using handle_succeeded_keeps handle_failed_retryable_keeps handle_failed_terminal_keeps
      open_escalation_keeps by metis
qed

lemma resume_keeps:
  assumes "resume_after_escalation reg i payload actor w = (Inr st, w')" and P: "P (w_db w)"
  shows "P (w_db w')"
proof -
  let ?esc = "\<lambda>now. upd_escalation i (\<lambda>c. c\<lparr>esc_state := resolved, esc_resolved_by := Some actor,
         esc_resolved_at := Some now, esc_resolution_payload := Some payload\<rparr>) (w_db w)"
  let ?n = "\<lambda>s. int (length (attempts_of_step (stp_step_id s) (w_db w)))"
  from resume_after_escalation_ok [OF assms(1)] obtain c s r now aid m w1
    where s: "s \<in> set (steps (w_db w))"
      and key: "attempt_key (human_attempt aid (stp_step_id s) (?n s + 1) now)
        \<notin> attempt_key ` set (step_attempts (w_db w))"
      and w1: "w_db w1 = add_event m (upd_run (run_workflow_run_id r) (close_run running now None None)
      (upd_step (stp_step_id s) (\<lambda>s. s\<lparr>stp_state := succeeded, stp_ended_at := Some now\<rparr>)
      (add_attempt (human_attempt aid (stp_step_id s) (?n s + 1) now) (?esc now))))"
      and h: "handle_succeeded reg r (steps_of_run (run_workflow_run_id r) (w_db w1)) s now w1 = (Inr st, w')"
    by blast
  have e: "P (?esc now)" by (intro escalation_update P) (simp add: escalation_key_def)
  have "attempts_of_step (stp_step_id s) (?esc now) = attempts_of_step (stp_step_id s) (w_db w)"
    by (simp add: attempts_of_step_def)
  then have "P (add_attempt (human_attempt aid (stp_step_id s) (?n s + 1) now) (?esc now))"
    using s key by (intro attempt [OF e, of s]) (auto simp: attempt_due_def human_attempt_def)
  then have "P (w_db w1)" unfolding w1
    by (intro event run_update step_update) (simp_all add: step_same_def run_moves_def close_run_def)
  with h show ?thesis by (rule handle_succeeded_keeps)
qed

lemma cancel_keeps:
  assumes "cancel_workflow i actor reason w = (Inr u, w')" and P: "P (w_db w)"
  shows "P (w_db w')"
proof -
  obtain m now where w': "w_db w' = add_event m (upd_run i
      (\<lambda>r. r\<lparr>run_state := cancelled, run_version := run_version r + 1, run_updated_at := now\<rparr>) (w_db w))"
    using cancel_workflow_ok [OF assms(1)] by blast
  show ?thesis unfolding w' by (intro event run_update P) (simp_all add: run_moves_def)
qed

lemma orch_body_keeps: "P (w_db w) \<Longrightarrow> orch_body reg op w = (Inr (), w') \<Longrightarrow> P (w_db w')"
  by (cases op) (auto elim!: bindE_InrD intro: start_keeps advance_keeps resume_keeps cancel_keeps)

lemma exec_orchs_keeps: "world_wf w \<Longrightarrow> P (w_db w) \<Longrightarrow> P (w_db (exec_orchs reg ops w))"
  using exec_orchs_invariant [of P reg w ops] orch_body_keeps by blast

end

section \<open>Rows that belong together\<close>

text \<open>
  What no single foreign key says: the current step of a run, the step of an escalation and
  the step of a task belong to the run they are filed under, and the attempt of a task is an
  attempt of its step.
\<close>

definition coherent :: "db \<Rightarrow> bool" where
  "coherent d \<longleftrightarrow>
     (\<forall>r \<in> set (workflow_runs d). \<forall>s. run_current_step_id r = Some s \<longrightarrow>
        (s, run_workflow_run_id r) \<in> step_owner d) \<and>
     (\<forall>t \<in> set (tasks_outbox d). (obx_step_id t, obx_workflow_run_id t) \<in> step_owner d \<and>
        (obx_step_attempt_id t, obx_step_id t) \<in> attempt_owner d) \<and>
     (\<forall>c \<in> set (escalation_cases d). (esc_step_id c, esc_workflow_run_id c) \<in> step_owner d)"

lemmas coherent_defs = coherent_def step_owner_def attempt_owner_def

interpretation coherent_rows: row_contract coherent
proof
  fix d
  show "coherent (upd_step i f d)" if "coherent d" "\<And>s. step_same s (f s)" for f i
    using that by (simp add: coherent_defs image_map_where step_same_def)
  show "coherent (upd_run i g d)" if "coherent d" "\<And>r. run_moves r (g r)"
    "\<And>r. run_current_step_id (g r) = run_current_step_id r" for g i
    using that by (auto simp: coherent_defs Ball_map_where run_moves_def)
  show "coherent (upd_run i g d)" if "coherent d" "\<And>r. run_moves r (g r)"
    "\<And>r. run_current_step_id (g r) = Some sid" "(sid, i) \<in> step_owner d" for g i sid
    using that by (simp add: coherent_defs Ball_map_where run_moves_def)
  show "coherent (d\<lparr>escalation_cases := map_where e h (escalation_cases d)\<rparr>)"
    if "coherent d" "\<And>c. escalation_key (h c) = escalation_key c" for h e
    using that by (auto simp: coherent_defs Ball_map_where escalation_key_def)
  show "coherent (d\<lparr>step_attempts := map_where (\<lambda>a. att_step_attempt_id a = i) k (step_attempts d)\<rparr>)"
    if "coherent d" "\<And>a. attempt_same a (k a)" for k i
    using that by (simp add: coherent_defs image_map_where attempt_same_def attempt_key_def)
  show "coherent (d\<lparr>tasks_outbox := map_where q u (tasks_outbox d)\<rparr>)"
    if "coherent d" "\<And>t. outbox_same t (u t)" for q u
    using that by (simp add: coherent_defs Ball_map_where outbox_same_def)
  show "coherent (new_run_db rn now docs ms a t m d)"
    if "coherent d" "new_run_ok rn ms a t d" for rn now docs ms a t m
    using that
    by (cases ms) (auto simp: coherent_defs new_run_db_def new_run_ok_def attempt_key_def)
qed (auto simp: coherent_defs)

section \<open>Numbering and limits of attempts\<close>

text \<open>
  The attempts of a step are numbered from 1 without gaps, and the system starts at most
  \<open>max_attempts\<close> of them.
\<close>

definition attempts_numbered :: "db \<Rightarrow> bool" where
  "attempts_numbered d \<longleftrightarrow> (\<forall>i. att_step_attempt_number ` set (attempts_of_step i d)
     = {1..int (length (attempts_of_step i d))})"

definition system_attempts :: "uuid \<Rightarrow> db \<Rightarrow> nat" where
  "system_attempts i d = length (filter (\<lambda>a. att_origin a = system) (attempts_of_step i d))"

definition attempts_bounded :: "db \<Rightarrow> bool" where
  "attempts_bounded d \<longleftrightarrow> distinct (map stp_step_id (steps d)) \<and>
     (\<forall>s \<in> set (steps d). 1 \<le> stp_max_attempts s \<and>
        int (system_attempts (stp_step_id s) d) \<le> stp_max_attempts s) \<and>
     (\<forall>i. i \<notin> stp_step_id ` set (steps d) \<longrightarrow> attempts_of_step i d = [])"

abbreviation attempts_inv :: "db \<Rightarrow> bool" where
  "attempts_inv d \<equiv> attempts_numbered d \<and> attempts_bounded d"

lemma attempts_of_step_same:
  "step_attempts d' = step_attempts d \<Longrightarrow> attempts_of_step i d' = attempts_of_step i d"
  by (simp add: attempts_of_step_def)

lemma attempts_of_step_add:
  "attempts_of_step i (add_attempt a d) = attempts_of_step i d @ (if att_step_id a = i then [a] else [])"
  by (simp add: attempts_of_step_def)

lemma first_attempt_only:
  assumes "attempts_numbered d" "(i, 1) \<notin> attempt_key ` set (step_attempts d)"
  shows "attempts_of_step i d = []"
proof -
  have "1 \<notin> att_step_attempt_number ` set (attempts_of_step i d)"
    using assms(2) by (force simp: attempts_of_step_def attempt_key_def)
  then have "\<not> (1 \<le> int (length (attempts_of_step i d)))"
    using assms(1) by (simp add: attempts_numbered_def)
  then show ?thesis by (cases "attempts_of_step i d") auto
qed

text \<open>Whatever attempt is due, its number is the next one.\<close>

lemma attempt_due_number:
  assumes "attempts_numbered d" "att_step_id a = stp_step_id s" "attempt_due d s a"
    "attempt_key a \<notin> attempt_key ` set (step_attempts d)"
  shows "att_step_attempt_number a = int (length (attempts_of_step (stp_step_id s) d)) + 1"
  using assms first_attempt_only [of d "stp_step_id s"]
  by (auto simp: attempt_due_def Let_def attempt_key_def)

lemma attempts_numbered_add:
  assumes "attempts_numbered d" "att_step_id a = i"
    "att_step_attempt_number a = int (length (attempts_of_step i d)) + 1"
  shows "attempts_numbered (add_attempt a d)"
proof -
  have "insert (int n + 1) {1..int n} = {1..int n + 1}" for n by auto
  with assms show ?thesis
    by (auto simp: attempts_numbered_def attempts_of_step_add)
qed

lemma attempts_bounded_add:
  assumes b: "attempts_bounded d" and s: "s \<in> set (steps d)" and a: "att_step_id a = stp_step_id s"
    and n: "attempts_numbered d" and k: "attempt_key a \<notin> attempt_key ` set (step_attempts d)"
    and due: "attempt_due d s a"
  shows "attempts_bounded (add_attempt a d)"
proof -
  have "system_attempts (stp_step_id s) d \<le> length (attempts_of_step (stp_step_id s) d)"
    by (simp add: system_attempts_def)
  moreover have "stp_max_attempts s \<ge> 1" using b s by (simp add: attempts_bounded_def)
  moreover have "att_step_attempt_number a = 1 \<Longrightarrow> system_attempts (stp_step_id s) d = 0"
    using k a first_attempt_only [OF n] by (simp add: attempt_key_def system_attempts_def)
  ultimately have lim: "int (system_attempts (stp_step_id s) d) + 1 \<le> stp_max_attempts s \<or> att_origin a = human"
    using due by (auto simp: attempt_due_def Let_def)
  have uniq: "s' = s" if "s' \<in> set (steps d)" "stp_step_id s' = stp_step_id s" for s'
    using b s that by (auto simp: attempts_bounded_def distinct_map inj_on_def)
  have "int (system_attempts (stp_step_id s') (add_attempt a d)) \<le> stp_max_attempts s'"
    if "s' \<in> set (steps d)" for s'
  proof (cases "stp_step_id s' = stp_step_id s")
    case True
    with uniq that have "s' = s" by blast
    moreover have "int (system_attempts (stp_step_id s) d) \<le> stp_max_attempts s"
      using b s by (simp add: attempts_bounded_def)
    ultimately show ?thesis using a lim by (auto simp: system_attempts_def attempts_of_step_add)
  next
    case False
    with b a that show ?thesis
      by (simp add: attempts_bounded_def system_attempts_def attempts_of_step_add)
  qed
  moreover have "att_step_id a \<in> stp_step_id ` set (steps d)" using a s by simp
  ultimately show ?thesis
    using b unfolding attempts_bounded_def by (auto simp: attempts_of_step_add)
qed

lemma attempts_inv_same:
  assumes "step_attempts d' = step_attempts d" "attempts_inv d"
    "map (\<lambda>s. (stp_step_id s, stp_max_attempts s)) (steps d') = map (\<lambda>s. (stp_step_id s, stp_max_attempts s)) (steps d)"
  shows "attempts_inv d'"
proof -
  have ids: "map stp_step_id (steps d') = map stp_step_id (steps d)"
    using arg_cong [OF assms(3), of "map fst"] by (simp add: comp_def)
  have "(\<lambda>s. (stp_step_id s, stp_max_attempts s)) ` set (steps d') = (\<lambda>s. (stp_step_id s, stp_max_attempts s)) ` set (steps d)"
    using arg_cong [OF assms(3), of set] by simp
  then have "(\<forall>p \<in> (\<lambda>s. (stp_step_id s, stp_max_attempts s)) ` set (steps d'). case_prod Q p) \<longleftrightarrow>
      (\<forall>p \<in> (\<lambda>s. (stp_step_id s, stp_max_attempts s)) ` set (steps d). case_prod Q p)" for Q
    by (simp only:)
  then have b: "(\<forall>s \<in> set (steps d'). Q (stp_step_id s) (stp_max_attempts s)) \<longleftrightarrow>
      (\<forall>s \<in> set (steps d). Q (stp_step_id s) (stp_max_attempts s))" for Q
    by simp
  have i: "stp_step_id ` set (steps d') = stp_step_id ` set (steps d)"
    using arg_cong [OF ids, of set] by simp
  have a: "attempts_of_step i d' = attempts_of_step i d" for i
    using assms(1) by (rule attempts_of_step_same)
  show ?thesis
    using assms(2) b [of "\<lambda>i m. 1 \<le> m \<and> int (system_attempts i d) \<le> m"]
    by (simp add: attempts_numbered_def attempts_bounded_def a i ids system_attempts_def)
qed

lemma attempts_inv_update:
  assumes "attempts_inv d" "\<And>a. attempt_same a (k a)"
  shows "attempts_inv (d\<lparr>step_attempts := map_where p k (step_attempts d)\<rparr>)"
proof -
  let ?d = "d\<lparr>step_attempts := map_where p k (step_attempts d)\<rparr>"
  have s: "att_step_id (k a) = att_step_id a" "att_step_attempt_number (k a) = att_step_attempt_number a"
    "att_origin (k a) = att_origin a" for a
    using assms(2) [of a] by (simp_all add: attempt_same_def attempt_key_def)
  have f: "attempts_of_step i ?d = map_where p k (attempts_of_step i d)" for i
    by (simp add: attempts_of_step_def filter_map_where s)
  have o: "system_attempts i ?d = system_attempts i d" for i
    by (simp add: system_attempts_def f filter_map_where s)
  have n: "att_step_attempt_number ` set (attempts_of_step i ?d) = att_step_attempt_number ` set (attempts_of_step i d)" for i
    by (simp add: f image_map_where s)
  have e: "attempts_of_step i ?d = [] \<longleftrightarrow> attempts_of_step i d = []" for i
    unfolding f by (simp add: map_where_def)
  have l: "length (attempts_of_step i ?d) = length (attempts_of_step i d)" for i by (simp add: f)
  show ?thesis
    using assms(1) unfolding attempts_numbered_def attempts_bounded_def o n e l by simp
qed

interpretation attempt_limits: orchestrator_contract attempts_inv
proof
  fix d :: db
  show "attempts_inv (upd_step i f d)" if "attempts_inv d" "\<And>s. step_same s (f s)" for f i
    using that(1) by (rule attempts_inv_same [rotated]) (use that(2) in \<open>simp_all add: map_where_column step_same_def\<close>)
  show "attempts_inv (add_attempt a d)" if "attempts_inv d" "s \<in> set (steps d)"
    "att_step_id a = stp_step_id s" "attempt_key a \<notin> attempt_key ` set (step_attempts d)"
    "attempt_due d s a" for s a
    using that attempts_bounded_add attempts_numbered_add attempt_due_number by blast
  show "attempts_inv (d\<lparr>step_attempts := map_where (\<lambda>a. att_step_attempt_id a = i) k (step_attempts d)\<rparr>)"
    if "attempts_inv d" "\<And>a. attempt_same a (k a)" for k i
    using that by (rule attempts_inv_update)
  show "attempts_inv (new_run_db rn now docs ms a t m d)"
    if inv: "attempts_inv d" and ok: "new_run_ok rn ms a t d" for rn now docs ms a t m
  proof -
    let ?d = "d\<lparr>steps := steps d @ ms\<rparr>"
    note ok = ok [unfolded new_run_ok_def]
    have new: "attempts_of_step (stp_step_id s) d = []" if "s \<in> set ms" for s
    proof -
      have "stp_step_id s \<notin> stp_step_id ` set (steps d)" using ok that by blast
      then show ?thesis using inv by (simp add: attempts_bounded_def)
    qed
    have same: "attempts_of_step i ?d = attempts_of_step i d" for i by (simp add: attempts_of_step_def)
    have inv': "attempts_inv ?d"
      using inv ok new
      by (auto simp: attempts_numbered_def attempts_bounded_def same system_attempts_def)
    have st: "att_step_id a = stp_step_id (hd ms)" using ok by (simp add: attempt_key_def)
    have due: "attempt_due ?d (hd ms) a" using ok by (simp add: attempt_due_def attempt_key_def)
    from ok have "attempt_key a \<notin> attempt_key ` set (step_attempts d)" by (elim conjE)
    then have key: "attempt_key a \<notin> attempt_key ` set (step_attempts ?d)" by simp
    have hd: "hd ms \<in> set (steps ?d)" using ok by simp
    have "attempts_inv (add_attempt a ?d)"
      using inv' attempts_bounded_add [OF _ hd st _ key due] attempt_due_number [OF _ st due key]
        attempts_numbered_add [OF _ st] by blast
    then show ?thesis by (rule attempts_inv_same [rotated]) (simp_all add: new_run_db_def)
  qed
qed (rule attempts_inv_same; simp)+

section \<open>Runs only move forward\<close>

text \<open>
  Every run that was there is still there, with the same identity, and its version has grown
  whenever its state has changed: what optimistic locking on the version relies on.
\<close>

definition runs_progress :: "db \<Rightarrow> db \<Rightarrow> bool" where
  "runs_progress d0 d \<longleftrightarrow> (\<forall>r \<in> set (workflow_runs d0). \<exists>r' \<in> set (workflow_runs d). run_moves r r')"

lemma run_moves_trans: "run_moves a b \<Longrightarrow> run_moves b c \<Longrightarrow> run_moves a c"
  by (auto simp: run_moves_def)

lemma runs_progress_update:
  assumes "runs_progress d0 d" "\<And>r. run_moves r (g r)"
  shows "runs_progress d0 (upd_run i g d)"
  unfolding runs_progress_def
proof
  fix r assume "r \<in> set (workflow_runs d0)"
  then obtain r' where r': "r' \<in> set (workflow_runs d)" "run_moves r r'"
    using assms(1) by (auto simp: runs_progress_def)
  then have "run_moves r (if run_workflow_run_id r' = i then g r' else r')"
    using assms(2) run_moves_trans by auto
  moreover have "(if run_workflow_run_id r' = i then g r' else r') \<in> set (workflow_runs (upd_run i g d))"
    using r' by (auto simp: map_where_def)
  ultimately show "\<exists>r' \<in> set (workflow_runs (upd_run i g d)). run_moves r r'" by blast
qed

interpretation forward: row_contract "runs_progress d0"
proof
  fix d
  show "runs_progress d0 (upd_run i g d)" if "runs_progress d0 d" "\<And>r. run_moves r (g r)" for g i
    using that by (rule runs_progress_update)
  show "runs_progress d0 (upd_run i g d)" if "runs_progress d0 d" "\<And>r. run_moves r (g r)" for g i
    using that by (rule runs_progress_update)
qed (auto simp: runs_progress_def new_run_db_def)

end
