(* ===== verification/Queues.thy ===== *)
theory Queues
  imports Repositories
begin

text \<open>
  \<open>src/insuranceops/queue\<close>: the ready list, the per-worker inflight lists, the dead letter list
  and the delayed set. The Redis server is not part of the program: its commands are the
  argument \<open>R\<close> of every operation, a record of functions on a state of their own, and
  \<open>redis_laws\<close> states what the commands used here are documented to do, in terms of the lists
  (head first) and the sorted sets (member to score) they act on. \<open>mem_redis\<close> is a server that
  has the laws.
\<close>

section \<open>The commands\<close>

record 'r redis_api =
  r_lpush :: "string \<Rightarrow> bytes \<Rightarrow> ('r, int) exec"
  r_brpoplpush :: "string \<Rightarrow> string \<Rightarrow> ('r, bytes option) exec"
  r_lrem1 :: "string \<Rightarrow> bytes \<Rightarrow> ('r, int) exec"
  r_lrange :: "string \<Rightarrow> int \<Rightarrow> int \<Rightarrow> ('r, bytes list) exec"
  r_llen :: "string \<Rightarrow> ('r, int) exec"
  r_zadd :: "string \<Rightarrow> bytes \<Rightarrow> rat \<Rightarrow> ('r, int) exec"
  r_zpopmin :: "string \<Rightarrow> ('r, (bytes \<times> rat) option) exec"
  r_incr :: "string \<Rightarrow> ('r, int) exec"
  r_expire :: "string \<Rightarrow> int \<Rightarrow> ('r, unit) exec"
  r_setex :: "string \<Rightarrow> string \<Rightarrow> int \<Rightarrow> ('r, unit) exec"
  r_scan :: "string \<Rightarrow> ('r, bytes list) exec"

text \<open>
  The world of a process that also talks to a server and to the file system. \<open>w_disk k\<close> is the
  fault of the \<open>k\<close>-th change of the file system, if it has one: how many bytes reach the disk
  before it fails.
\<close>

record 'r sysworld = world +
  w_redis :: 'r
  w_files :: "string \<Rightarrow> bytes option"
  w_disk :: "nat \<Rightarrow> nat option"
  w_disk_n :: nat

type_synonym ('r, 'a) sexec = "('r sysworld, 'a) exec"

definition redisE :: "('r, 'a) exec \<Rightarrow> ('r, 'a) sexec" where
  "redisE m = (\<lambda>w. case m (w_redis w) of (r, s) \<Rightarrow> (r, w\<lparr>w_redis := s\<rparr>))"

text \<open>\<open>LRANGE key start stop\<close> on a list: inclusive, negative indices count from the end.\<close>

definition py_lrange :: "'a list \<Rightarrow> int \<Rightarrow> int \<Rightarrow> 'a list" where
  "py_lrange xs start stop =
     (let n = int (length xs);
          a = max 0 (if start < 0 then n + start else start);
          b = (if stop < 0 then n + stop else stop)
      in take (nat (b + 1 - a)) (drop (nat a) xs))"

section \<open>Valid UTF-8\<close>

definition cont_byte :: "byte \<Rightarrow> bool" where
  "cont_byte b \<longleftrightarrow> 0x80 \<le> b \<and> b \<le> 0xBF"

text \<open>\<open>bytes.decode("utf-8")\<close> accepts exactly these (RFC 3629: no overlong forms, no surrogates).\<close>

fun utf8_valid :: "bytes \<Rightarrow> bool" where
  "utf8_valid [] \<longleftrightarrow> True"
| "utf8_valid (a # bs) \<longleftrightarrow>
     (if a \<le> 0x7F then utf8_valid bs
      else if 0xC2 \<le> a \<and> a \<le> 0xDF then
        (case bs of b # cs \<Rightarrow> cont_byte b \<and> utf8_valid cs | _ \<Rightarrow> False)
      else if 0xE0 \<le> a \<and> a \<le> 0xEF then
        (case bs of b # c # ds \<Rightarrow>
           cont_byte b \<and> (a = 0xE0 \<longrightarrow> 0xA0 \<le> b) \<and> (a = 0xED \<longrightarrow> b \<le> 0x9F) \<and> cont_byte c \<and> utf8_valid ds
         | _ \<Rightarrow> False)
      else if 0xF0 \<le> a \<and> a \<le> 0xF4 then
        (case bs of b # c # d # es \<Rightarrow>
           cont_byte b \<and> (a = 0xF0 \<longrightarrow> 0x90 \<le> b) \<and> (a = 0xF4 \<longrightarrow> b \<le> 0x8F) \<and> cont_byte c \<and> cont_byte d \<and> utf8_valid es
         | _ \<Rightarrow> False)
      else False)"

definition decode_utf8 :: "bytes \<Rightarrow> ('w, bytes) exec" where
  "decode_utf8 b = (if utf8_valid b then returnE b else raiseE UnicodeDecodeError)"

section \<open>The reliable queue\<close>

definition QUEUE_READY :: string where "QUEUE_READY = ''queue:tasks:ready''"
definition QUEUE_INFLIGHT_PREFIX :: string where "QUEUE_INFLIGHT_PREFIX = ''queue:tasks:inflight:''"
definition QUEUE_DLQ :: string where "QUEUE_DLQ = ''queue:tasks:dlq''"
definition QUEUE_DELAYED :: string where "QUEUE_DELAYED = ''queue:tasks:delayed''"

definition inflight_key :: "string \<Rightarrow> string" where
  "inflight_key worker_id = QUEUE_INFLIGHT_PREFIX @ worker_id"

text \<open>\<open>json.dumps(payload, separators=(",", ":"), default=str).encode("utf-8")\<close>\<close>

definition task_bytes :: "(rat \<Rightarrow> string) \<Rightarrow> dict \<Rightarrow> bytes" where
  "task_bytes fr payload = utf8 (json_dumps False fr (JObj payload))"

definition enqueue :: "'r redis_api \<Rightarrow> dict \<Rightarrow> ('r, int) sexec" where
  "enqueue R payload = bindE (readE w_float_repr) (\<lambda>fr.
     redisE (r_lpush R QUEUE_READY (task_bytes fr payload)))"

text \<open>\<open>json.loads\<close> on bytes is the argument \<open>loads\<close>.\<close>

definition claim :: "'r redis_api \<Rightarrow> (bytes \<Rightarrow> exn + json) \<Rightarrow> string \<Rightarrow> ('r, json option) sexec" where
  "claim R loads worker_id =
     bindE (redisE (r_brpoplpush R QUEUE_READY (inflight_key worker_id))) (\<lambda>result.
     case result of
       None \<Rightarrow> returnE None
     | Some b \<Rightarrow> (case loads b of Inl e \<Rightarrow> raiseE e | Inr v \<Rightarrow> returnE (Some v)))"

definition ack :: "'r redis_api \<Rightarrow> string \<Rightarrow> bytes \<Rightarrow> ('r, int) sexec" where
  "ack R worker_id payload_bytes =
     bindE (decode_utf8 payload_bytes) (\<lambda>value_str.
     redisE (r_lrem1 R (inflight_key worker_id) value_str))"

definition get_inflight :: "'r redis_api \<Rightarrow> string \<Rightarrow> ('r, bytes list) sexec" where
  "get_inflight R worker_id = redisE (r_lrange R (inflight_key worker_id) 0 (- 1))"

definition move_to_ready :: "'r redis_api \<Rightarrow> string \<Rightarrow> bytes \<Rightarrow> ('r, unit) sexec" where
  "move_to_ready R worker_id payload_bytes =
     bindE (decode_utf8 payload_bytes) (\<lambda>value_str.
     bindE (redisE (r_lrem1 R (inflight_key worker_id) value_str)) (\<lambda>_.
     bindE (redisE (r_lpush R QUEUE_READY payload_bytes)) (\<lambda>_. returnE ())))"

section \<open>The dead letter queue\<close>

definition move_to_dlq :: "'r redis_api \<Rightarrow> bytes \<Rightarrow> ('r, int) sexec" where
  "move_to_dlq R payload_bytes = redisE (r_lpush R QUEUE_DLQ payload_bytes)"

definition list_dlq :: "'r redis_api \<Rightarrow> int \<Rightarrow> int \<Rightarrow> ('r, bytes list) sexec" where
  "list_dlq R start cnt = redisE (r_lrange R QUEUE_DLQ start (start + cnt - 1))"

definition requeue_from_dlq :: "'r redis_api \<Rightarrow> bytes \<Rightarrow> ('r, bool) sexec" where
  "requeue_from_dlq R payload_bytes =
     bindE (decode_utf8 payload_bytes) (\<lambda>value_str.
     bindE (redisE (r_lrem1 R QUEUE_DLQ value_str)) (\<lambda>removed.
     if removed > 0
     then bindE (redisE (r_lpush R QUEUE_READY payload_bytes)) (\<lambda>_. returnE True)
     else returnE False))"

definition dlq_count :: "'r redis_api \<Rightarrow> ('r, int) sexec" where
  "dlq_count R = redisE (r_llen R QUEUE_DLQ)"

definition get_dlq_entry :: "'r redis_api \<Rightarrow> int \<Rightarrow> ('r, bytes option) sexec" where
  "get_dlq_entry R index =
     bindE (redisE (r_lrange R QUEUE_DLQ index index)) (\<lambda>items.
     returnE (case items of [] \<Rightarrow> None | x # _ \<Rightarrow> Some x))"

definition drop_from_dlq :: "'r redis_api \<Rightarrow> bytes \<Rightarrow> ('r, bool) sexec" where
  "drop_from_dlq R payload_bytes =
     bindE (decode_utf8 payload_bytes) (\<lambda>value_str.
     bindE (redisE (r_lrem1 R QUEUE_DLQ value_str)) (\<lambda>removed. returnE (removed > 0)))"

section \<open>The delayed queue\<close>

definition epoch_ms :: "time \<Rightarrow> rat" where
  "epoch_ms t = of_int t / 1000"

definition schedule :: "'r redis_api \<Rightarrow> dict \<Rightarrow> time \<Rightarrow> ('r, int) sexec" where
  "schedule R payload run_at = bindE (readE w_float_repr) (\<lambda>fr.
     redisE (r_zadd R QUEUE_DELAYED (task_bytes fr payload) (epoch_ms run_at)))"

text \<open>The loop of \<open>mature_tasks\<close>; the first number is how many more it may promote.\<close>

fun mature_loop :: "'r redis_api \<Rightarrow> rat \<Rightarrow> nat \<Rightarrow> int \<Rightarrow> ('r, int) sexec" where
  "mature_loop R max_score 0 promoted = returnE promoted"
| "mature_loop R max_score (Suc n) promoted =
     bindE (redisE (r_zpopmin R QUEUE_DELAYED)) (\<lambda>results.
     case results of
       None \<Rightarrow> returnE promoted
     | Some (item, score) \<Rightarrow>
         if score > max_score
         then bindE (redisE (r_zadd R QUEUE_DELAYED item score)) (\<lambda>_. returnE promoted)
         else bindE (redisE (r_lpush R QUEUE_READY item)) (\<lambda>_.
              mature_loop R max_score n (promoted + 1)))"

definition mature_tasks :: "'r redis_api \<Rightarrow> time \<Rightarrow> int \<Rightarrow> ('r, int) sexec" where
  "mature_tasks R now batch_size = mature_loop R (epoch_ms now) (nat batch_size) 0"

section \<open>What the server promises\<close>

text \<open>
  \<open>ls s k\<close> is the list at key \<open>k\<close>, \<open>zs s k\<close> the sorted set there, in the server state \<open>s\<close>.
  A command that returns has had its effect and no other; one that is refused has none. Each command
  may be refused on its own, also the second of two that an operation sends.
\<close>

type_synonym lists = "string \<Rightarrow> bytes list"
type_synonym zsets = "string \<Rightarrow> bytes \<Rightarrow> rat option"
type_synonym 'r list_view = "'r \<Rightarrow> lists"
type_synonym 'r zset_view = "'r \<Rightarrow> zsets"
type_synonym 'a redis_spec = "lists \<Rightarrow> zsets \<Rightarrow> 'a \<Rightarrow> lists \<Rightarrow> zsets \<Rightarrow> bool"

definition lpush_spec :: "string \<Rightarrow> bytes \<Rightarrow> int redis_spec" where
  "lpush_spec k v l z n l' z' \<longleftrightarrow> l' = l(k := v # l k) \<and> z' = z \<and> n = int (length (l k)) + 1"

definition brpoplpush_spec :: "string \<Rightarrow> string \<Rightarrow> bytes option redis_spec" where
  "brpoplpush_spec k j l z r l' z' \<longleftrightarrow> z' = z \<and>
     (if l k = [] then r = None \<and> l' = l
      else r = Some (last (l k)) \<and>
        l' = (let m = l(k := butlast (l k)) in m(j := last (l k) # m j)))"

definition lrem1_spec :: "string \<Rightarrow> bytes \<Rightarrow> int redis_spec" where
  "lrem1_spec k v l z n l' z' \<longleftrightarrow>
     l' = l(k := remove1 v (l k)) \<and> z' = z \<and> n = (if v \<in> set (l k) then 1 else 0)"

definition lrange_spec :: "string \<Rightarrow> int \<Rightarrow> int \<Rightarrow> bytes list redis_spec" where
  "lrange_spec k a b l z r l' z' \<longleftrightarrow> l' = l \<and> z' = z \<and> r = py_lrange (l k) a b"

definition llen_spec :: "string \<Rightarrow> int redis_spec" where
  "llen_spec k l z n l' z' \<longleftrightarrow> l' = l \<and> z' = z \<and> n = int (length (l k))"

definition zadd_spec :: "string \<Rightarrow> bytes \<Rightarrow> rat \<Rightarrow> int redis_spec" where
  "zadd_spec k v x l z n l' z' \<longleftrightarrow>
     l' = l \<and> z' = z(k := (z k)(v \<mapsto> x)) \<and> n = (if z k v = None then 1 else 0)"

definition zpopmin_spec :: "string \<Rightarrow> (bytes \<times> rat) option redis_spec" where
  "zpopmin_spec k l z r l' z' \<longleftrightarrow> l' = l \<and>
     (case r of None \<Rightarrow> z k = (\<lambda>_. None) \<and> z' = z
      | Some (v, x) \<Rightarrow> z k v = Some x \<and> (\<forall>v' x'. z k v' = Some x' \<longrightarrow> x \<le> x') \<and>
          z' = z(k := (z k)(v := None)))"

text \<open>\<open>SCAN\<close> may report a key more than once; it reports every list key with the prefix.\<close>

definition scan_spec :: "string \<Rightarrow> bytes list redis_spec" where
  "scan_spec prefix l z r l' z' \<longleftrightarrow> l' = l \<and> z' = z \<and>
     set r = utf8 ` {k. l k \<noteq> [] \<and> take (length prefix) k = prefix}"

definition keeps_views :: "'a redis_spec" where
  "keeps_views l z r l' z' \<longleftrightarrow> l' = l \<and> z' = z"

definition effect ::
  "'r list_view \<Rightarrow> 'r zset_view \<Rightarrow> ('r, 'a) exec \<Rightarrow> 'a redis_spec \<Rightarrow> bool" where
  "effect ls zs m P \<longleftrightarrow> (\<forall>s. case m s of
       (Inr a, s') \<Rightarrow> P (ls s) (zs s) a (ls s') (zs s')
     | (Inl e, s') \<Rightarrow> ls s' = ls s \<and> zs s' = zs s)"

definition redis_laws :: "'r redis_api \<Rightarrow> 'r list_view \<Rightarrow> 'r zset_view \<Rightarrow> bool" where
  "redis_laws R ls zs \<longleftrightarrow>
     (\<forall>k v. effect ls zs (r_lpush R k v) (lpush_spec k v)) \<and>
     (\<forall>k j. effect ls zs (r_brpoplpush R k j) (brpoplpush_spec k j)) \<and>
     (\<forall>k v. effect ls zs (r_lrem1 R k v) (lrem1_spec k v)) \<and>
     (\<forall>k a b. effect ls zs (r_lrange R k a b) (lrange_spec k a b)) \<and>
     (\<forall>k. effect ls zs (r_llen R k) (llen_spec k)) \<and>
     (\<forall>k v x. effect ls zs (r_zadd R k v x) (zadd_spec k v x)) \<and>
     (\<forall>k. effect ls zs (r_zpopmin R k) (zpopmin_spec k)) \<and>
     (\<forall>p. effect ls zs (r_scan R p) (scan_spec p)) \<and>
     (\<forall>k. effect ls zs (r_incr R k) keeps_views) \<and>
     (\<forall>k n. effect ls zs (r_expire R k n) keeps_views) \<and>
     (\<forall>k v n. effect ls zs (r_setex R k v n) keeps_views)"

section \<open>Commands inside operations\<close>

abbreviation did :: "'r list_view \<Rightarrow> 'r zset_view \<Rightarrow> 'r sysworld \<Rightarrow> 'a redis_spec \<Rightarrow> 'a \<Rightarrow> 'r sysworld \<Rightarrow> bool" where
  "did ls zs w P a w' \<equiv> P (ls (w_redis w)) (zs (w_redis w)) a (ls (w_redis w')) (zs (w_redis w'))"

lemma redisE_effect:
  assumes "effect ls zs m P" "redisE m w = (r, w')"
  shows "case r of Inr a \<Rightarrow> P (ls (w_redis w)) (zs (w_redis w)) a (ls (w_redis w')) (zs (w_redis w'))
     | Inl e \<Rightarrow> ls (w_redis w') = ls (w_redis w) \<and> zs (w_redis w') = zs (w_redis w)"
proof -
  obtain r1 s1 where m: "m (w_redis w) = (r1, s1)" by (cases "m (w_redis w)")
  with assms(2) have "r = r1" "w' = w\<lparr>w_redis := s1\<rparr>" by (simp_all add: redisE_def)
  moreover have "case m (w_redis w) of
       (Inr a, s') \<Rightarrow> P (ls (w_redis w)) (zs (w_redis w)) a (ls s') (zs s')
     | (Inl e, s') \<Rightarrow> ls s' = ls (w_redis w) \<and> zs s' = zs (w_redis w)"
    using assms(1) unfolding effect_def by (rule spec)
  ultimately show ?thesis using m by (cases r1) simp_all
qed

lemma redisE_frame: "redisE m w = (r, w') \<Longrightarrow> w' = w\<lparr>w_redis := w_redis w'\<rparr>"
  by (auto simp: redisE_def split: prod.splits)

text \<open>What a successful command has done, read off the laws.\<close>

lemma redis_lawsD:
  assumes "redis_laws R ls zs"
  shows "effect ls zs (r_lpush R k v) (lpush_spec k v)"
    "effect ls zs (r_brpoplpush R k j) (brpoplpush_spec k j)"
    "effect ls zs (r_lrem1 R k v) (lrem1_spec k v)"
    "effect ls zs (r_lrange R k a b) (lrange_spec k a b)"
    "effect ls zs (r_zadd R k v x) (zadd_spec k v x)"
    "effect ls zs (r_zpopmin R k) (zpopmin_spec k)"
    "effect ls zs (r_scan R k) (scan_spec k)"
    "effect ls zs (r_llen R k) (llen_spec k)"
  using assms unfolding redis_laws_def by auto

lemma effect_ok: "effect ls zs m P \<Longrightarrow> redisE m w = (Inr a, w') \<Longrightarrow> did ls zs w P a w'"
  using redisE_effect [of ls zs m P w "Inr a" w'] by simp

lemmas redis_ok = redis_lawsD [THEN effect_ok]

lemmas spec_defs = lpush_spec_def brpoplpush_spec_def lrem1_spec_def lrange_spec_def zadd_spec_def
  zpopmin_spec_def scan_spec_def llen_spec_def keeps_views_def

lemma queue_keys [simp]:
  "inflight_key a \<noteq> QUEUE_READY" "inflight_key a \<noteq> QUEUE_DLQ" "QUEUE_READY \<noteq> inflight_key a"
  "QUEUE_DLQ \<noteq> inflight_key a" "QUEUE_READY \<noteq> QUEUE_DLQ" "QUEUE_DLQ \<noteq> QUEUE_READY"
  "inflight_key a = inflight_key b \<longleftrightarrow> a = b"
  by (simp_all add: inflight_key_def QUEUE_READY_def QUEUE_DLQ_def QUEUE_INFLIGHT_PREFIX_def)

section \<open>The ready list is a queue\<close>

text \<open>The waiting tasks, oldest first.\<close>

definition waiting :: "'r list_view \<Rightarrow> 'r sysworld \<Rightarrow> bytes list" where
  "waiting ls w = rev (ls (w_redis w) QUEUE_READY)"

definition inflight :: "'r list_view \<Rightarrow> string \<Rightarrow> 'r sysworld \<Rightarrow> bytes list" where
  "inflight ls worker w = ls (w_redis w) (inflight_key worker)"

definition dead :: "'r list_view \<Rightarrow> 'r sysworld \<Rightarrow> bytes list" where
  "dead ls w = ls (w_redis w) QUEUE_DLQ"

lemmas queue_views = waiting_def inflight_def dead_def

lemma enqueue_ok:
  assumes "redis_laws R ls zs" "enqueue R payload w = (Inr n, w')"
  shows "waiting ls w' = waiting ls w @ [task_bytes (w_float_repr w) payload] \<and>
    (\<forall>k. inflight ls k w' = inflight ls k w) \<and> dead ls w' = dead ls w \<and> zs (w_redis w') = zs (w_redis w)"
  using assms(2) redis_ok(1) [OF assms(1), of QUEUE_READY _ w n w']
  by (auto simp: enqueue_def queue_views spec_defs)

lemma claim_ok:
  assumes laws: "redis_laws R ls zs" and run: "claim R loads worker w = (Inr r, w')"
  shows "case waiting ls w of
      [] \<Rightarrow> r = None \<and> waiting ls w' = [] \<and> inflight ls worker w' = inflight ls worker w
    | b # bs \<Rightarrow> (\<exists>v. loads b = Inr v \<and> r = Some v) \<and> waiting ls w' = bs \<and>
        inflight ls worker w' = b # inflight ls worker w"
proof -
  from run obtain res where res: "redisE (r_brpoplpush R QUEUE_READY (inflight_key worker)) w = (Inr res, w')"
    and r: "case res of None \<Rightarrow> r = None | Some b \<Rightarrow> (\<exists>v. loads b = Inr v \<and> r = Some v)"
    by (auto simp: claim_def split: option.splits sum.splits elim!: bindE_InrD)
  have "rev xs = b # bs \<Longrightarrow> xs = rev bs @ [b]" for xs and b :: bytes and bs
    by (metis rev.simps(2) rev_rev_ident)
  with redis_ok(2) [OF laws res] r show ?thesis
    by (cases "waiting ls w") (auto simp: queue_views spec_defs Let_def)
qed

lemma ack_ok:
  assumes laws: "redis_laws R ls zs" and run: "ack R worker b w = (Inr n, w')"
  shows "inflight ls worker w' = remove1 b (inflight ls worker w) \<and> waiting ls w' = waiting ls w \<and>
    dead ls w' = dead ls w \<and> n = (if b \<in> set (inflight ls worker w) then 1 else 0)"
  using redis_ok(3) [OF laws, of "inflight_key worker" b w n w'] run
  by (auto simp: ack_def decode_utf8_def queue_views spec_defs split: if_splits)

section \<open>No task is lost\<close>

text \<open>
  All tasks the queue keys hold, for a set of workers: waiting, in flight, dead or delayed.
\<close>

definition all_tasks :: "'r list_view \<Rightarrow> 'r zset_view \<Rightarrow> string set \<Rightarrow> 'r sysworld \<Rightarrow> bytes multiset" where
  "all_tasks ls zs W w = mset (ls (w_redis w) QUEUE_READY) + mset (ls (w_redis w) QUEUE_DLQ)
     + (\<Sum>k \<in> W. mset (ls (w_redis w) (inflight_key k))) + mset_set (dom (zs (w_redis w) QUEUE_DELAYED))"

lemma inflight_sum:
  assumes "finite W" "k \<in> W"
  shows "(\<Sum>j \<in> W. mset ((l(inflight_key k := xs)) (inflight_key j))) + mset (l (inflight_key k)) =
    (\<Sum>j \<in> W. mset (l (inflight_key j))) + mset xs"
proof -
  have "(\<Sum>j \<in> W - {k}. mset ((l(inflight_key k := xs)) (inflight_key j))) = (\<Sum>j \<in> W - {k}. mset (l (inflight_key j)))"
    by (rule sum.cong) auto
  then show ?thesis using assms by (simp add: sum.remove [of W k])
qed

lemma add_key_frame:
  "k = QUEUE_READY \<or> k = QUEUE_DLQ \<Longrightarrow>
     (\<Sum>j \<in> W. mset ((l(k := xs)) (inflight_key j))) = (\<Sum>j \<in> W. mset (l (inflight_key j)))"
  by (rule sum.cong) auto

lemma enqueue_tasks:
  assumes "redis_laws R ls zs" "enqueue R payload w = (Inr n, w')"
  shows "all_tasks ls zs W w' = add_mset (task_bytes (w_float_repr w) payload) (all_tasks ls zs W w)"
  using assms(2) redis_ok(1) [OF assms(1), of QUEUE_READY _ w n w']
  by (simp add: enqueue_def all_tasks_def spec_defs add_key_frame)

lemma move_to_dlq_tasks:
  assumes "redis_laws R ls zs" "move_to_dlq R b w = (Inr n, w')"
  shows "all_tasks ls zs W w' = add_mset b (all_tasks ls zs W w)"
  using assms(2) redis_ok(1) [OF assms(1), of QUEUE_DLQ _ w n w']
  by (simp add: move_to_dlq_def all_tasks_def spec_defs add_key_frame)

lemma mset_last_butlast: "xs \<noteq> [] \<Longrightarrow> add_mset (last xs) (mset (butlast xs)) = mset xs"
  by (metis append_butlast_last_id mset.simps mset_append union_mset_add_mset_right add.right_neutral)

lemma claim_tasks:
  assumes laws: "redis_laws R ls zs" and W: "finite W" "worker \<in> W"
    and run: "redisE (r_brpoplpush R QUEUE_READY (inflight_key worker)) w = (Inr res, w')"
  shows "all_tasks ls zs W w' = all_tasks ls zs W w"
proof (cases "ls (w_redis w) QUEUE_READY = []")
  case True
  with redis_ok(2) [OF laws run] show ?thesis by (simp add: spec_defs all_tasks_def)
next
  case False
  let ?l = "ls (w_redis w)" and ?b = "last (ls (w_redis w) QUEUE_READY)"
  have l': "ls (w_redis w') = (?l(QUEUE_READY := butlast (?l QUEUE_READY)))
      (inflight_key worker := ?b # ?l (inflight_key worker))"
    "zs (w_redis w') = zs (w_redis w)"
    using redis_ok(2) [OF laws run] False by (auto simp: spec_defs Let_def)
  have "(\<Sum>j \<in> W. mset (ls (w_redis w') (inflight_key j))) + mset (?l (inflight_key worker))
      = (\<Sum>j \<in> W. mset (?l (inflight_key j))) + add_mset ?b (mset (?l (inflight_key worker)))"
    using inflight_sum [OF W, of "?l(QUEUE_READY := butlast (?l QUEUE_READY))"]
    unfolding l' by (simp add: add_key_frame)
  then have "(\<Sum>j \<in> W. mset (ls (w_redis w') (inflight_key j))) = add_mset ?b (\<Sum>j \<in> W. mset (?l (inflight_key j)))"
    by simp
  moreover have "ls (w_redis w') QUEUE_READY = butlast (?l QUEUE_READY)" "ls (w_redis w') QUEUE_DLQ = ?l QUEUE_DLQ"
    unfolding l' by simp_all
  ultimately show ?thesis
    using mset_last_butlast [OF False] unfolding all_tasks_def l'(2) by simp
qed

lemma lrem_inflight_tasks:
  assumes laws: "redis_laws R ls zs" and W: "finite W" "worker \<in> W"
    and b: "b \<in> set (inflight ls worker w)"
    and run: "redisE (r_lrem1 R (inflight_key worker) b) w = (Inr n, w')"
  shows "all_tasks ls zs W w = add_mset b (all_tasks ls zs W w')"
proof -
  let ?l = "ls (w_redis w)"
  have l': "ls (w_redis w') = ?l(inflight_key worker := remove1 b (?l (inflight_key worker)))"
    "zs (w_redis w') = zs (w_redis w)"
    using redis_ok(3) [OF laws run] by (auto simp: spec_defs)
  have "(\<Sum>j \<in> W. mset (?l (inflight_key j))) + mset (remove1 b (?l (inflight_key worker)))
      = (\<Sum>j \<in> W. mset (ls (w_redis w') (inflight_key j))) + mset (?l (inflight_key worker))"
    using inflight_sum [OF W, of ?l] unfolding l' by simp
  moreover have "mset (?l (inflight_key worker)) = add_mset b (mset (remove1 b (?l (inflight_key worker))))"
    using b by (simp add: inflight_def)
  ultimately have "(\<Sum>j \<in> W. mset (?l (inflight_key j))) + mset (remove1 b (?l (inflight_key worker)))
      = add_mset b (\<Sum>j \<in> W. mset (ls (w_redis w') (inflight_key j))) + mset (remove1 b (?l (inflight_key worker)))"
    by (simp only: union_mset_add_mset_right union_mset_add_mset_left)
  then have "(\<Sum>j \<in> W. mset (?l (inflight_key j))) = add_mset b (\<Sum>j \<in> W. mset (ls (w_redis w') (inflight_key j)))"
    by (rule add_right_imp_eq)
  moreover have "ls (w_redis w') QUEUE_READY = ?l QUEUE_READY" "ls (w_redis w') QUEUE_DLQ = ?l QUEUE_DLQ"
    unfolding l'(1) by simp_all
  ultimately show ?thesis unfolding all_tasks_def l'(2) by (simp only: union_mset_add_mset_right union_mset_add_mset_left)
qed

lemma move_to_ready_tasks:
  assumes laws: "redis_laws R ls zs" and W: "finite W" "worker \<in> W"
    and b: "b \<in> set (inflight ls worker w)" and run: "move_to_ready R worker b w = (Inr u, w')"
  shows "all_tasks ls zs W w' = all_tasks ls zs W w"
proof -
  from run obtain n m w1 where r: "redisE (r_lrem1 R (inflight_key worker) b) w = (Inr n, w1)"
    and p: "redisE (r_lpush R QUEUE_READY b) w1 = (Inr m, w')"
    by (auto simp: move_to_ready_def decode_utf8_def elim!: bindE_InrD split: if_splits)
  have "all_tasks ls zs W w' = add_mset b (all_tasks ls zs W w1)"
    using redis_ok(1) [OF laws p] by (simp add: all_tasks_def spec_defs add_key_frame)
  with lrem_inflight_tasks [OF laws W b r] show ?thesis by simp
qed

lemma ack_tasks:
  assumes laws: "redis_laws R ls zs" and W: "finite W" "worker \<in> W"
    and b: "b \<in> set (inflight ls worker w)" and run: "ack R worker b w = (Inr n, w')"
  shows "all_tasks ls zs W w = add_mset b (all_tasks ls zs W w')"
  using lrem_inflight_tasks [OF laws W b, of n w'] run
  by (simp add: ack_def decode_utf8_def split: if_splits)

lemma requeue_from_dlq_tasks:
  assumes laws: "redis_laws R ls zs" and run: "requeue_from_dlq R b w = (Inr moved, w')"
  shows "all_tasks ls zs W w' = all_tasks ls zs W w \<and> (moved \<longleftrightarrow> b \<in> set (dead ls w)) \<and>
    (moved \<longrightarrow> waiting ls w' = waiting ls w @ [b] \<and> dead ls w' = remove1 b (dead ls w))"
proof -
  from run obtain n w1 where r: "redisE (r_lrem1 R QUEUE_DLQ b) w = (Inr n, w1)"
    and k: "if n > 0 then moved \<and> (\<exists>m. redisE (r_lpush R QUEUE_READY b) w1 = (Inr m, w')) else \<not> moved \<and> w' = w1"
    by (auto simp: requeue_from_dlq_def decode_utf8_def elim!: bindE_InrD split: if_splits)
  note lrem = redis_ok(3) [OF laws r]
  show ?thesis
  proof (cases "b \<in> set (dead ls w)")
    case True
    then have "n > 0" using lrem by (simp add: spec_defs dead_def)
    with k obtain m where m: "moved" "redisE (r_lpush R QUEUE_READY b) w1 = (Inr m, w')" by auto
    have "mset (ls (w_redis w) QUEUE_DLQ) = add_mset b (mset (remove1 b (ls (w_redis w) QUEUE_DLQ)))"
      using True by (simp add: dead_def)
    then show ?thesis
      using redis_ok(1) [OF laws m(2)] lrem True m(1)
      by (simp add: all_tasks_def spec_defs add_key_frame queue_views)
  next
    case False
    then have "\<not> n > 0" using lrem by (simp add: spec_defs dead_def)
    with k lrem False show ?thesis
      by (simp add: all_tasks_def spec_defs add_key_frame queue_views remove1_idem)
  qed
qed

section \<open>Promoting delayed tasks\<close>

definition delayed :: "'r zset_view \<Rightarrow> 'r sysworld \<Rightarrow> bytes \<Rightarrow> rat option" where
  "delayed zs w = zs (w_redis w) QUEUE_DELAYED"

text \<open>
  What a call promotes: due members, lowest score first, each once, as many as there are up to
  the batch size; they join the ready list in that order and leave the delayed set.
\<close>

definition promotes ::
  "'r list_view \<Rightarrow> 'r zset_view \<Rightarrow> rat \<Rightarrow> nat \<Rightarrow> 'r sysworld \<Rightarrow> bytes list \<Rightarrow> 'r sysworld \<Rightarrow> bool" where
  "promotes ls zs max_score n w items w' \<longleftrightarrow>
     length items \<le> n \<and> distinct items \<and>
     (\<forall>v \<in> set items. \<exists>x \<le> max_score. delayed zs w v = Some x) \<and>
     sorted (map (\<lambda>v. the (delayed zs w v)) items) \<and>
     waiting ls w' = waiting ls w @ items \<and>
     delayed zs w' = (\<lambda>v. if v \<in> set items then None else delayed zs w v) \<and>
     (length items < n \<longrightarrow> (\<forall>v x. delayed zs w' v = Some x \<longrightarrow> max_score < x)) \<and>
     (\<forall>k. inflight ls k w' = inflight ls k w) \<and> dead ls w' = dead ls w"

lemma promotes_Nil:
  assumes "ls (w_redis w') = ls (w_redis w)" "delayed zs w' = delayed zs w"
    and "n = 0 \<or> (\<forall>v x. delayed zs w v = Some x \<longrightarrow> max_score < x)"
  shows "promotes ls zs max_score n w [] w'"
  using assms by (auto simp: promotes_def queue_views)

lemma promotes_Cons:
  assumes v: "delayed zs w v = Some x" "x \<le> max_score" "\<And>v' x'. delayed zs w v' = Some x' \<Longrightarrow> x \<le> x'"
    and w1: "waiting ls w1 = waiting ls w @ [v]" "delayed zs w1 = (delayed zs w)(v := None)"
      "\<And>k. inflight ls k w1 = inflight ls k w" "dead ls w1 = dead ls w"
    and p: "promotes ls zs max_score n w1 items w'"
  shows "promotes ls zs max_score (Suc n) w (v # items) w'"
proof -
  have nv: "v \<notin> set items" using p w1(2) by (auto simp: promotes_def)
  have same: "delayed zs w u = delayed zs w1 u" if "u \<in> set items" for u
    using nv that w1(2) by auto
  have low: "x \<le> the (delayed zs w u)" if "u \<in> set items" for u
  proof -
    from that p obtain y where "delayed zs w1 u = Some y" by (auto simp: promotes_def)
    with same [OF that] v(3) show ?thesis by simp
  qed
  have "map (\<lambda>v. the (delayed zs w v)) items = map (\<lambda>v. the (delayed zs w1 v)) items"
    using same by simp
  moreover have "sorted (map (\<lambda>v. the (delayed zs w1 v)) items)" using p by (simp add: promotes_def)
  ultimately have "sorted (map (\<lambda>v. the (delayed zs w v)) items)" by (simp only:)
  then have srt: "sorted (map (\<lambda>v. the (delayed zs w v)) (v # items))" using v low by simp
  note ps = p [unfolded promotes_def]
  have new: "delayed zs w' = (\<lambda>u. if u \<in> set (v # items) then None else delayed zs w u)"
    using ps w1(2) nv by (simp add: fun_eq_iff)
  have due: "\<forall>u \<in> set (v # items). \<exists>y \<le> max_score. delayed zs w u = Some y"
    using ps v(1,2) same by simp
  have rest: "length (v # items) < Suc n \<longrightarrow> (\<forall>u y. delayed zs w' u = Some y \<longrightarrow> max_score < y)"
    using ps by simp
  show ?thesis
    unfolding promotes_def using srt new due rest nv ps w1(1,3,4) by (intro conjI) simp_all
qed

lemma mature_loop_ok:
  assumes laws: "redis_laws R ls zs" and run: "mature_loop R max_score n promoted w = (Inr p', w')"
  shows "\<exists>items. p' = promoted + int (length items) \<and> promotes ls zs max_score n w items w'"
  using run
proof (induction n arbitrary: promoted w)
  case 0
  then show ?case by (intro exI [of _ "[]"]) (simp add: promotes_Nil)
next
  case (Suc n)
  from Suc.prems obtain res w1 where pop: "redisE (r_zpopmin R QUEUE_DELAYED) w = (Inr res, w1)"
    and k: "(case res of None \<Rightarrow> returnE promoted
     | Some (item, score) \<Rightarrow>
         if score > max_score
         then bindE (redisE (r_zadd R QUEUE_DELAYED item score)) (\<lambda>_. returnE promoted)
         else bindE (redisE (r_lpush R QUEUE_READY item)) (\<lambda>_.
              mature_loop R max_score n (promoted + 1))) w1 = (Inr p', w')"
    by (auto elim!: bindE_InrD)
  note pop' = redis_ok(6) [OF laws pop]
  show ?case
  proof (cases res)
    case None
    with k pop' have "p' = promoted" "promotes ls zs max_score (Suc n) w [] w'"
      by (auto simp: spec_defs delayed_def intro!: promotes_Nil)
    then show ?thesis by (intro exI [of _ "[]"]) simp
  next
    case (Some vx)
    obtain v x where vx: "vx = (v, x)" by (cases vx)
    have v: "delayed zs w v = Some x" "\<And>v' x'. delayed zs w v' = Some x' \<Longrightarrow> x \<le> x'"
      and w1: "ls (w_redis w1) = ls (w_redis w)" "delayed zs w1 = (delayed zs w)(v := None)"
      using pop' Some vx by (auto simp: spec_defs delayed_def)
    show ?thesis
    proof (cases "x > max_score")
      case True
      with k Some vx obtain m where "redisE (r_zadd R QUEUE_DELAYED v x) w1 = (Inr m, w')" "p' = promoted"
        by (auto elim!: bindE_InrD)
      moreover from redis_ok(5) [OF laws this(1)] w1 v have "ls (w_redis w') = ls (w_redis w)"
        "delayed zs w' = delayed zs w" by (auto simp: spec_defs delayed_def fun_eq_iff)
      moreover have "\<forall>v' x'. delayed zs w v' = Some x' \<longrightarrow> max_score < x'" using v True by force
      ultimately show ?thesis by (intro exI [of _ "[]"]) (simp add: promotes_Nil)
    next
      case False
      with k Some vx obtain m w2 where push: "redisE (r_lpush R QUEUE_READY v) w1 = (Inr m, w2)"
        and loop: "mature_loop R max_score n (promoted + 1) w2 = (Inr p', w')"
        by (auto elim!: bindE_InrD)
      from Suc.IH [OF loop] obtain items where it: "p' = promoted + 1 + int (length items)"
        "promotes ls zs max_score n w2 items w'" by blast
      have "waiting ls w2 = waiting ls w @ [v]" "delayed zs w2 = (delayed zs w)(v := None)"
        "\<And>k. inflight ls k w2 = inflight ls k w" "dead ls w2 = dead ls w"
        using redis_ok(1) [OF laws push] w1 by (auto simp: spec_defs queue_views delayed_def)
      with v False it have "promotes ls zs max_score (Suc n) w (v # items) w'"
        by (intro promotes_Cons [of zs w v x max_score ls w2]) auto
      with it show ?thesis by (intro exI [of _ "v # items"]) simp
    qed
  qed
qed

lemma promotes_tasks:
  assumes "promotes ls zs mx n w items w'" "finite (dom (delayed zs w))"
  shows "all_tasks ls zs W w' = all_tasks ls zs W w"
proof -
  have sub: "set items \<subseteq> dom (delayed zs w)" and d: "distinct items"
    and z: "dom (delayed zs w') = dom (delayed zs w) - set items"
    and r: "mset (ls (w_redis w') QUEUE_READY) = mset items + mset (ls (w_redis w) QUEUE_READY)"
    using assms(1) by (auto simp: promotes_def waiting_def split: if_splits dest: arg_cong [of _ _ mset])
  have "mset_set (dom (delayed zs w)) = mset_set (dom (delayed zs w) - set items) + mset_set (set items)"
    using assms(2) sub by (metis finite_Diff finite_set Diff_disjoint Un_Diff_cancel2 mset_set_Union
        Un_absorb2 Int_commute)
  then have "mset_set (dom (delayed zs w)) = mset_set (dom (delayed zs w')) + mset items"
    using d z by (simp add: mset_set_set)
  moreover have "ls (w_redis w') (inflight_key k) = ls (w_redis w) (inflight_key k)"
    "ls (w_redis w') QUEUE_DLQ = ls (w_redis w) QUEUE_DLQ" for k
    using assms(1) by (simp_all add: promotes_def queue_views)
  ultimately show ?thesis by (simp add: all_tasks_def r delayed_def)
qed

text \<open>
  The promotion is not atomic: when the push is refused after the pop, the task is in neither
  place any more.
\<close>

lemma mature_tasks_refused_push:
  assumes laws: "redis_laws R ls zs" and v: "delayed zs w v = Some x" "x \<le> epoch_ms now"
    and only: "\<And>u y. delayed zs w u = Some y \<Longrightarrow> u \<noteq> v \<Longrightarrow> x < y" and b: "0 < batch"
    and pop: "redisE (r_zpopmin R QUEUE_DELAYED) w = (Inr res, w1)"
    and push: "redisE (r_lpush R QUEUE_READY v) w1 = (Inl e, w2)"
  shows "mature_tasks R now batch w = (Inl e, w2) \<and> delayed zs w2 v = None \<and>
    waiting ls w2 = waiting ls w"
proof -
  have res: "res = Some (v, x)"
  proof (cases res)
    case None
    with redis_ok(6) [OF laws pop] v show ?thesis by (auto simp: spec_defs delayed_def)
  next
    case (Some ux)
    obtain u y where ux: "ux = (u, y)" by (cases ux)
    with Some redis_ok(6) [OF laws pop] have "delayed zs w u = Some y" "y \<le> x"
      using v by (auto simp: spec_defs delayed_def)
    with only [of u y] v Some ux show ?thesis by (cases "u = v") auto
  qed
  have w2: "ls (w_redis w2) = ls (w_redis w1)" "zs (w_redis w2) = zs (w_redis w1)"
    using redisE_effect [OF redis_lawsD(1) [OF laws] push] by simp_all
  have w1: "ls (w_redis w1) = ls (w_redis w)" "delayed zs w1 = (delayed zs w)(v := None)"
    using redis_ok(6) [OF laws pop] res by (auto simp: spec_defs delayed_def)
  obtain n where "nat batch = Suc n" using b by (cases "nat batch") auto
  then have "mature_tasks R now batch w = (Inl e, w2)"
    using pop push res v by (simp add: mature_tasks_def)
  with w1 w2 show ?thesis by (simp add: delayed_def waiting_def)
qed

section \<open>A server in memory\<close>

record mem =
  mem_lists :: "(string \<times> bytes list) list"
  mem_zsets :: "(string \<times> (bytes \<times> rat) list) list"
  mem_counters :: "(string \<times> int) list"

definition mem_ls :: "mem list_view" where
  "mem_ls m k = (case map_of (mem_lists m) k of None \<Rightarrow> [] | Some l \<Rightarrow> l)"

definition mem_zset :: "mem \<Rightarrow> string \<Rightarrow> (bytes \<times> rat) list" where
  "mem_zset m k = (case map_of (mem_zsets m) k of None \<Rightarrow> [] | Some z \<Rightarrow> z)"

definition mem_zs :: "mem zset_view" where
  "mem_zs m k = map_of (mem_zset m k)"

definition put_list :: "string \<Rightarrow> bytes list \<Rightarrow> mem \<Rightarrow> mem" where
  "put_list k l m = m\<lparr>mem_lists := AList.update k l (mem_lists m)\<rparr>"

definition put_zset :: "string \<Rightarrow> (bytes \<times> rat) list \<Rightarrow> mem \<Rightarrow> mem" where
  "put_zset k z m = m\<lparr>mem_zsets := AList.update k z (mem_zsets m)\<rparr>"

fun lowest :: "bytes \<times> rat \<Rightarrow> (bytes \<times> rat) list \<Rightarrow> bytes \<times> rat" where
  "lowest p [] = p"
| "lowest p (q # qs) = lowest (if snd q < snd p then q else p) qs"

definition mem_redis :: "mem redis_api" where
  "mem_redis = \<lparr>
     r_lpush = (\<lambda>k v m. (Inr (int (length (mem_ls m k)) + 1), put_list k (v # mem_ls m k) m)),
     r_brpoplpush = (\<lambda>k j m. if mem_ls m k = [] then (Inr None, m)
       else let b = last (mem_ls m k); m' = put_list k (butlast (mem_ls m k)) m
            in (Inr (Some b), put_list j (b # mem_ls m' j) m')),
     r_lrem1 = (\<lambda>k v m. (Inr (if v \<in> set (mem_ls m k) then 1 else 0), put_list k (remove1 v (mem_ls m k)) m)),
     r_lrange = (\<lambda>k a b m. (Inr (py_lrange (mem_ls m k) a b), m)),
     r_llen = (\<lambda>k m. (Inr (int (length (mem_ls m k))), m)),
     r_zadd = (\<lambda>k v x m. (Inr (if mem_zs m k v = None then 1 else 0), put_zset k (AList.update v x (mem_zset m k)) m)),
     r_zpopmin = (\<lambda>k m. case AList.clearjunk (mem_zset m k) of [] \<Rightarrow> (Inr None, m)
       | p # ps \<Rightarrow> let q = lowest p ps in (Inr (Some q), put_zset k (AList.delete (fst q) (mem_zset m k)) m)),
     r_incr = (\<lambda>k m. let n = (case map_of (mem_counters m) k of None \<Rightarrow> 0 | Some n \<Rightarrow> n) + 1
       in (Inr n, m\<lparr>mem_counters := AList.update k n (mem_counters m)\<rparr>)),
     r_expire = (\<lambda>k n m. (Inr (), m)),
     r_setex = (\<lambda>k v n m. (Inr (), m)),
     r_scan = (\<lambda>p m. (Inr (map utf8 (filter (\<lambda>k. mem_ls m k \<noteq> [] \<and> take (length p) k = p)
       (remdups (map fst (mem_lists m))))), m))\<rparr>"

lemma mem_views [simp]:
  "mem_ls (put_list k l m) = (mem_ls m)(k := l)" "mem_zs (put_list k l m) = mem_zs m"
  "mem_ls (put_zset k z m) = mem_ls m" "mem_zs (put_zset k z m) = (mem_zs m)(k := map_of z)"
  "mem_ls (m\<lparr>mem_counters := c\<rparr>) = mem_ls m" "mem_zs (m\<lparr>mem_counters := c\<rparr>) = mem_zs m"
  by (auto simp: mem_ls_def mem_zs_def mem_zset_def put_list_def put_zset_def update_conv fun_eq_iff)

lemma lowest_least: "lowest p qs \<in> set (p # qs) \<and> (\<forall>q \<in> set (p # qs). snd (lowest p qs) \<le> snd q)"
  by (induction p qs rule: lowest.induct) (auto split: if_splits)

lemma mem_zpopmin:
  assumes "AList.clearjunk z = p # ps" "lowest p ps = (v, x)"
  shows "map_of z v = Some x \<and> (\<forall>v' x'. map_of z v' = Some x' \<longrightarrow> x \<le> x')"
proof -
  have m: "map_of z = map_of (p # ps)" using assms(1) by (metis map_of_clearjunk)
  have d: "distinct (map fst (p # ps))" using assms(1) distinct_clearjunk by metis
  have "(v, x) \<in> set (p # ps)" "\<forall>q \<in> set (p # ps). x \<le> snd q"
    using lowest_least [of p ps] assms(2) by simp_all
  then show ?thesis using m d by (metis map_of_SomeD map_of_is_SomeI snd_conv)
qed

lemma mem_key_listed: "mem_ls m k \<noteq> [] \<Longrightarrow> k \<in> fst ` set (mem_lists m)"
  by (auto simp: mem_ls_def split: option.splits dest: map_of_SomeD intro: rev_image_eqI)

lemma mem_redis_laws: "redis_laws mem_redis mem_ls mem_zs"
proof -
  have pop: "effect mem_ls mem_zs (r_zpopmin mem_redis k) (zpopmin_spec k)" for k
    unfolding effect_def
  proof
    fix m
    show "case r_zpopmin mem_redis k m of
         (Inl e, s') \<Rightarrow> mem_ls s' = mem_ls m \<and> mem_zs s' = mem_zs m
       | (Inr a, s') \<Rightarrow> zpopmin_spec k (mem_ls m) (mem_zs m) a (mem_ls s') (mem_zs s')"
    proof (cases "AList.clearjunk (mem_zset m k)")
      case Nil
      then have "map_of (mem_zset m k) = (\<lambda>_. None)" by (metis map_of_clearjunk map_of.simps(1))
      with Nil show ?thesis by (simp add: mem_redis_def spec_defs mem_zs_def)
    next
      case (Cons p ps)
      obtain v x where q: "lowest p ps = (v, x)" by (cases "lowest p ps")
      with Cons mem_zpopmin [OF Cons q] show ?thesis
        by (simp add: mem_redis_def spec_defs Let_def mem_zs_def delete_conv')
    qed
  qed
  have scan: "effect mem_ls mem_zs (r_scan mem_redis p) (scan_spec p)" for p
    using mem_key_listed by (auto simp: effect_def mem_redis_def spec_defs)
  show ?thesis
    unfolding redis_laws_def
    by (intro conjI allI pop scan)
      (auto simp: effect_def mem_redis_def spec_defs Let_def update_conv' mem_zs_def [of _ k for k]
        split: if_splits)
qed

section \<open>The queue as a queue\<close>

text \<open>
  What the keys of the reliable queue and of the dead letter queue stand for, and what the
  operations do to it: the specification the Redis commands implement.
\<close>

record task_queue =
  q_ready :: "bytes list"
  q_inflight :: "string \<Rightarrow> bytes list"
  q_dead :: "bytes list"

definition queue_of :: "'r list_view \<Rightarrow> 'r sysworld \<Rightarrow> task_queue" where
  "queue_of ls w = \<lparr>q_ready = waiting ls w, q_inflight = (\<lambda>k. inflight ls k w), q_dead = dead ls w\<rparr>"

definition spec_enqueue :: "bytes \<Rightarrow> task_queue \<Rightarrow> task_queue" where
  "spec_enqueue b q = q\<lparr>q_ready := q_ready q @ [b]\<rparr>"

definition spec_claim :: "string \<Rightarrow> task_queue \<Rightarrow> bytes option \<times> task_queue" where
  "spec_claim worker q = (case q_ready q of [] \<Rightarrow> (None, q)
     | b # bs \<Rightarrow> (Some b, q\<lparr>q_ready := bs, q_inflight := (q_inflight q)(worker := b # q_inflight q worker)\<rparr>))"

definition spec_ack :: "string \<Rightarrow> bytes \<Rightarrow> task_queue \<Rightarrow> task_queue" where
  "spec_ack worker b q = q\<lparr>q_inflight := (q_inflight q)(worker := remove1 b (q_inflight q worker))\<rparr>"

definition spec_reclaim :: "string \<Rightarrow> bytes \<Rightarrow> task_queue \<Rightarrow> task_queue" where
  "spec_reclaim worker b q = spec_enqueue b (spec_ack worker b q)"

definition spec_bury :: "bytes \<Rightarrow> task_queue \<Rightarrow> task_queue" where
  "spec_bury b q = q\<lparr>q_dead := b # q_dead q\<rparr>"

definition spec_drop :: "bytes \<Rightarrow> task_queue \<Rightarrow> task_queue" where
  "spec_drop b q = q\<lparr>q_dead := remove1 b (q_dead q)\<rparr>"

definition spec_requeue :: "bytes \<Rightarrow> task_queue \<Rightarrow> bool \<times> task_queue" where
  "spec_requeue b q = (if b \<in> set (q_dead q) then (True, spec_enqueue b (spec_drop b q)) else (False, q))"

lemmas queue_specs = spec_enqueue_def spec_claim_def spec_ack_def spec_reclaim_def spec_bury_def spec_drop_def
  spec_requeue_def

text \<open>
  How an operation may end, on the abstract queue: it returns what the specification returns and
  has had its effect, or it raises, which it never does when \<open>ok\<close>, and has had no effect or the
  first half of it.
\<close>

definition op_ends ::
  "bool \<Rightarrow> (task_queue \<Rightarrow> 'a \<times> task_queue) \<Rightarrow> (task_queue \<Rightarrow> task_queue) \<Rightarrow> task_queue \<Rightarrow> exn + 'a \<Rightarrow> task_queue \<Rightarrow> bool" where
  "op_ends ok f half q r q' \<longleftrightarrow> (case r of Inr a \<Rightarrow> (a, q') = f q | Inl e \<Rightarrow> \<not> ok \<and> (q' = q \<or> q' = half q))"

text \<open>
  \<open>claim\<close> has moved the task when its bytes do not decode: the error is then that of the decoder
  and the task stays in flight.
\<close>

definition claim_ends ::
  "bool \<Rightarrow> (bytes \<Rightarrow> exn + json) \<Rightarrow> string \<Rightarrow> task_queue \<Rightarrow> exn + json option \<Rightarrow> task_queue \<Rightarrow> bool" where
  "claim_ends ok loads worker q r q' \<longleftrightarrow>
     (\<not> ok \<and> q' = q \<and> (\<exists>e. r = Inl e)) \<or>
     (q' = snd (spec_claim worker q) \<and>
      r = (case fst (spec_claim worker q) of None \<Rightarrow> Inr None | Some b \<Rightarrow> map_sum id Some (loads b)))"

definition runs_as ::
  "('w \<Rightarrow> task_queue) \<Rightarrow> ('w, 'a) exec \<Rightarrow> ('w \<Rightarrow> task_queue \<Rightarrow> exn + 'a \<Rightarrow> task_queue \<Rightarrow> bool) \<Rightarrow> bool" where
  "runs_as q m S \<longleftrightarrow> (\<forall>w r w'. m w = (r, w') \<longrightarrow> S w (q w) r (q w'))"

lemma runs_asD: "runs_as q m S \<Longrightarrow> m w = (r, w') \<Longrightarrow> S w (q w) r (q w')"
  by (simp add: runs_as_def)

text \<open>A worker that claims \<open>n\<close> times.\<close>

fun claims :: "('w, 'b) exec \<Rightarrow> nat \<Rightarrow> ('w, 'b list) exec" where
  "claims clm 0 = returnE []"
| "claims clm (Suc n) = bindE clm (\<lambda>b. bindE (claims clm n) (\<lambda>bs. returnE (b # bs)))"

text \<open>The contract of the operations; \<open>up\<close> says that the server behind them answers.\<close>

locale task_queue_spec =
  fixes enq :: "dict \<Rightarrow> ('r, int) sexec" and clm :: "string \<Rightarrow> ('r, bytes option) sexec"
    and ackn :: "string \<Rightarrow> bytes \<Rightarrow> ('r, int) sexec" and infl :: "string \<Rightarrow> ('r, bytes list) sexec"
    and recl :: "string \<Rightarrow> bytes \<Rightarrow> ('r, unit) sexec" and q :: "'r sysworld \<Rightarrow> task_queue" and up :: bool
  assumes enq_runs: "runs_as q (enq p) (\<lambda>w. op_ends up
        (\<lambda>x. (int (length (q_ready x)) + 1, spec_enqueue (task_bytes (w_float_repr w) p) x)) id)"
    and clm_runs: "runs_as q (clm k) (\<lambda>w. op_ends up (spec_claim k) id)"
    and ack_runs: "runs_as q (ackn k b) (\<lambda>w. op_ends (up \<and> utf8_valid b)
        (\<lambda>x. (of_bool (b \<in> set (q_inflight x k)), spec_ack k b x)) id)"
    and infl_runs: "runs_as q (infl k) (\<lambda>w. op_ends up (\<lambda>x. (q_inflight x k, x)) id)"
    and recl_runs: "runs_as q (recl k b) (\<lambda>w. op_ends (up \<and> utf8_valid b) (\<lambda>x. ((), spec_reclaim k b x)) (spec_ack k b))"
begin

text \<open>First in, first out: a task enqueued behind \<open>k\<close> others is the \<open>k + 1\<close>-st to be claimed.\<close>

lemma claims_in_order:
  "claims (clm k) n w = (Inr bs, w') \<Longrightarrow> n \<le> length (q_ready (q w)) \<Longrightarrow>
     bs = map Some (take n (q_ready (q w))) \<and> q_ready (q w') = drop n (q_ready (q w))"
proof (induction n arbitrary: w bs)
  case (Suc n)
  from Suc.prems(1) obtain b w1 bs1 where c: "clm k w = (Inr b, w1)" and r: "claims (clm k) n w1 = (Inr bs1, w')"
    and bs: "bs = b # bs1" by (auto elim!: bindE_InrD)
  from Suc.prems(2) obtain x xs where q: "q_ready (q w) = x # xs" by (cases "q_ready (q w)") auto
  from runs_asD [OF clm_runs c] q have "b = Some x" "q_ready (q w1) = xs" by (auto simp: spec_claim_def op_ends_def)
  with Suc.IH [OF r] Suc.prems(2) q bs show ?case by simp
qed simp

lemma enqueued_last:
  assumes "enq p w = (Inr n, w1)" "claims (clm k) (Suc (length (q_ready (q w)))) w1 = (Inr bs, w')"
  shows "bs = map Some (q_ready (q w)) @ [Some (task_bytes (w_float_repr w) p)]"
  using claims_in_order [OF assms(2)] runs_asD [OF enq_runs assms(1)] by (simp add: spec_enqueue_def op_ends_def)

text \<open>With a server that answers the worker does get them.\<close>

lemma claims_answered:
  assumes up
  shows "\<exists>bs w'. claims (clm k) n w = (Inr bs, w')"
proof (induction n arbitrary: w)
  case (Suc n)
  obtain r w1 where c: "clm k w = (r, w1)" by fastforce
  from runs_asD [OF clm_runs c] assms obtain b where "r = Inr b" by (cases r) (auto simp: op_ends_def)
  moreover obtain bs w' where "claims (clm k) n w1 = (Inr bs, w')" using Suc by blast
  ultimately show ?case using c by simp
qed simp

text \<open>Reading changes nothing, and a reclaimed task is gone from the worker however the call ended,
  unless nothing happened at all.\<close>

lemma reading_changes_nothing: "infl k w = (r, w') \<Longrightarrow> q w' = q w"
  using runs_asD [OF infl_runs, of k w r w'] by (auto simp: op_ends_def split: sum.splits)

lemma reclaim_ends:
  assumes "recl k b w = (r, w')"
  shows "q w' = q w \<or> q_inflight (q w') = (q_inflight (q w))(k := remove1 b (q_inflight (q w) k))"
  using runs_asD [OF recl_runs assms] by (auto simp: op_ends_def queue_specs split: sum.splits)

end

subsection \<open>The operations keep the contract\<close>

text \<open>The server answers the commands the queue uses.\<close>

definition answers :: "'r redis_api \<Rightarrow> bool" where
  "answers R \<longleftrightarrow>
     (\<forall>k v s. \<exists>n s'. r_lpush R k v s = (Inr n, s')) \<and> (\<forall>k j s. \<exists>x s'. r_brpoplpush R k j s = (Inr x, s')) \<and>
     (\<forall>k v s. \<exists>n s'. r_lrem1 R k v s = (Inr n, s')) \<and> (\<forall>k a b s. \<exists>xs s'. r_lrange R k a b s = (Inr xs, s')) \<and>
     (\<forall>k s. \<exists>n s'. r_llen R k s = (Inr n, s'))"

lemma redisE_refused:
  assumes "redisE m w = (Inl e, w')" "\<And>s. \<exists>a s'. m s = (Inr a, s')"
  shows False
proof -
  obtain a s' where "m (w_redis w) = (Inr a, s')" using assms(2) by blast
  with assms(1) show False by (simp add: redisE_def)
qed

lemma refused:
  assumes "redis_laws R ls zs"
  shows "redisE (r_lpush R k v) w = (Inl e, w') \<Longrightarrow> \<not> answers R \<and> queue_of ls w' = queue_of ls w"
    "redisE (r_brpoplpush R k j) w = (Inl e, w') \<Longrightarrow> \<not> answers R \<and> queue_of ls w' = queue_of ls w"
    "redisE (r_lrem1 R k v) w = (Inl e, w') \<Longrightarrow> \<not> answers R \<and> queue_of ls w' = queue_of ls w"
    "redisE (r_lrange R k a b) w = (Inl e, w') \<Longrightarrow> \<not> answers R \<and> queue_of ls w' = queue_of ls w"
    "redisE (r_llen R k) w = (Inl e, w') \<Longrightarrow> \<not> answers R \<and> queue_of ls w' = queue_of ls w"
proof -
  have v: "ls (w_redis w') = ls (w_redis w) \<Longrightarrow> queue_of ls w' = queue_of ls w" by (simp add: queue_of_def queue_views)
  note law = redis_lawsD [OF assms, THEN redisE_effect, where r = "Inl e", simplified]
  show "redisE (r_lpush R k v) w = (Inl e, w') \<Longrightarrow> \<not> answers R \<and> queue_of ls w' = queue_of ls w"
    using law(1) v redisE_refused unfolding answers_def by metis
  show "redisE (r_brpoplpush R k j) w = (Inl e, w') \<Longrightarrow> \<not> answers R \<and> queue_of ls w' = queue_of ls w"
    using law(2) v redisE_refused unfolding answers_def by metis
  show "redisE (r_lrem1 R k v) w = (Inl e, w') \<Longrightarrow> \<not> answers R \<and> queue_of ls w' = queue_of ls w"
    using law(3) v redisE_refused unfolding answers_def by metis
  show "redisE (r_lrange R k a b) w = (Inl e, w') \<Longrightarrow> \<not> answers R \<and> queue_of ls w' = queue_of ls w"
    using law(4) v redisE_refused unfolding answers_def by metis
  show "redisE (r_llen R k) w = (Inl e, w') \<Longrightarrow> \<not> answers R \<and> queue_of ls w' = queue_of ls w"
    using law(8) v redisE_refused unfolding answers_def by metis
qed

definition claim_raw :: "'r redis_api \<Rightarrow> string \<Rightarrow> ('r, bytes option) sexec" where
  "claim_raw R worker = redisE (r_brpoplpush R QUEUE_READY (inflight_key worker))"

text \<open>What a command that was answered has done.\<close>

lemma done_by:
  assumes "redis_laws R ls zs"
  shows "redisE (r_lpush R QUEUE_READY b) w = (Inr n, w') \<Longrightarrow>
      n = int (length (q_ready (queue_of ls w))) + 1 \<and> queue_of ls w' = spec_enqueue b (queue_of ls w)"
    "redisE (r_lpush R QUEUE_DLQ b) w = (Inr n, w') \<Longrightarrow>
      n = int (length (q_dead (queue_of ls w))) + 1 \<and> queue_of ls w' = spec_bury b (queue_of ls w)"
    "redisE (r_lrem1 R (inflight_key k) b) w = (Inr n, w') \<Longrightarrow>
      n = of_bool (b \<in> set (q_inflight (queue_of ls w) k)) \<and> queue_of ls w' = spec_ack k b (queue_of ls w)"
    "redisE (r_lrem1 R QUEUE_DLQ b) w = (Inr n, w') \<Longrightarrow>
      n = of_bool (b \<in> set (q_dead (queue_of ls w))) \<and> queue_of ls w' = spec_drop b (queue_of ls w)"
    "redisE (r_lrange R (inflight_key k) i j) w = (Inr xs, w') \<Longrightarrow>
      xs = py_lrange (q_inflight (queue_of ls w) k) i j \<and> queue_of ls w' = queue_of ls w"
    "redisE (r_lrange R QUEUE_DLQ i j) w = (Inr xs, w') \<Longrightarrow>
      xs = py_lrange (q_dead (queue_of ls w)) i j \<and> queue_of ls w' = queue_of ls w"
    "redisE (r_llen R QUEUE_DLQ) w = (Inr n, w') \<Longrightarrow>
      n = int (length (q_dead (queue_of ls w))) \<and> queue_of ls w' = queue_of ls w"
proof -
  note ok = redis_ok [OF assms]
  show "redisE (r_lpush R QUEUE_READY b) w = (Inr n, w') \<Longrightarrow>
      n = int (length (q_ready (queue_of ls w))) + 1 \<and> queue_of ls w' = spec_enqueue b (queue_of ls w)"
    using ok(1) [of QUEUE_READY b w n w'] by (auto simp: spec_defs queue_of_def queue_views queue_specs fun_eq_iff)
  show "redisE (r_lpush R QUEUE_DLQ b) w = (Inr n, w') \<Longrightarrow>
      n = int (length (q_dead (queue_of ls w))) + 1 \<and> queue_of ls w' = spec_bury b (queue_of ls w)"
    using ok(1) [of QUEUE_DLQ b w n w'] by (auto simp: spec_defs queue_of_def queue_views queue_specs fun_eq_iff)
  show "redisE (r_lrem1 R (inflight_key k) b) w = (Inr n, w') \<Longrightarrow>
      n = of_bool (b \<in> set (q_inflight (queue_of ls w) k)) \<and> queue_of ls w' = spec_ack k b (queue_of ls w)"
    using ok(3) [of "inflight_key k" b w n w'] by (auto simp: spec_defs queue_of_def queue_views queue_specs fun_eq_iff)
  show "redisE (r_lrem1 R QUEUE_DLQ b) w = (Inr n, w') \<Longrightarrow>
      n = of_bool (b \<in> set (q_dead (queue_of ls w))) \<and> queue_of ls w' = spec_drop b (queue_of ls w)"
    using ok(3) [of QUEUE_DLQ b w n w'] by (auto simp: spec_defs queue_of_def queue_views queue_specs fun_eq_iff)
  show "redisE (r_lrange R (inflight_key k) i j) w = (Inr xs, w') \<Longrightarrow>
      xs = py_lrange (q_inflight (queue_of ls w) k) i j \<and> queue_of ls w' = queue_of ls w"
    using ok(4) [of "inflight_key k" i j w xs w'] by (auto simp: spec_defs queue_of_def queue_views)
  show "redisE (r_lrange R QUEUE_DLQ i j) w = (Inr xs, w') \<Longrightarrow>
      xs = py_lrange (q_dead (queue_of ls w)) i j \<and> queue_of ls w' = queue_of ls w"
    using ok(4) [of QUEUE_DLQ i j w xs w'] by (auto simp: spec_defs queue_of_def queue_views)
  show "redisE (r_llen R QUEUE_DLQ) w = (Inr n, w') \<Longrightarrow>
      n = int (length (q_dead (queue_of ls w))) \<and> queue_of ls w' = queue_of ls w"
    using ok(8) [of QUEUE_DLQ w n w'] by (auto simp: spec_defs queue_of_def queue_views)
qed

lemma claim_done:
  assumes laws: "redis_laws R ls zs" and run: "claim_raw R k w = (Inr res, w')"
  shows "(res, queue_of ls w') = spec_claim k (queue_of ls w)"
proof (cases "ls (w_redis w) QUEUE_READY" rule: rev_cases)
  case Nil
  with redis_ok(2) [OF laws run [unfolded claim_raw_def]] show ?thesis
    by (simp add: spec_defs spec_claim_def queue_of_def queue_views)
next
  case (snoc bs b)
  with redis_ok(2) [OF laws run [unfolded claim_raw_def]] show ?thesis
    by (simp add: spec_defs spec_claim_def queue_of_def queue_views fun_eq_iff Let_def)
qed

text \<open>An operation that is one command, and one that is two.\<close>

lemma runs_one:
  assumes "\<And>w e w'. m w = (Inl e, w') \<Longrightarrow> \<not> ok \<and> q w' = q w" "\<And>w a w'. m w = (Inr a, w') \<Longrightarrow> (a, q w') = f w (q w)"
  shows "runs_as q m (\<lambda>w. op_ends ok (f w) id)"
  using assms by (auto simp: runs_as_def op_ends_def split: sum.splits)

lemma py_lrange_all: "py_lrange xs 0 (- 1) = xs"
  by (simp add: py_lrange_def)


lemma py_lrange_entry:
  "(case py_lrange xs i i of [] \<Rightarrow> None | x # _ \<Rightarrow> Some x) =
     (let n = int (length xs); j = (if i < 0 then n + i else i) in if 0 \<le> j \<and> j < n then Some (xs ! nat j) else None)"
proof -
  let ?n = "int (length xs)" and ?j = "if i < 0 then int (length xs) + i else i"
  consider (inside) "0 \<le> ?j" "?j < ?n" | (above) "?n \<le> ?j" | (below) "?j < 0" by linarith
  then show ?thesis
  proof cases
    case inside
    then have "drop (nat ?j) xs = xs ! nat ?j # drop (Suc (nat ?j)) xs" by (intro Cons_nth_drop_Suc [symmetric]) linarith
    with inside show ?thesis by (auto simp: py_lrange_def Let_def split: if_splits)
  qed (auto simp: py_lrange_def Let_def)
qed

lemma enqueue_runs:
  assumes "redis_laws R ls zs"
  shows "runs_as (queue_of ls) (enqueue R p) (\<lambda>w. op_ends (answers R)
     (\<lambda>x. (int (length (q_ready x)) + 1, spec_enqueue (task_bytes (w_float_repr w) p) x)) id)"
  by (rule runs_one) (auto simp: enqueue_def dest!: refused(1) [OF assms] done_by(1) [OF assms])

lemma claim_raw_runs:
  assumes "redis_laws R ls zs"
  shows "runs_as (queue_of ls) (claim_raw R k) (\<lambda>w. op_ends (answers R) (spec_claim k) id)"
  by (rule runs_one) (use refused(2) [OF assms] claim_done [OF assms] in \<open>auto simp: claim_raw_def\<close>)

lemma claim_runs:
  assumes "redis_laws R ls zs"
  shows "runs_as (queue_of ls) (claim R loads k) (\<lambda>w. claim_ends (answers R) loads k)"
  unfolding runs_as_def
proof (intro allI impI)
  fix w r w' assume run: "claim R loads k w = (r, w')"
  obtain r1 w1 where c: "claim_raw R k w = (r1, w1)" by (cases "claim_raw R k w")
  show "claim_ends (answers R) loads k (queue_of ls w) r (queue_of ls w')"
  proof (cases r1)
    case (Inl e)
    with c run have "r = Inl e" "w' = w1" by (simp_all add: claim_def claim_raw_def bindE_def)
    with refused(2) [OF assms] c Inl show ?thesis by (auto simp: claim_ends_def claim_raw_def)
  next
    case (Inr res)
    with c have q: "(res, queue_of ls w1) = spec_claim k (queue_of ls w)" by (simp add: claim_done [OF assms])
    have "r = (case res of None \<Rightarrow> Inr None | Some b \<Rightarrow> map_sum id Some (loads b)) \<and> w' = w1"
      using run c Inr by (auto simp: claim_def claim_raw_def bindE_def raiseE_def split: option.splits sum.splits)
    with q [symmetric] show ?thesis by (simp add: claim_ends_def)
  qed
qed

lemma ack_runs:
  assumes "redis_laws R ls zs"
  shows "runs_as (queue_of ls) (ack R k b) (\<lambda>w. op_ends (answers R \<and> utf8_valid b)
     (\<lambda>x. (of_bool (b \<in> set (q_inflight x k)), spec_ack k b x)) id)"
  by (rule runs_one) (auto simp: ack_def decode_utf8_def dest!: refused(3) [OF assms] done_by(3) [OF assms] split: if_splits)

lemma get_inflight_runs:
  assumes "redis_laws R ls zs"
  shows "runs_as (queue_of ls) (get_inflight R k) (\<lambda>w. op_ends (answers R) (\<lambda>x. (q_inflight x k, x)) id)"
  by (rule runs_one) (auto simp: get_inflight_def py_lrange_all dest!: refused(4) [OF assms] done_by(5) [OF assms])

lemma move_to_ready_runs:
  assumes "redis_laws R ls zs"
  shows "runs_as (queue_of ls) (move_to_ready R k b)
     (\<lambda>w. op_ends (answers R \<and> utf8_valid b) (\<lambda>x. ((), spec_reclaim k b x)) (spec_ack k b))"
  unfolding runs_as_def
proof (intro allI impI)
  fix w r w' assume run: "move_to_ready R k b w = (r, w')"
  obtain r1 w1 where l: "redisE (r_lrem1 R (inflight_key k) b) w = (r1, w1)" by fastforce
  obtain r2 w2 where p: "redisE (r_lpush R QUEUE_READY b) w1 = (r2, w2)" by fastforce
  show "op_ends (answers R \<and> utf8_valid b) (\<lambda>x. ((), spec_reclaim k b x)) (spec_ack k b) (queue_of ls w) r (queue_of ls w')"
  proof (cases "utf8_valid b")
    case False
    with run show ?thesis by (auto simp: move_to_ready_def decode_utf8_def op_ends_def)
  next
    case valid: True
    show ?thesis
    proof (cases r1)
      case (Inl e)
      with run valid l refused(3) [OF assms] show ?thesis by (auto simp: move_to_ready_def decode_utf8_def op_ends_def bindE_def)
    next
      case (Inr n)
      with l have a: "queue_of ls w1 = spec_ack k b (queue_of ls w)" by (simp add: done_by(3) [OF assms])
      show ?thesis
        using run valid l Inr p a refused(1) [OF assms, of QUEUE_READY b w1] done_by(1) [OF assms, of b w1]
        by (cases r2) (auto simp: move_to_ready_def decode_utf8_def op_ends_def bindE_def spec_reclaim_def)
    qed
  qed
qed

lemma move_to_dlq_runs:
  assumes "redis_laws R ls zs"
  shows "runs_as (queue_of ls) (move_to_dlq R b)
     (\<lambda>w. op_ends (answers R) (\<lambda>x. (int (length (q_dead x)) + 1, spec_bury b x)) id)"
  by (rule runs_one) (auto simp: move_to_dlq_def dest!: refused(1) [OF assms] done_by(2) [OF assms])

lemma list_dlq_runs:
  assumes "redis_laws R ls zs"
  shows "runs_as (queue_of ls) (list_dlq R start cnt)
     (\<lambda>w. op_ends (answers R) (\<lambda>x. (py_lrange (q_dead x) start (start + cnt - 1), x)) id)"
  by (rule runs_one) (auto simp: list_dlq_def dest!: refused(4) [OF assms] done_by(6) [OF assms])

lemma requeue_from_dlq_runs:
  assumes "redis_laws R ls zs"
  shows "runs_as (queue_of ls) (requeue_from_dlq R b)
     (\<lambda>w. op_ends (answers R \<and> utf8_valid b) (spec_requeue b) (spec_drop b))"
  unfolding runs_as_def
proof (intro allI impI)
  fix w r w' assume run: "requeue_from_dlq R b w = (r, w')"
  obtain r1 w1 where l: "redisE (r_lrem1 R QUEUE_DLQ b) w = (r1, w1)" by fastforce
  obtain r2 w2 where p: "redisE (r_lpush R QUEUE_READY b) w1 = (r2, w2)" by fastforce
  have idem: "b \<notin> set (q_dead x) \<Longrightarrow> spec_drop b x = x" for x by (simp add: spec_drop_def remove1_idem)
  show "op_ends (answers R \<and> utf8_valid b) (spec_requeue b) (spec_drop b) (queue_of ls w) r (queue_of ls w')"
  proof (cases "utf8_valid b")
    case False
    with run show ?thesis by (auto simp: requeue_from_dlq_def decode_utf8_def op_ends_def)
  next
    case valid: True
    show ?thesis
    proof (cases r1)
      case (Inl e)
      with run valid l refused(3) [OF assms] show ?thesis by (auto simp: requeue_from_dlq_def decode_utf8_def op_ends_def bindE_def)
    next
      case (Inr n)
      with l have a: "n = of_bool (b \<in> set (q_dead (queue_of ls w)))" "queue_of ls w1 = spec_drop b (queue_of ls w)"
        by (simp_all add: done_by(4) [OF assms])
      show ?thesis
      proof (cases "b \<in> set (q_dead (queue_of ls w))")
        case False
        with run valid l Inr a idem show ?thesis
          by (auto simp: requeue_from_dlq_def decode_utf8_def op_ends_def bindE_def spec_requeue_def)
      next
        case True
        with a(1) have n: "n = 1" by simp
        show ?thesis
        proof (cases r2)
          case (Inl e)
          with run valid l \<open>r1 = Inr n\<close> p n have "r = Inl e" "w' = w2"
            by (auto simp: requeue_from_dlq_def decode_utf8_def bindE_def)
          moreover have "\<not> answers R \<and> queue_of ls w2 = queue_of ls w1" using p Inl by (simp add: refused(1) [OF assms])
          ultimately show ?thesis using a(2) by (simp add: op_ends_def)
        next
          case (Inr m)
          with run valid l \<open>r1 = Inr n\<close> p n have "r = Inr True" "w' = w2"
            by (auto simp: requeue_from_dlq_def decode_utf8_def bindE_def)
          moreover have "queue_of ls w2 = spec_enqueue b (queue_of ls w1)" using p Inr by (simp add: done_by(1) [OF assms])
          ultimately show ?thesis using a(2) True by (simp add: op_ends_def spec_requeue_def)
        qed
      qed
    qed
  qed
qed

lemma dlq_count_runs:
  assumes "redis_laws R ls zs"
  shows "runs_as (queue_of ls) (dlq_count R) (\<lambda>w. op_ends (answers R) (\<lambda>x. (int (length (q_dead x)), x)) id)"
  by (rule runs_one) (auto simp: dlq_count_def dest!: refused(5) [OF assms] done_by(7) [OF assms])

text \<open>The entry at an index; a negative one counts from the end.\<close>

definition spec_entry :: "int \<Rightarrow> task_queue \<Rightarrow> bytes option" where
  "spec_entry i x = (let n = int (length (q_dead x)); j = (if i < 0 then n + i else i)
     in if 0 \<le> j \<and> j < n then Some (q_dead x ! nat j) else None)"

lemma get_dlq_entry_runs:
  assumes "redis_laws R ls zs"
  shows "runs_as (queue_of ls) (get_dlq_entry R i) (\<lambda>w. op_ends (answers R) (\<lambda>x. (spec_entry i x, x)) id)"
proof (rule runs_one)
  show "\<not> answers R \<and> queue_of ls w' = queue_of ls w" if "get_dlq_entry R i w = (Inl e, w')" for w e w'
    using that by (auto simp: get_dlq_entry_def bindE_def dest!: refused(4) [OF assms] split: prod.splits sum.splits)
  show "(a, queue_of ls w') = (spec_entry i (queue_of ls w), queue_of ls w)" if "get_dlq_entry R i w = (Inr a, w')" for w a w'
    using that py_lrange_entry [of "q_dead (queue_of ls w)" i]
    by (auto simp: get_dlq_entry_def spec_entry_def elim!: bindE_InrD dest!: done_by(6) [OF assms])
qed

lemma drop_from_dlq_runs:
  assumes "redis_laws R ls zs"
  shows "runs_as (queue_of ls) (drop_from_dlq R b)
     (\<lambda>w. op_ends (answers R \<and> utf8_valid b) (\<lambda>x. (b \<in> set (q_dead x), spec_drop b x)) id)"
proof (rule runs_one)
  show "\<not> (answers R \<and> utf8_valid b) \<and> queue_of ls w' = queue_of ls w" if "drop_from_dlq R b w = (Inl e, w')" for w e w'
    using that by (auto simp: drop_from_dlq_def decode_utf8_def bindE_def dest!: refused(3) [OF assms]
      split: prod.splits sum.splits if_splits)
  show "(a, queue_of ls w') = (b \<in> set (q_dead (queue_of ls w)), spec_drop b (queue_of ls w))"
    if "drop_from_dlq R b w = (Inr a, w')" for w a w'
    using that by (auto simp: drop_from_dlq_def decode_utf8_def elim!: bindE_InrD dest!: done_by(4) [OF assms] split: if_splits)
qed

text \<open>Any server that keeps the laws provides the contract, and the one in memory does.\<close>

locale redis_server =
  fixes R :: "'r redis_api" and ls :: "'r list_view" and zs :: "'r zset_view"
  assumes laws: "redis_laws R ls zs"

sublocale redis_server \<subseteq>
  task_queue_spec "enqueue R" "claim_raw R" "ack R" "get_inflight R" "move_to_ready R" "queue_of ls" "answers R"
  using enqueue_runs [OF laws] claim_raw_runs [OF laws] ack_runs [OF laws] get_inflight_runs [OF laws]
    move_to_ready_runs [OF laws]
  by unfold_locales auto

context redis_server
begin

lemma fifo:
  assumes "enqueue R p w = (Inr n, w1)" "claims (claim_raw R k) (Suc (length (q_ready (queue_of ls w)))) w1 = (Inr bs, w')"
  shows "bs = map Some (q_ready (queue_of ls w)) @ [Some (task_bytes (w_float_repr w) p)]"
  using assms by (rule enqueued_last)

text \<open>
  A reclaim whose push is refused has removed the task from the worker's list and put it nowhere.
\<close>

lemma reclaim_refused_push:
  assumes "utf8_valid b" "redisE (r_lrem1 R (inflight_key k) b) w = (Inr n, w1)"
    and "redisE (r_lpush R QUEUE_READY b) w1 = (Inl e, w2)"
  shows "move_to_ready R k b w = (Inl e, w2) \<and> queue_of ls w2 = spec_ack k b (queue_of ls w)"
  using assms refused(1) [OF laws assms(3)] done_by(3) [OF laws assms(2)]
  by (simp add: move_to_ready_def decode_utf8_def bindE_def)

end

interpretation mem_server: redis_server mem_redis mem_ls mem_zs
  by unfold_locales (rule mem_redis_laws)

text \<open>It answers every command.\<close>

lemma mem_answers: "answers mem_redis"
  by (auto simp: answers_def mem_redis_def Let_def)

text \<open>\<open>list_dlq\<close> with a count of 0 from the start asks for the range from 0 to -1: the whole list.\<close>

lemma list_dlq_none: "py_lrange xs 0 (0 + 0 - 1) = xs"
  by (simp add: py_lrange_def)

lemma list_dlq_some: "0 \<le> start \<Longrightarrow> 0 < cnt \<Longrightarrow> py_lrange xs start (start + cnt - 1) = take (nat cnt) (drop (nat start) xs)"
  by (simp add: py_lrange_def)

end
