(* ===== verification/Security.thy ===== *)
theory Security
  imports Queues Audit_Chain
begin

text \<open>
  \<open>src/insuranceops/security\<close>, \<open>src/insuranceops/config.py\<close> and the principals of
  \<open>src/insuranceops/api/deps.py\<close>: API keys, roles, rate limits and the redaction of log fields.
  The bearer token is what FastAPI's \<open>HTTPBearer\<close> extracted, \<open>None\<close> when there is none.
\<close>

section \<open>Settings\<close>

record Settings =
  API_KEY_HASH_PEPPER :: string
  MAX_REQUEST_BYTES :: int
  WORKER_VISIBILITY_TIMEOUT_S :: int
  PAYLOAD_STORAGE_PATH :: string
  AUDIT_VERIFY_INTERVAL_S :: int
  AUDIT_VERIFY_SAMPLE_SIZE :: int
  RATE_LIMIT_ENABLED :: bool
  RATE_LIMIT_WINDOW_SECONDS :: int
  RATE_LIMIT_OPERATOR_MAX :: int
  RATE_LIMIT_SUPERVISOR_MAX :: int
  RATE_LIMIT_VIEWER_MAX :: int

definition default_settings :: Settings where
  "default_settings =
     \<lparr>API_KEY_HASH_PEPPER = [], MAX_REQUEST_BYTES = 20971520, WORKER_VISIBILITY_TIMEOUT_S = 60,
      PAYLOAD_STORAGE_PATH = ''/data/payloads'', AUDIT_VERIFY_INTERVAL_S = 3600,
      AUDIT_VERIFY_SAMPLE_SIZE = 10, RATE_LIMIT_ENABLED = True, RATE_LIMIT_WINDOW_SECONDS = 60,
      RATE_LIMIT_OPERATOR_MAX = 1200, RATE_LIMIT_SUPERVISOR_MAX = 1200, RATE_LIMIT_VIEWER_MAX = 600\<rparr>"

section \<open>API keys\<close>

record ApiKeyPrincipal =
  pr_api_key_id :: string
  pr_role :: string
  pr_label :: string

definition actor_string :: "ApiKeyPrincipal \<Rightarrow> string" where
  "actor_string p = ''api_key:'' @ pr_role p @ '':'' @ pr_api_key_id p"

definition compute_key_hash :: "string \<Rightarrow> string \<Rightarrow> bytes" where
  "compute_key_hash pepper token = sha256 (utf8 (pepper @ token))"

definition touch_key :: "uuid \<Rightarrow> time \<Rightarrow> ('z, unit) wexec" where
  "touch_key i now = write_db (\<lambda>d. d\<lparr>api_keys :=
     map_where (\<lambda>k. key_api_key_id k = i) (\<lambda>k. k\<lparr>key_last_used_at := Some now\<rparr>) (api_keys d)\<rparr>)"

definition authenticate_api_key :: "string \<Rightarrow> string \<Rightarrow> ('z, ApiKeyPrincipal) wexec" where
  "authenticate_api_key token pepper =
     bindE (read_db (\<lambda>d. filter (\<lambda>k. key_key_hash k = compute_key_hash pepper token) (api_keys d))) (\<lambda>rows.
     bindE (scalar_one_or_none rows) (\<lambda>found.
     case found of
       None \<Rightarrow> raiseE (ValueError ''Invalid API key'')
     | Some api_key \<Rightarrow>
         if key_revoked_at api_key \<noteq> None then raiseE (ValueError ''API key has been revoked'')
         else bindE now_utc (\<lambda>now.
           if (case key_expires_at api_key of None \<Rightarrow> False | Some t \<Rightarrow> t \<le> now)
           then raiseE (ValueError ''API key has expired'')
           else bindE (touch_key (key_api_key_id api_key) now) (\<lambda>_.
             returnE \<lparr>pr_api_key_id = uuid_str (key_api_key_id api_key), pr_role = key_role api_key,
                      pr_label = key_label api_key\<rparr>))))"

section \<open>Rate limits\<close>

text \<open>\<open>int(time.time())\<close>: the clock in whole seconds.\<close>

definition rate_key :: "string \<Rightarrow> int \<Rightarrow> string" where
  "rate_key api_key_id window_start =
     ''rate:api_key:'' @ take 12 api_key_id @ '':'' @ int_str window_start"

definition check_rate_limit ::
  "'r redis_api \<Rightarrow> string \<Rightarrow> string \<Rightarrow> int \<Rightarrow> int \<Rightarrow> ('r, bool \<times> int) sexec" where
  "check_rate_limit R api_key_id role window_seconds max_requests =
     bindE now_utc (\<lambda>t.
     let now = t div 1000000 in
     if window_seconds = 0 then raiseE ZeroDivisionError
     else
       let window_start = now - now mod window_seconds;
           key = rate_key api_key_id window_start in
       catchE
         (bindE (redisE (r_incr R key)) (\<lambda>count.
          bindE (if count = 1 then redisE (r_expire R key (window_seconds + 1)) else returnE ()) (\<lambda>_.
          if count > max_requests
          then returnE (False, max (window_seconds - (now - window_start)) 1)
          else returnE (True, 0))))
         (\<lambda>_. returnE (True, 0)))"

definition get_max_requests_for_role :: "string \<Rightarrow> int \<Rightarrow> int \<Rightarrow> int \<Rightarrow> int" where
  "get_max_requests_for_role role operator_max supervisor_max viewer_max =
     (case map_of [(''operator'', operator_max), (''supervisor'', supervisor_max),
                   (''viewer'', viewer_max)] role of
        Some n \<Rightarrow> n | None \<Rightarrow> viewer_max)"

section \<open>Roles\<close>

text \<open>
  \<open>get_current_principal\<close>, shared text of \<open>deps.py\<close> and of the first half of
  \<open>requires_role\<close>: an authentication error of any kind of \<open>ValueError\<close> becomes a 401; other
  exceptions pass.
\<close>

definition get_current_principal ::
  "Settings \<Rightarrow> string option \<Rightarrow> ('z, ApiKeyPrincipal) wexec" where
  "get_current_principal settings credentials =
     (case credentials of
        Some (c # cs) \<Rightarrow>
          catchE (authenticate_api_key (c # cs) (API_KEY_HASH_PEPPER settings)) (\<lambda>e.
            case e of
              ValueError msg \<Rightarrow> bindE (metric ''auth_denials_total'' [''invalid_key'']) (\<lambda>_.
                raiseE (HTTPException 401 msg))
            | _ \<Rightarrow> raiseE e)
      | _ \<Rightarrow> bindE (metric ''auth_denials_total'' [''missing_token'']) (\<lambda>_.
               raiseE (HTTPException 401 ''Missing or invalid Authorization header'')))"

definition role_error :: "string \<Rightarrow> exn" where
  "role_error role = HTTPException 403 (''Role '' @ [CHR 0x27] @ role @ [CHR 0x27]
     @ '' is not authorized for this endpoint'')"

text \<open>The dependency class of \<open>deps.py\<close>, which has no rate limit.\<close>

definition RequiresRole :: "string list \<Rightarrow> ApiKeyPrincipal \<Rightarrow> ('z, ApiKeyPrincipal) wexec" where
  "RequiresRole roles prin =
     (if pr_role prin \<notin> set roles
      then bindE (metric ''auth_denials_total'' [''insufficient_role'']) (\<lambda>_.
             raiseE (role_error (pr_role prin)))
      else returnE prin)"

text \<open>The dependency the routes use.\<close>

definition requires_role ::
  "'r redis_api \<Rightarrow> Settings \<Rightarrow> string list \<Rightarrow> string option \<Rightarrow> ('r, ApiKeyPrincipal) sexec" where
  "requires_role R settings roles credentials =
     bindE (get_current_principal settings credentials) (\<lambda>prin.
     if pr_role prin \<notin> set roles
     then bindE (metric ''auth_denials_total'' [''insufficient_role'']) (\<lambda>_.
            raiseE (role_error (pr_role prin)))
     else if RATE_LIMIT_ENABLED settings
     then bindE (check_rate_limit R (pr_api_key_id prin) (pr_role prin)
                   (RATE_LIMIT_WINDOW_SECONDS settings)
                   (get_max_requests_for_role (pr_role prin) (RATE_LIMIT_OPERATOR_MAX settings)
                     (RATE_LIMIT_SUPERVISOR_MAX settings) (RATE_LIMIT_VIEWER_MAX settings)))
            (\<lambda>(allowed, retry_after).
            if \<not> allowed
            then bindE (metric ''rate_limit_exceeded_total'' [pr_role prin]) (\<lambda>_.
                   raiseE (HTTPException 429 ''Rate limit exceeded''))
            else returnE prin)
     else returnE prin)"

section \<open>Redaction\<close>

definition REDACTED_FIELDS :: "string list" where
  "REDACTED_FIELDS = [''ssn'', ''social_security'', ''dob'', ''date_of_birth'', ''policy_number'',
     ''phone'', ''email'', ''address'']"

definition REDACTED_VALUE :: string where
  "REDACTED_VALUE = ''[REDACTED]''"

definition redact_sensitive_fields :: "dict \<Rightarrow> dict" where
  "redact_sensitive_fields event_dict =
     foldl (\<lambda>d key. if py_lower key \<in> set REDACTED_FIELDS then dict_set d key (JStr REDACTED_VALUE) else d)
       event_dict (map fst event_dict)"

section \<open>Authentication\<close>

text \<open>The key hashes of the table are pairwise distinct, as its unique constraint has it.\<close>

definition keys_wf :: "db \<Rightarrow> bool" where
  "keys_wf d \<longleftrightarrow> distinct (map key_key_hash (api_keys d)) \<and> distinct (map key_api_key_id (api_keys d))"

definition key_usable :: "ApiKeyModel \<Rightarrow> time \<Rightarrow> bool" where
  "key_usable k now \<longleftrightarrow> key_revoked_at k = None \<and>
     (case key_expires_at k of None \<Rightarrow> True | Some t \<Rightarrow> now < t)"

definition principal_of :: "ApiKeyModel \<Rightarrow> ApiKeyPrincipal" where
  "principal_of k = \<lparr>pr_api_key_id = uuid_str (key_api_key_id k), pr_role = key_role k, pr_label = key_label k\<rparr>"

lemma authenticate_ok:
  assumes "authenticate_api_key token pepper w = (Inr p, w')"
  obtains k where "k \<in> set (api_keys (w_db w))" "key_key_hash k = compute_key_hash pepper token"
    "key_usable k (w_now w (w_now_n w))" "p = principal_of k"
    "w' = snd (touch_key (key_api_key_id k) (w_now w (w_now_n w)) (w\<lparr>w_now_n := Suc (w_now_n w)\<rparr>))"
proof -
  let ?t = "w_now w (w_now_n w)"
  from assms obtain k where f: "filter (\<lambda>k. key_key_hash k = compute_key_hash pepper token) (api_keys (w_db w)) = [k]"
    and u: "key_usable k ?t" and p: "p = principal_of k"
    and w': "w' = snd (touch_key (key_api_key_id k) ?t (w\<lparr>w_now_n := Suc (w_now_n w)\<rparr>))"
    unfolding authenticate_api_key_def
    by (auto simp: now_utc_def touch_key_def key_usable_def principal_of_def not_le
        elim!: bindE_InrD dest!: scalar_ok split: option.splits if_splits)
  from filter_single [OF f] show thesis by (intro that [of k] u p w') auto
qed

lemma authenticate_run:
  assumes "keys_wf (w_db w)" "k \<in> set (api_keys (w_db w))"
    "key_key_hash k = compute_key_hash pepper token" "key_usable k (w_now w (w_now_n w))"
  shows "\<exists>w'. authenticate_api_key token pepper w = (Inr (principal_of k), w')"
proof -
  have "filter (\<lambda>k'. key_key_hash k' = compute_key_hash pepper token) (api_keys (w_db w)) = [k]"
    using filter_eq_distinct_key [of key_key_hash "api_keys (w_db w)" k] assms by (simp add: keys_wf_def)
  then show ?thesis
    using assms(4)
    by (auto simp: authenticate_api_key_def scalar_one_or_none_def now_utc_def touch_key_def
        key_usable_def principal_of_def not_le split: option.splits)
qed

text \<open>A principal got past \<open>requires_role\<close>: who it is, and that only the key table was written.\<close>

lemma get_current_principal_ok:
  assumes "get_current_principal settings cred w = (Inr p, w')"
  obtains token where "cred = Some token" "token \<noteq> []"
    "authenticate_api_key token (API_KEY_HASH_PEPPER settings) w = (Inr p, w')"
  using assms unfolding get_current_principal_def
  by (auto simp: catchE_def metric_def split: option.splits list.splits prod.splits sum.splits exn.splits
      elim!: bindE_InrD)

lemma redisE_db: "redisE m w = (r, w') \<Longrightarrow> w_db w' = w_db w"
  by (auto simp: redisE_def split: prod.splits)

lemma redis_keeps_db: "keeps (\<lambda>w. w_db w = d) (redisE m)"
  by (auto intro!: keepsI dest: redisE_db)

lemma draws_keep_db:
  "keeps (\<lambda>w. w_db w = d) now_utc" "keeps (\<lambda>w. w_db w = d) (metric n l)" "keeps (\<lambda>w. w_db w = d) uuid4"
  by (simp_all add: keeps_def now_utc_def metric_def uuid4_def)

lemma check_rate_limit_keeps_db: "keeps (\<lambda>w. w_db w = d) (check_rate_limit R i role n m)"
  unfolding check_rate_limit_def Let_def by (intro keeps_intros redis_keeps_db draws_keep_db)

lemma check_rate_limit_db: "check_rate_limit R i role n m w = (r, w') \<Longrightarrow> w_db w' = w_db w"
  by (rule keepsD [OF check_rate_limit_keeps_db refl])

lemma requires_role_ok:
  assumes "requires_role R settings roles cred w = (Inr p, w')"
  obtains k token ks where "cred = Some token" "k \<in> set (api_keys (w_db w))"
    "key_key_hash k = compute_key_hash (API_KEY_HASH_PEPPER settings) token"
    "key_usable k (w_now w (w_now_n w))" "p = principal_of k" "key_role k \<in> set roles"
    "w_db w' = (w_db w)\<lparr>api_keys := ks\<rparr>"
proof -
  from assms obtain w1 where g: "get_current_principal settings cred w = (Inr p, w1)"
    and role: "pr_role p \<in> set roles" and db: "w_db w' = w_db w1"
    unfolding requires_role_def
    by (auto simp: metric_def split: if_splits elim!: bindE_InrD
        dest!: check_rate_limit_db)
  from g obtain token where t: "cred = Some token"
    "authenticate_api_key token (API_KEY_HASH_PEPPER settings) w = (Inr p, w1)"
    by (rule get_current_principal_ok)
  from t(2) obtain k where k: "k \<in> set (api_keys (w_db w))"
    "key_key_hash k = compute_key_hash (API_KEY_HASH_PEPPER settings) token"
    "key_usable k (w_now w (w_now_n w))" "p = principal_of k"
    "w1 = snd (touch_key (key_api_key_id k) (w_now w (w_now_n w)) (w\<lparr>w_now_n := Suc (w_now_n w)\<rparr>))"
    by (rule authenticate_ok)
  show thesis using t(1) k(1-4)
    by (rule that) (use k(4,5) role db in \<open>auto simp: principal_of_def touch_key_def\<close>)
qed

lemma touch_key_wf [keeps_intros]: "keeps world_wf (touch_key i t)"
  unfolding touch_key_def by (rule keeps_write_db) (auto simp: db_wf_defs map_where_facts)

lemma redis_keeps_wf [keeps_intros]: "keeps world_wf (redisE m)"
  by (auto intro!: keepsI dest: redisE_db)

lemma security_wf [keeps_intros]:
  "keeps world_wf (authenticate_api_key token pepper)" "keeps world_wf (get_current_principal settings cred)"
  "keeps world_wf (check_rate_limit R i role n m)" "keeps world_wf (requires_role R settings roles cred)"
  unfolding requires_role_def get_current_principal_def authenticate_api_key_def check_rate_limit_def Let_def
  by (auto intro!: keeps_intros split: exn.split)

section \<open>Invariants of the log in the larger world\<close>

locale sys_invariant = audit_invariant I for I :: "'r sysworld \<Rightarrow> bool"
begin

lemma redis_safe [safe_intros]: "safe I (redisE m)"
  by (rule safeI) (auto simp: redisE_def advances_def split: prod.splits elim!: frame)

lemma touch_key_safe [safe_intros]: "safe I (touch_key i t)"
  unfolding touch_key_def by (rule write_safe) simp

lemma security_safe [safe_intros]:
  "safe I (authenticate_api_key token pepper)" "safe I (get_current_principal settings cred)"
  "safe I (check_rate_limit R i role n m)" "safe I (requires_role R settings roles cred)"
  unfolding requires_role_def get_current_principal_def authenticate_api_key_def check_rate_limit_def Let_def
  by (auto intro!: safe_intros split: exn.split)

end

interpretation sys_chain: sys_invariant audit_ok
  by (rule sys_invariant.intro) (rule log_chain.audit_invariant_axioms)

interpretation sys_clock: sys_invariant "\<lambda>w. audit_ok w \<and> clock_ok w"
  by (rule sys_invariant.intro) (rule log_clock.audit_invariant_axioms)

interpretation sys_append: sys_invariant "log_extends es"
  by (rule sys_invariant.intro) (rule log_append.audit_invariant_axioms)

section \<open>Rate limiting\<close>

text \<open>
  What the counters promise: \<open>INCR\<close> adds one and returns the new value, or is refused and
  changes nothing; setting a time to live changes no value.
\<close>

definition counter_laws :: "'r redis_api \<Rightarrow> ('r \<Rightarrow> string \<Rightarrow> int) \<Rightarrow> bool" where
  "counter_laws R cs \<longleftrightarrow>
     (\<forall>k s. case r_incr R k s of
        (Inr n, s') \<Rightarrow> n = cs s k + 1 \<and> cs s' = (cs s)(k := n)
      | (Inl e, s') \<Rightarrow> cs s' = cs s) \<and>
     (\<forall>k n s. case r_expire R k n s of (r, s') \<Rightarrow> cs s' = cs s)"

definition window_of :: "int \<Rightarrow> time \<Rightarrow> int" where
  "window_of window_seconds t = (let now = t div 1000000 in now - now mod window_seconds)"

lemma window_elapsed:
  assumes "0 < n" shows "1 \<le> n - (t div 1000000 - window_of n t) \<and> n - (t div 1000000 - window_of n t) \<le> n"
proof -
  have "0 \<le> t div 1000000 mod n" "t div 1000000 mod n < n" using assms by simp_all
  then show ?thesis by (simp add: window_of_def Let_def)
qed

lemma counter_expire: "counter_laws R cs \<Longrightarrow> r_expire R k n s = (r, s') \<Longrightarrow> cs s' = cs s"
  by (auto simp: counter_laws_def split: prod.splits)

lemma counter_incr: "counter_laws R cs \<Longrightarrow> r_incr R k s = (Inr n, s') \<Longrightarrow> n = cs s k + 1 \<and> cs s' = (cs s)(k := n)"
  unfolding counter_laws_def by (elim conjE allE [of _ k] allE [of _ s]) simp

text \<open>One call, with a server that answers: admitted exactly while the count is within the limit.\<close>

lemma check_rate_limit_run:
  assumes laws: "counter_laws R cs" and up: "\<And>k s. \<exists>n s'. r_incr R k s = (Inr n, s')"
    "\<And>k n s. \<exists>s'. r_expire R k n s = (Inr (), s')" and win: "0 < n"
    and key: "k = rate_key i (window_of n (w_now w (w_now_n w)))"
  shows "\<exists>w' ra. check_rate_limit R i role n mx w = (Inr (cs (w_redis w) k < mx, ra), w') \<and>
    cs (w_redis w') = (cs (w_redis w))(k := cs (w_redis w) k + 1) \<and>
    w_now w' = w_now w \<and> w_now_n w' = Suc (w_now_n w) \<and> 0 \<le> ra \<and> ra \<le> n \<and>
    (\<not> cs (w_redis w) k < mx \<longrightarrow> 1 \<le> ra)"
proof -
  obtain c s1 where inc: "r_incr R k (w_redis w) = (Inr c, s1)" using up(1) by blast
  obtain s2 where ex: "r_expire R k (n + 1) s1 = (Inr (), s2)" using up(2) by blast
  have c: "c = cs (w_redis w) k + 1" "cs s1 = (cs (w_redis w))(k := c)"
    using counter_incr [OF laws inc] by auto
  have e: "cs s2 = cs s1" using counter_expire [OF laws ex] .
  let ?t = "w_now w (w_now_n w)" and ?w1 = "w\<lparr>w_now_n := Suc (w_now_n w)\<rparr>"
  let ?ra = "if cs (w_redis w) k < mx then 0 else max (n - (?t div 1000000 - window_of n ?t)) 1"
  let ?s = "if c = 1 then s2 else s1"
  have "check_rate_limit R i role n mx w = catchE
     (bindE (redisE (r_incr R k)) (\<lambda>count.
      bindE (if count = 1 then redisE (r_expire R k (n + 1)) else returnE ()) (\<lambda>_.
      if count > mx then returnE (False, max (n - (?t div 1000000 - window_of n ?t)) 1)
      else returnE (True, 0)))) (\<lambda>_. returnE (True, 0)) ?w1"
    using win unfolding check_rate_limit_def key window_of_def Let_def by (simp add: now_utc_def)
  also have "\<dots> = (Inr (cs (w_redis w) k < mx, ?ra), ?w1\<lparr>w_redis := ?s\<rparr>)"
    using inc ex c(1) by (cases "c = 1") (simp_all add: redisE_def)
  finally have run: "check_rate_limit R i role n mx w = (Inr (cs (w_redis w) k < mx, ?ra), ?w1\<lparr>w_redis := ?s\<rparr>)" .
  have "cs ?s = (cs (w_redis w))(k := cs (w_redis w) k + 1)" using c e by simp
  moreover have "0 \<le> ?ra \<and> ?ra \<le> n \<and> (\<not> cs (w_redis w) k < mx \<longrightarrow> 1 \<le> ?ra)"
    using window_elapsed [OF win, of ?t] win by auto
  ultimately show ?thesis
    by (intro exI [of _ "?w1\<lparr>w_redis := ?s\<rparr>"] exI [of _ ?ra]) (simp add: run)
qed

text \<open>A run of calls for one key.\<close>

fun rate_calls :: "'r redis_api \<Rightarrow> string \<Rightarrow> string \<Rightarrow> int \<Rightarrow> int \<Rightarrow> nat \<Rightarrow> ('r, bool list) sexec" where
  "rate_calls R i role n mx 0 = returnE []"
| "rate_calls R i role n mx (Suc k) =
     bindE (check_rate_limit R i role n mx) (\<lambda>(ok, _).
     bindE (rate_calls R i role n mx k) (\<lambda>oks. returnE (ok # oks)))"

lemma rate_calls_run:
  assumes laws: "counter_laws R cs" and up: "\<And>k s. \<exists>n s'. r_incr R k s = (Inr n, s')"
    "\<And>k n s. \<exists>s'. r_expire R k n s = (Inr (), s')" and win: "0 < n"
    and same: "\<And>j. j < k \<Longrightarrow> window_of n (w_now w (w_now_n w + j)) = wd"
  shows "\<exists>w'. rate_calls R i role n mx k w =
    (Inr (map (\<lambda>j. cs (w_redis w) (rate_key i wd) + int j < mx) [0..<k]), w')"
  using same
proof (induction k arbitrary: w)
  case (Suc k)
  let ?k = "rate_key i wd"
  have wd: "?k = rate_key i (window_of n (w_now w (w_now_n w)))" using Suc.prems [of 0] by simp
  obtain w1 ra where c: "check_rate_limit R i role n mx w = (Inr (cs (w_redis w) ?k < mx, ra), w1)"
    "cs (w_redis w1) = (cs (w_redis w))(?k := cs (w_redis w) ?k + 1)"
    "w_now w1 = w_now w" "w_now_n w1 = Suc (w_now_n w)"
    using check_rate_limit_run [OF laws up win wd, where mx = mx and role = role] by blast
  have "window_of n (w_now w1 (w_now_n w1 + j)) = wd" if "j < k" for j
    using Suc.prems [of "Suc j"] that c(3,4) by simp
  from Suc.IH [OF this] obtain w2 where r: "rate_calls R i role n mx k w1 =
    (Inr (map (\<lambda>j. cs (w_redis w1) ?k + int j < mx) [0..<k]), w2)" by blast
  have "map (\<lambda>j. cs (w_redis w) ?k + int j < mx) [0..<Suc k] =
      (cs (w_redis w) ?k < mx) # map (\<lambda>j. cs (w_redis w1) ?k + int j < mx) [0..<k]"
    by (simp add: upt_conv_Cons map_Suc_upt [symmetric] c(2) comp_def ac_simps del: upt_Suc map_Suc_upt)
  with c(1) r show ?case by (simp del: upt_Suc)
qed simp

lemma count_below: "length (filter id (map (\<lambda>j. c + int j < mx) [0..<k])) = nat (min (int k) (max 0 (mx - c)))"
  by (induction k) (auto simp: min_def max_def)

section \<open>Redaction\<close>

lemma dict_set_map:
  "distinct (map fst d) \<Longrightarrow> k \<in> fst ` set d \<Longrightarrow>
     dict_set d k v = map (\<lambda>(k', v'). (k', if k' = k then v else v')) d"
proof (induction d)
  case (Cons p d)
  have "k \<notin> fst ` set d \<Longrightarrow> map (\<lambda>(k', v'). (k', if k' = k then v else v')) d = d"
    by (rule map_idI) (auto simp: image_iff)
  with Cons show ?case by (cases p) (auto simp: dict_set_def)
qed simp

lemma redact_fold:
  assumes "set ks \<subseteq> fst ` set d" "distinct (map fst d)"
  shows "foldl (\<lambda>d key. if py_lower key \<in> set REDACTED_FIELDS then dict_set d key (JStr REDACTED_VALUE) else d) d ks
    = map (\<lambda>(k, v). (k, if k \<in> set ks \<and> py_lower k \<in> set REDACTED_FIELDS then JStr REDACTED_VALUE else v)) d"
  using assms
proof (induction ks arbitrary: d)
  case (Cons k ks)
  let ?d = "map (\<lambda>(k', v). (k', if k' = k then JStr REDACTED_VALUE else v)) d"
  have keys: "map fst ?d = map fst d" by (simp add: comp_def case_prod_beta)
  have img: "fst ` set ?d = fst ` set d" by (metis keys list.set_map)
  have sub: "set ks \<subseteq> fst ` set d" using Cons.prems by simp
  have "set ks \<subseteq> fst ` set ?d" unfolding img by (rule sub)
  moreover have "distinct (map fst ?d)" unfolding keys by (rule Cons.prems(2))
  ultimately have IH: "foldl (\<lambda>d key. if py_lower key \<in> set REDACTED_FIELDS then dict_set d key (JStr REDACTED_VALUE) else d) ?d ks
    = map (\<lambda>(k, v). (k, if k \<in> set ks \<and> py_lower k \<in> set REDACTED_FIELDS then JStr REDACTED_VALUE else v)) ?d"
    by (rule Cons.IH)
  note IH0 = Cons.IH [OF sub Cons.prems(2)]
  have "k \<in> fst ` set d" using Cons.prems by simp
  with Cons.prems(2) have upd: "dict_set d k (JStr REDACTED_VALUE) = ?d" by (simp add: dict_set_map)
  show ?case
  proof (cases "py_lower k \<in> set REDACTED_FIELDS")
    case True
    then show ?thesis by (simp only: foldl_Cons upd if_True IH) (simp add: case_prod_beta)
  next
    case False
    then show ?thesis by (simp only: foldl_Cons if_False IH0) (auto simp: case_prod_beta)
  qed
qed simp

lemma redact_map:
  assumes "distinct (map fst d)"
  shows "redact_sensitive_fields d =
    map (\<lambda>(k, v). (k, if py_lower k \<in> set REDACTED_FIELDS then JStr REDACTED_VALUE else v)) d"
proof -
  have "redact_sensitive_fields d =
    map (\<lambda>(k, v). (k, if k \<in> set (map fst d) \<and> py_lower k \<in> set REDACTED_FIELDS then JStr REDACTED_VALUE else v)) d"
    using redact_fold [of "map fst d" d] assms by (simp add: redact_sensitive_fields_def)
  also have "\<dots> = map (\<lambda>(k, v). (k, if py_lower k \<in> set REDACTED_FIELDS then JStr REDACTED_VALUE else v)) d"
    by (rule map_cong) (force simp: image_iff)+
  finally show ?thesis .
qed

end
