(* ===== verification/Payloads.thy ===== *)
theory Payloads
  imports Security
begin

text \<open>
  \<open>src/insuranceops/storage/payloads/local.py\<close>: the payload store on the local file system.
  Files are a map from path to bytes; a change of the file system may fail as \<open>w_disk\<close> says,
  and a failed write leaves a prefix of the data behind.
\<close>

section \<open>The file system\<close>

definition disk_fault :: "('r, nat option) sexec" where
  "disk_fault = (\<lambda>w. (Inr (w_disk w (w_disk_n w)), w\<lparr>w_disk_n := Suc (w_disk_n w)\<rparr>))"

definition set_file :: "string \<Rightarrow> bytes option \<Rightarrow> ('r, unit) sexec" where
  "set_file p v = modifyE (\<lambda>w. w\<lparr>w_files := (w_files w)(p := v)\<rparr>)"

text \<open>\<open>Path.mkdir(parents=True, exist_ok=True)\<close>: directories are not represented, but it may fail.\<close>

definition mkdir_parent :: "string \<Rightarrow> ('r, unit) sexec" where
  "mkdir_parent path = bindE disk_fault (\<lambda>f.
     case f of None \<Rightarrow> returnE () | Some _ \<Rightarrow> raiseE (OSError ''mkdir''))"

definition write_bytes :: "string \<Rightarrow> bytes \<Rightarrow> ('r, unit) sexec" where
  "write_bytes path data = bindE disk_fault (\<lambda>f.
     case f of
       None \<Rightarrow> set_file path (Some data)
     | Some k \<Rightarrow> bindE (set_file path (Some (take k data))) (\<lambda>_. raiseE (OSError ''write'')))"

definition os_replace :: "string \<Rightarrow> string \<Rightarrow> ('r, unit) sexec" where
  "os_replace src dst = bindE disk_fault (\<lambda>f.
     case f of
       Some _ \<Rightarrow> raiseE (OSError ''replace'')
     | None \<Rightarrow> bindE (readE (\<lambda>w. w_files w src)) (\<lambda>v.
         case v of
           None \<Rightarrow> raiseE (FileNotFoundError src)
         | Some b \<Rightarrow> bindE (set_file src None) (\<lambda>_. set_file dst (Some b))))"

definition unlink :: "string \<Rightarrow> ('r, unit) sexec" where
  "unlink path = bindE disk_fault (\<lambda>f.
     case f of None \<Rightarrow> set_file path None | Some _ \<Rightarrow> raiseE (OSError ''unlink''))"

section \<open>The store\<close>

text \<open>\<open>base / ref\<close>: an absolute reference replaces the base.\<close>

definition ref_to_path :: "string \<Rightarrow> string \<Rightarrow> string" where
  "ref_to_path base payload_ref =
     (case payload_ref of c # _ \<Rightarrow> if c = CHR ''/'' then payload_ref else base @ ''/'' @ payload_ref
      | [] \<Rightarrow> base)"

definition content_hash_to_ref :: "bytes \<Rightarrow> string" where
  "content_hash_to_ref content_hash = bytes_hex content_hash"

text \<open>\<open>path.with_suffix('.tmp')\<close> on a name without a dot, which a hexadecimal one is.\<close>

definition tmp_path :: "string \<Rightarrow> string" where
  "tmp_path path = path @ ''.tmp''"

definition payload_write :: "string \<Rightarrow> bytes \<Rightarrow> bytes \<Rightarrow> ('r, string) sexec" where
  "payload_write base content_hash data =
     (let ref = content_hash_to_ref content_hash; path = ref_to_path base ref; tmp = tmp_path path in
      bindE (mkdir_parent path) (\<lambda>_.
      bindE (catchE (bindE (write_bytes tmp data) (\<lambda>_. os_replace tmp path)) (\<lambda>e.
        bindE (readE (\<lambda>w. w_files w tmp \<noteq> None)) (\<lambda>there.
        bindE (if there then unlink tmp else returnE ()) (\<lambda>_.
        raiseE e)))) (\<lambda>_.
      returnE ref)))"

definition payload_read :: "string \<Rightarrow> string \<Rightarrow> ('r, bytes) sexec" where
  "payload_read base payload_ref =
     bindE (readE (\<lambda>w. w_files w (ref_to_path base payload_ref))) (\<lambda>v.
     case v of None \<Rightarrow> raiseE (FileNotFoundError (ref_to_path base payload_ref)) | Some b \<Rightarrow> returnE b)"

definition payload_exists :: "string \<Rightarrow> string \<Rightarrow> ('r, bool) sexec" where
  "payload_exists base payload_ref = readE (\<lambda>w. w_files w (ref_to_path base payload_ref) \<noteq> None)"

section \<open>References\<close>

lemma bytes_hex_Cons: "bytes_hex (b # bs) = hex_pad 2 (uint b) @ bytes_hex bs"
  by (simp add: bytes_hex_def)

lemma bytes_hex_chars: "c \<in> set (bytes_hex bs) \<Longrightarrow> is_hex c"
  by (induction bs) (auto simp: bytes_hex_def dest: hex_pad_is_hex)

lemma hex_pad_byte_inj: "hex_pad 2 (uint (a :: byte)) = hex_pad 2 (uint b) \<Longrightarrow> a = b"
proof -
  assume "hex_pad 2 (uint a) = hex_pad 2 (uint b)"
  moreover have "hex_digits False 0 (hex_pad 2 (uint x)) = Some (uint x)" for x :: byte
    using uint_lt2p [of x] by (intro hex_digits_pad) auto
  ultimately show ?thesis by (metis option.inject word_eq_iff_unsigned)
qed

lemma bytes_hex_inj: "bytes_hex as = bytes_hex bs \<Longrightarrow> as = bs"
proof (induction as arbitrary: bs)
  case Nil
  then show ?case by (cases bs) (auto simp: bytes_hex_def numeral_2_eq_2)
next
  case (Cons a as)
  then obtain b bs' where bs: "bs = b # bs'" by (cases bs) (auto simp: bytes_hex_def numeral_2_eq_2)
  with Cons.prems have "hex_pad 2 (uint a) = hex_pad 2 (uint b) \<and> bytes_hex as = bytes_hex bs'"
    by (simp add: bytes_hex_Cons)
  with Cons.IH hex_pad_byte_inj bs show ?case by blast
qed

abbreviation payload_path :: "string \<Rightarrow> bytes \<Rightarrow> string" where
  "payload_path base h \<equiv> ref_to_path base (content_hash_to_ref h)"

lemma bytes_hex_hd: "bytes_hex (b # bs) \<noteq> [] \<and> is_hex (hd (bytes_hex (b # bs)))"
proof -
  have "bytes_hex (b # bs) \<noteq> []" by (simp add: bytes_hex_Cons numeral_2_eq_2)
  then show ?thesis using bytes_hex_chars [of "hd (bytes_hex (b # bs))" "b # bs"] by simp
qed

lemma payload_path_eq: "h \<noteq> [] \<Longrightarrow> payload_path base h = base @ ''/'' @ bytes_hex h"
proof -
  assume "h \<noteq> []"
  then obtain b bs where "h = b # bs" by (cases h) auto
  then show ?thesis
    using bytes_hex_hd [of b bs]
    by (cases "bytes_hex h") (auto simp: ref_to_path_def content_hash_to_ref_def)
qed

lemma payload_path_inj: "g \<noteq> [] \<Longrightarrow> h \<noteq> [] \<Longrightarrow> payload_path base g = payload_path base h \<Longrightarrow> g = h"
  by (simp add: payload_path_eq bytes_hex_inj)

lemma tmp_not_payload: "g \<noteq> [] \<Longrightarrow> h \<noteq> [] \<Longrightarrow> tmp_path (payload_path base g) \<noteq> payload_path base h"
proof
  assume "g \<noteq> []" "h \<noteq> []" "tmp_path (payload_path base g) = payload_path base h"
  then have "bytes_hex g @ ''.tmp'' = bytes_hex h" by (simp add: payload_path_eq tmp_path_def)
  then have "CHR ''.'' \<in> set (bytes_hex h)" by (metis Un_iff in_set_conv_decomp list.set_intros(1) set_append)
  then have "is_hex (CHR ''.'')" by (rule bytes_hex_chars)
  then show False by simp
qed

section \<open>Atomic writes\<close>

lemmas disk_defs = disk_fault_def set_file_def mkdir_parent_def write_bytes_def os_replace_def unlink_def

text \<open>
  A write returns with the payload complete under its reference, or raises with that path as it
  was; no path but the payload's and its temporary one is touched on either way.
\<close>

lemma payload_write_cases:
  assumes "payload_write base h data w = (r, w')" "tmp = tmp_path (payload_path base h)"
  obtains (written) "r = Inr (content_hash_to_ref h)"
      "w_files w' = (w_files w)(tmp := None, payload_path base h \<mapsto> data)"
  | (raised) e v where "r = Inl e" "w_files w' = (w_files w)(tmp := v)"
proof -
  have ne: "tmp \<noteq> payload_path base h" by (simp add: assms(2) tmp_path_def)
  let ?body = "catchE (bindE (write_bytes tmp data) (\<lambda>_. os_replace tmp (payload_path base h))) (\<lambda>e.
        bindE (readE (\<lambda>w. w_files w tmp \<noteq> None)) (\<lambda>there.
        bindE (if there then unlink tmp else returnE ()) (\<lambda>_. raiseE e)))"
  obtain r1 w1 where mk: "mkdir_parent (payload_path base h) w = (r1, w1)"
    by (cases "mkdir_parent (payload_path base h) w")
  have f1: "w_files w1 = w_files w" using mk by (auto simp: disk_defs split: option.splits)
  show thesis
  proof (cases r1)
    case (Inl e)
    with assms mk f1 show thesis by (intro raised [of e "w_files w tmp"]) (auto simp: payload_write_def Let_def)
  next
    case (Inr u)
    obtain r2 w2 where b: "?body w1 = (r2, w2)" by (cases "?body w1")
    have "(\<exists>e v. r2 = Inl e \<and> w_files w2 = (w_files w1)(tmp := v)) \<or>
        r2 = Inr () \<and> w_files w2 = (w_files w1)(tmp := None, payload_path base h \<mapsto> data)"
      using b by (auto simp: disk_defs catchE_def bindE_def fun_upd_twist split: option.splits if_splits)
    with assms mk f1 b Inr show thesis
      by (auto simp: payload_write_def Let_def intro: written raised)
  qed
qed

text \<open>
  The store is content addressed: what lies under the reference of a hash has that hash.
\<close>

definition store_ok :: "string \<Rightarrow> (string \<Rightarrow> bytes option) \<Rightarrow> bool" where
  "store_ok base files \<longleftrightarrow> (\<forall>h b. h \<noteq> [] \<longrightarrow> files (payload_path base h) = Some b \<longrightarrow> sha256 b = h)"

lemma sha256_not_Nil [simp]: "sha256 m \<noteq> []"
proof
  assume "sha256 m = []"
  then have "length (sha256 m) = 0" by (simp only: list.size)
  then show False by simp
qed

lemma store_ok_tmp: "store_ok base f \<Longrightarrow> h \<noteq> [] \<Longrightarrow> store_ok base (f(tmp_path (payload_path base h) := v))"
  unfolding store_ok_def by (metis fun_upd_other tmp_not_payload)

lemma store_ok_put:
  assumes "store_ok base f" "h = sha256 data"
  shows "store_ok base (f(payload_path base h \<mapsto> data))"
  unfolding store_ok_def
proof (intro allI impI)
  fix g b assume g: "g \<noteq> []" "(f(payload_path base h \<mapsto> data)) (payload_path base g) = Some b"
  show "sha256 b = g"
  proof (cases "payload_path base g = payload_path base h")
    case True
    with g assms(2) payload_path_inj [of g h base] have "g = h" by simp
    with g assms(2) show ?thesis by simp
  next
    case False
    with g assms(1) show ?thesis by (simp add: store_ok_def)
  qed
qed

lemma payload_write_store:
  assumes "payload_write base (sha256 data) data w = (r, w')" "store_ok base (w_files w)"
  shows "store_ok base (w_files w')"
  using assms(1) refl
  by (rule payload_write_cases) (use assms(2) in \<open>auto intro!: store_ok_put store_ok_tmp\<close>)

text \<open>A payload once stored stays, whatever is written later.\<close>

lemma payload_write_keeps:
  assumes "payload_write base h data w = (r, w')" "h \<noteq> []" "g \<noteq> []" "w_files w (payload_path base g) \<noteq> None"
  shows "w_files w' (payload_path base g) \<noteq> None"
  using assms(1) refl
  by (rule payload_write_cases) (use assms(2-4) tmp_not_payload [of h g base] in auto)

text \<open>
  Two writers of one content share the temporary path. Each step is atomic, the sequence is
  not: a writer that renames after another one's write was cut short publishes the stump.
\<close>

definition interleaved_writers :: "string \<Rightarrow> bytes \<Rightarrow> bytes \<Rightarrow> ('r, unit) sexec" where
  "interleaved_writers base h data =
     (let path = payload_path base h; tmp = tmp_path path in
      bindE (write_bytes tmp data) (\<lambda>_.
      bindE (catchE (write_bytes tmp data) (\<lambda>_. returnE ())) (\<lambda>_.
      os_replace tmp path)))"

lemma interleaved_writers_run:
  assumes "w_disk w (w_disk_n w) = None" "w_disk w (Suc (w_disk_n w)) = Some k"
    "w_disk w (Suc (Suc (w_disk_n w))) = None"
  shows "\<exists>w'. interleaved_writers base h data w = (Inr (), w') \<and>
     w_files w' (payload_path base h) = Some (take k data)"
  using assms by (simp add: interleaved_writers_def Let_def disk_defs catchE_def bindE_def)

end
