(* ===== verification/Api.thy ===== *)
theory Api
  imports Orchestrator_Contract Payloads
begin

text \<open>
  \<open>src/insuranceops/api/routes\<close>: the HTTP handlers for documents, workflow runs and
  escalations. FastAPI resolves the dependencies in the order of the parameters, so a request
  is one session in which \<open>requires_role\<close> runs before the handler; the session commits when the
  handler returns and is rolled back when anything raises (\<open>get_db_session\<close>). A handler gets
  what FastAPI and pydantic have already validated: identifiers, bodies, and a page limit.
\<close>

section \<open>Requests\<close>

definition request ::
  "'r redis_api \<Rightarrow> Settings \<Rightarrow> string list \<Rightarrow> string option \<Rightarrow> (ApiKeyPrincipal \<Rightarrow> ('r, 'a) sexec) \<Rightarrow>
   ('r, 'a) sexec" where
  "request R settings roles credentials handler =
     session_scope (bindE (requires_role R settings roles credentials) handler)"

text \<open>\<open>request_size_limit_middleware\<close>: the status it answers with itself, if it does.\<close>

definition request_size_limit :: "Settings \<Rightarrow> string option \<Rightarrow> exn + int option" where
  "request_size_limit settings content_length =
     (case content_length of
        Some (c # cs) \<Rightarrow>
          (case int_parse (c # cs) of
             None \<Rightarrow> Inl (ValueError ''invalid literal for int() with base 10'')
           | Some n \<Rightarrow> Inr (if n > MAX_REQUEST_BYTES settings then Some 413 else None))
      | _ \<Rightarrow> Inr None)"

definition quoted :: "string \<Rightarrow> string" where
  "quoted s = [CHR 0x27] @ s @ [CHR 0x27]"

section \<open>Schemas\<close>

record WorkflowRunResponse =
  wrr_workflow_run_id :: uuid
  wrr_workflow_name :: string
  wrr_workflow_version :: string
  wrr_state :: string
  wrr_version :: int
  wrr_current_step_id :: "uuid option"
  wrr_created_at :: time
  wrr_updated_at :: time
  wrr_deadline_at :: time
  wrr_created_by :: string
  wrr_last_error_code :: "string option"
  wrr_last_error_detail :: "string option"

record AuditEventResponse =
  aer_audit_event_id :: uuid
  aer_workflow_run_id :: uuid
  aer_event_type :: string
  aer_actor :: string
  aer_payload :: dict
  aer_occurred_at :: time
  aer_seq_in_run :: int
  aer_step_id :: "uuid option"
  aer_step_attempt_id :: "uuid option"

record WorkflowRunEventsResponse =
  wer_events :: "AuditEventResponse list"
  wer_next_cursor :: "string option"

record WorkflowRunCreate =
  wc_workflow_name :: string
  wc_workflow_version :: "string option"
  wc_document_ids :: "uuid list"
  wc_inputs :: dict
  wc_idempotency_key :: "string option"

record EscalationResponse =
  er_escalation_id :: uuid
  er_workflow_run_id :: uuid
  er_step_id :: uuid
  er_state :: string
  er_reason_code :: string
  er_reason_detail :: "string option"
  er_claimed_by :: "string option"
  er_claimed_at :: "time option"
  er_resolved_by :: "string option"
  er_resolved_at :: "time option"
  er_resolution_payload :: "dict option"
  er_expires_at :: time
  er_created_at :: time

record EscalationListResponse =
  el_escalations :: "EscalationResponse list"
  el_next_cursor :: "string option"

record EscalationClaimResponse =
  ecl_escalation_id :: uuid
  ecl_state :: string
  ecl_claimed_by :: string
  ecl_claimed_at :: time

record ResolveRequest =
  rq_approve :: "bool option"
  rq_override :: "dict option"
  rq_notes :: string

record RejectRequest =
  rj_reason_code :: string
  rj_notes :: string

record DocumentIngestResponse =
  dir_document_id :: uuid
  dir_content_hash :: string
  dir_size_bytes :: int
  dir_content_type :: string
  dir_ingested_at :: time
  dir_is_duplicate :: bool

definition run_response :: "WorkflowRunModel \<Rightarrow> WorkflowRunResponse" where
  "run_response r =
     \<lparr>wrr_workflow_run_id = run_workflow_run_id r, wrr_workflow_name = run_workflow_name r,
      wrr_workflow_version = run_workflow_version r, wrr_state = run_state_value (run_state r),
      wrr_version = run_version r, wrr_current_step_id = run_current_step_id r,
      wrr_created_at = run_created_at r, wrr_updated_at = run_updated_at r,
      wrr_deadline_at = run_deadline_at r, wrr_created_by = run_created_by r,
      wrr_last_error_code = run_last_error_code r, wrr_last_error_detail = run_last_error_detail r\<rparr>"

definition event_response :: "AuditEventModel \<Rightarrow> AuditEventResponse" where
  "event_response e =
     \<lparr>aer_audit_event_id = evt_audit_event_id e, aer_workflow_run_id = evt_workflow_run_id e,
      aer_event_type = evt_event_type e, aer_actor = evt_actor e, aer_payload = evt_payload e,
      aer_occurred_at = evt_occurred_at e, aer_seq_in_run = evt_seq_in_run e,
      aer_step_id = evt_step_id e, aer_step_attempt_id = evt_step_attempt_id e\<rparr>"

definition escalation_response :: "EscalationCaseModel \<Rightarrow> EscalationResponse" where
  "escalation_response c =
     \<lparr>er_escalation_id = esc_escalation_id c, er_workflow_run_id = esc_workflow_run_id c,
      er_step_id = esc_step_id c, er_state = esc_state_value (esc_state c),
      er_reason_code = esc_reason_code c, er_reason_detail = esc_reason_detail c,
      er_claimed_by = esc_claimed_by c, er_claimed_at = esc_claimed_at c,
      er_resolved_by = esc_resolved_by c, er_resolved_at = esc_resolved_at c,
      er_resolution_payload = esc_resolution_payload c, er_expires_at = esc_expires_at c,
      er_created_at = esc_created_at c\<rparr>"

section \<open>Documents\<close>

definition ingest_document ::
  "Settings \<Rightarrow> bytes \<Rightarrow> string option \<Rightarrow> ApiKeyPrincipal \<Rightarrow> ('r, DocumentIngestResponse) sexec" where
  "ingest_document settings content file_content_type prin =
     (let content_hash = sha256 content; size_bytes = int (length content);
          content_type = or_default file_content_type ''application/octet-stream'' in
      bindE uuid4 (\<lambda>document_id.
      bindE now_utc (\<lambda>now.
      bindE (payload_write (PAYLOAD_STORAGE_PATH settings) content_hash content) (\<lambda>payload_ref.
      bindE (document_get_by_content_hash content_hash) (\<lambda>existing.
      case uuid_parse (pr_api_key_id prin) of
        Inl e \<Rightarrow> raiseE e
      | Inr api_key_id \<Rightarrow>
      bindE (document_create
        \<lparr>doc_document_id = document_id, doc_content_hash = content_hash,
         doc_content_type = content_type, doc_size_bytes = size_bytes, doc_payload_ref = payload_ref,
         doc_ingested_at = now, doc_ingested_by = actor_string prin, doc_idempotency_key = None,
         doc_api_key_id = Some api_key_id, doc_metadata = []\<rparr>) (\<lambda>_.
      returnE \<lparr>dir_document_id = document_id, dir_content_hash = bytes_hex content_hash,
               dir_size_bytes = size_bytes, dir_content_type = content_type, dir_ingested_at = now,
               dir_is_duplicate = (length existing > 0)\<rparr>))))))"

definition get_document_content :: "Settings \<Rightarrow> uuid \<Rightarrow> ('r, bytes \<times> string) sexec" where
  "get_document_content settings document_id =
     bindE (document_get_by_id document_id) (\<lambda>doc.
     case doc of
       None \<Rightarrow> raiseE (HTTPException 404 ''Document not found'')
     | Some d \<Rightarrow>
         bindE (payload_read (PAYLOAD_STORAGE_PATH settings) (doc_payload_ref d)) (\<lambda>content.
         returnE (content, doc_content_type d)))"

section \<open>Workflow runs\<close>

definition api_task_payload ::
  "uuid \<Rightarrow> StepModel \<Rightarrow> uuid \<Rightarrow> string \<Rightarrow> string \<Rightarrow> string \<Rightarrow> uuid list \<Rightarrow> dict" where
  "api_task_payload run step attempt handler_name name version document_ids =
     [(''workflow_run_id'', JStr (uuid_str run)), (''step_id'', JStr (uuid_str (stp_step_id step))),
      (''step_attempt_id'', JStr (uuid_str attempt)), (''step_name'', JStr (stp_step_name step)),
      (''handler_name'', JStr handler_name), (''workflow_name'', JStr name),
      (''workflow_version'', JStr version), (''attempt_number'', JInt 1),
      (''document_ids'', JArr (map (\<lambda>d. JStr (uuid_str d)) document_ids))]"

definition lookup_definition ::
  "WorkflowRegistry \<Rightarrow> string \<Rightarrow> string option \<Rightarrow> WorkflowDefinition option" where
  "lookup_definition reg name version =
     (case version of
        Some (c # cs) \<Rightarrow> registry_get reg name (c # cs)
      | _ \<Rightarrow> get_latest reg name)"

definition create_workflow_run ::
  "WorkflowRegistry \<Rightarrow> WorkflowRunCreate \<Rightarrow> ApiKeyPrincipal \<Rightarrow> ('z, WorkflowRunResponse) wexec" where
  "create_workflow_run reg body prin =
   (case lookup_definition reg (wc_workflow_name body) (wc_workflow_version body) of
      None \<Rightarrow> raiseE (HTTPException 422 (''Unknown workflow: '' @ wc_workflow_name body))
    | Some definition \<Rightarrow>
     let name = wc_workflow_name body; workflow_version = wd_workflow_version definition;
         docs = wc_document_ids body in
     bindE now_utc (\<lambda>now.
     bindE uuid4 (\<lambda>workflow_run_id.
     let run_model = fresh_run workflow_run_id name workflow_version now
                       (wd_deadline_seconds definition) (actor_string prin) in
     bindE (insert_run run_model) (\<lambda>_.
     bindE (mk_steps workflow_run_id now (wd_steps definition)) (\<lambda>step_models.
     bindE (forE docs (\<lambda>doc_id.
       insert_run_document \<lparr>rd_workflow_run_id = workflow_run_id, rd_document_id = doc_id,
         rd_attached_at = now\<rparr>)) (\<lambda>_.
     bindE (step_create_many step_models) (\<lambda>_.
     case step_models of [] \<Rightarrow> raiseE IndexError | first_step # _ \<Rightarrow>
     bindE uuid4 (\<lambda>step_attempt_id.
     bindE (insert_attempt (mk_attempt step_attempt_id (stp_step_id first_step) 1 (Some now) now)) (\<lambda>_.
     bindE (update_run workflow_run_id
       (\<lambda>r. r\<lparr>run_current_step_id := Some (stp_step_id first_step), run_state := running,
              run_version := 1\<rparr>)) (\<lambda>_.
     bindE (insert_outbox (mk_outbox workflow_run_id (stp_step_id first_step) step_attempt_id
       (api_task_payload workflow_run_id first_step step_attempt_id
         (sd_handler_name (hd (wd_steps definition))) name workflow_version docs) now now)) (\<lambda>_.
     bindE (append_audit_event workflow_run_id ''workflow_run.started'' (actor_string prin)
       [(''workflow_name'', JStr name), (''workflow_version'', JStr workflow_version),
        (''document_ids'', JArr (map (\<lambda>d. JStr (uuid_str d)) docs)),
        (''inputs'', JObj (wc_inputs body))] None None) (\<lambda>_.
     bindE (metric ''workflow_runs_started_total'' [name, workflow_version]) (\<lambda>_.
     returnE (run_response (run_model\<lparr>run_state := running, run_version := 1,
       run_current_step_id := Some (stp_step_id first_step)\<rparr>)))))))))))))))"

definition get_workflow_run :: "uuid \<Rightarrow> ('z, WorkflowRunResponse) wexec" where
  "get_workflow_run workflow_run_id =
     bindE (run_get_by_id workflow_run_id) (\<lambda>run.
     case run of
       None \<Rightarrow> raiseE (HTTPException 404 ''Workflow run not found'')
     | Some r \<Rightarrow> returnE (run_response r))"

text \<open>The cursor is sent to a \<open>BIGINT\<close> parameter: the driver refuses what does not fit.\<close>

definition cursor_filter :: "string option \<Rightarrow> exn + int option" where
  "cursor_filter cursor =
     (case cursor of
        Some (c # cs) \<Rightarrow>
          (case int_parse (c # cs) of
             None \<Rightarrow> Inl (HTTPException 400 ''Invalid cursor'')
           | Some n \<Rightarrow> if - (2 ^ 63) \<le> n \<and> n < 2 ^ 63 then Inr (Some n)
                        else Inl (DataError ''value out of int64 range''))
      | _ \<Rightarrow> Inr None)"

definition select_events ::
  "uuid \<Rightarrow> string option \<Rightarrow> int option \<Rightarrow> db \<Rightarrow> AuditEventModel list" where
  "select_events i event_type cursor d =
     sort_key evt_seq_in_run (filter (\<lambda>e.
       (case event_type of Some (c # cs) \<Rightarrow> evt_event_type e = c # cs | _ \<Rightarrow> True) \<and>
       (case cursor of Some n \<Rightarrow> evt_seq_in_run e > n | None \<Rightarrow> True)) (events_of_run i d))"

definition get_workflow_run_events ::
  "uuid \<Rightarrow> string option \<Rightarrow> string option \<Rightarrow> nat \<Rightarrow> ('z, WorkflowRunEventsResponse) wexec" where
  "get_workflow_run_events workflow_run_id event_type cursor limit =
     bindE (run_get_by_id workflow_run_id) (\<lambda>run.
     case run of
       None \<Rightarrow> raiseE (HTTPException 404 ''Workflow run not found'')
     | Some _ \<Rightarrow>
     (case cursor_filter cursor of
        Inl e \<Rightarrow> raiseE e
      | Inr after \<Rightarrow>
     bindE (read_db (\<lambda>d. take (limit + 1) (select_events workflow_run_id event_type after d))) (\<lambda>rows.
     let has_next = length rows > limit;
         events = (if has_next then take limit rows else rows);
         next_cursor = (if has_next \<and> events \<noteq> [] then Some (int_str (evt_seq_in_run (last events))) else None) in
     returnE \<lparr>wer_events = map event_response events, wer_next_cursor = next_cursor\<rparr>)))"

text \<open>
  The handler builds its response from the row object it loaded before the \<open>UPDATE\<close>. Whether
  SQLAlchemy has by then copied the new values into that object depends on its
  \<open>synchronize_session\<close> option: the argument \<open>sync\<close>.
\<close>

definition cancel_workflow_run ::
  "bool \<Rightarrow> uuid \<Rightarrow> string option \<Rightarrow> string option \<Rightarrow> ApiKeyPrincipal \<Rightarrow> ('z, WorkflowRunResponse) wexec" where
  "cancel_workflow_run sync workflow_run_id reason notes prin =
     bindE (run_get_by_id workflow_run_id) (\<lambda>found.
     case found of
       None \<Rightarrow> raiseE (HTTPException 404 ''Workflow run not found'')
     | Some run \<Rightarrow>
     if run_state run \<notin> {running, awaiting_human}
     then raiseE (HTTPException 409 (''Workflow run in state '' @ quoted (run_state_value (run_state run))
                                    @ '' cannot be cancelled''))
     else
     bindE now_utc (\<lambda>now.
     bindE (run_update_state_optimistic workflow_run_id (run_version run) cancelled (run_version run + 1)
       (\<lambda>r. r\<lparr>run_updated_at := now\<rparr>)) (\<lambda>updated.
     if \<not> updated
     then raiseE (HTTPException 409 ''Concurrent modification detected, please retry'')
     else
     bindE (append_audit_event workflow_run_id ''workflow_run.cancelled'' (actor_string prin)
       [(''reason'', JStr (or_default reason [])), (''notes'', JStr (or_default notes []))] None None) (\<lambda>_.
     bindE (metric ''workflow_runs_completed_total''
       [run_workflow_name run, run_workflow_version run, ''cancelled'']) (\<lambda>_.
     let loaded = (if sync then run\<lparr>run_state := cancelled, run_version := run_version run + 1,
                                  run_updated_at := now\<rparr> else run) in
     returnE (run_response (loaded\<lparr>run_state := cancelled, run_version := run_version loaded + 1,
       run_updated_at := now\<rparr>)))))))"

section \<open>Escalations\<close>

text \<open>
  \<open>datetime.fromisoformat\<close> on the cursor is the argument \<open>parse\<close>: \<open>None\<close> is its \<open>ValueError\<close>.
\<close>

definition select_escalations ::
  "string option \<Rightarrow> string option \<Rightarrow> time option \<Rightarrow> db \<Rightarrow> EscalationCaseModel list" where
  "select_escalations state workflow_name after d =
     sort_key esc_created_at (filter (\<lambda>c.
       (case state of Some (x # xs) \<Rightarrow> esc_state_value (esc_state c) = x # xs | _ \<Rightarrow> True) \<and>
       (case workflow_name of
          Some (x # xs) \<Rightarrow> list_ex (\<lambda>r. run_workflow_run_id r = esc_workflow_run_id c \<and>
                             run_workflow_name r = x # xs) (workflow_runs d)
        | _ \<Rightarrow> True) \<and>
       (case after of Some t \<Rightarrow> esc_created_at c > t | None \<Rightarrow> True)) (escalation_cases d))"

definition list_escalations ::
  "(string \<Rightarrow> time option) \<Rightarrow> string option \<Rightarrow> string option \<Rightarrow> string option \<Rightarrow> nat \<Rightarrow>
   ('z, EscalationListResponse) wexec" where
  "list_escalations parse state workflow_name cursor limit =
     (case (case cursor of
              Some (c # cs) \<Rightarrow> (case parse (c # cs) of
                  None \<Rightarrow> Inl (HTTPException 400 ''Invalid cursor'') | Some t \<Rightarrow> Inr (Some t))
            | _ \<Rightarrow> Inr None) of
        Inl e \<Rightarrow> raiseE e
      | Inr after \<Rightarrow>
     bindE (read_db (\<lambda>d. take (limit + 1) (select_escalations state workflow_name after d))) (\<lambda>rows.
     let has_next = length rows > limit;
         cases = (if has_next then take limit rows else rows);
         next_cursor = (if has_next \<and> cases \<noteq> [] then Some (isoformat (esc_created_at (last cases))) else None) in
     returnE \<lparr>el_escalations = map escalation_response cases, el_next_cursor = next_cursor\<rparr>))"

definition claim_escalation ::
  "uuid \<Rightarrow> ApiKeyPrincipal \<Rightarrow> ('z, EscalationClaimResponse) wexec" where
  "claim_escalation escalation_id prin =
     bindE now_utc (\<lambda>now.
     bindE (read_db (\<lambda>d. length (filter (\<lambda>c. esc_escalation_id c = escalation_id \<and> esc_state c = esc_open)
                            (escalation_cases d)))) (\<lambda>rowcount.
     bindE (write_db (\<lambda>d. d\<lparr>escalation_cases :=
       map_where (\<lambda>c. esc_escalation_id c = escalation_id \<and> esc_state c = esc_open)
         (\<lambda>c. c\<lparr>esc_state := claimed, esc_claimed_by := Some (actor_string prin),
                esc_claimed_at := Some now\<rparr>) (escalation_cases d)\<rparr>)) (\<lambda>_.
     if rowcount = 0
     then bindE (escalation_get_by_id escalation_id) (\<lambda>esc.
       case esc of
         None \<Rightarrow> raiseE (HTTPException 404 ''Escalation not found'')
       | Some c \<Rightarrow> raiseE (HTTPException 409 (''Escalation is in state ''
             @ quoted (esc_state_value (esc_state c)) @ '' and cannot be claimed'')))
     else
     bindE (read_db (\<lambda>d. map esc_workflow_run_id
       (filter (\<lambda>c. esc_escalation_id c = escalation_id) (escalation_cases d)))) (\<lambda>ids.
     bindE (scalar_one ids) (\<lambda>workflow_run_id.
     bindE (append_audit_event workflow_run_id ''escalation.claimed'' (actor_string prin)
       [(''escalation_id'', JStr (uuid_str escalation_id))] None None) (\<lambda>_.
     returnE \<lparr>ecl_escalation_id = escalation_id, ecl_state = ''claimed'',
              ecl_claimed_by = actor_string prin, ecl_claimed_at = now\<rparr>))))))"

text \<open>The guards the two decisions share: the case, if this principal may decide it now.\<close>

definition claimed_case ::
  "string \<Rightarrow> uuid \<Rightarrow> ApiKeyPrincipal \<Rightarrow> ('z, EscalationCaseModel) wexec" where
  "claimed_case verb escalation_id prin =
     bindE (escalation_get_by_id escalation_id) (\<lambda>found.
     case found of
       None \<Rightarrow> raiseE (HTTPException 404 ''Escalation not found'')
     | Some esc \<Rightarrow>
         if esc_state esc \<noteq> claimed
         then raiseE (HTTPException 409 (''Escalation in state '' @ quoted (esc_state_value (esc_state esc))
                                        @ '' cannot be '' @ verb))
         else if esc_claimed_by esc \<noteq> Some (actor_string prin)
         then raiseE (HTTPException 403 ''Escalation is claimed by a different actor'')
         else returnE esc)"

definition decide_case ::
  "EscalationState \<Rightarrow> string \<Rightarrow> time \<Rightarrow> dict \<Rightarrow> EscalationCaseModel \<Rightarrow> EscalationCaseModel" where
  "decide_case st actor now payload c =
     c\<lparr>esc_state := st, esc_resolved_by := Some actor, esc_resolved_at := Some now,
       esc_resolution_payload := Some payload\<rparr>"

definition resolve_escalation ::
  "uuid \<Rightarrow> ResolveRequest \<Rightarrow> ApiKeyPrincipal \<Rightarrow> ('z, EscalationResponse) wexec" where
  "resolve_escalation escalation_id body prin =
     bindE (claimed_case ''resolved'' escalation_id prin) (\<lambda>esc.
     bindE now_utc (\<lambda>now.
     let decide = decide_case resolved (actor_string prin) now
           [(''approve'', case rq_approve body of None \<Rightarrow> JNull | Some b \<Rightarrow> JBool b),
            (''override'', case rq_override body of None \<Rightarrow> JNull | Some d \<Rightarrow> JObj d),
            (''notes'', JStr (rq_notes body))] in
     bindE uuid4 (\<lambda>step_attempt_id.
     bindE (update_escalation escalation_id decide) (\<lambda>_.
     bindE (insert_attempt ((mk_attempt step_attempt_id (esc_step_id esc) 99 None now)
       \<lparr>att_state := succeeded, att_origin := human, att_started_at := Some now,
        att_ended_at := Some now\<rparr>)) (\<lambda>_.
     bindE (run_get_by_id (esc_workflow_run_id esc)) (\<lambda>run.
     bindE (case run of
         Some r \<Rightarrow> if run_state r = awaiting_human
           then update_run (run_workflow_run_id r)
             (\<lambda>r. r\<lparr>run_state := running, run_version := run_version r + 1, run_updated_at := now\<rparr>)
           else returnE ()
       | None \<Rightarrow> returnE ()) (\<lambda>_.
     bindE (append_audit_event (esc_workflow_run_id esc) ''escalation.resolved'' (actor_string prin)
       [(''escalation_id'', JStr (uuid_str escalation_id)), (''notes'', JStr (rq_notes body))]
       (Some (esc_step_id esc)) (Some step_attempt_id)) (\<lambda>_.
     bindE (metric ''escalations_resolved_total'' [''unknown'', ''resolved'']) (\<lambda>_.
     returnE (escalation_response (decide esc)))))))))))"

definition reject_escalation ::
  "uuid \<Rightarrow> RejectRequest \<Rightarrow> ApiKeyPrincipal \<Rightarrow> ('z, EscalationResponse) wexec" where
  "reject_escalation escalation_id body prin =
     bindE (claimed_case ''rejected'' escalation_id prin) (\<lambda>esc.
     bindE now_utc (\<lambda>now.
     let decide = decide_case rejected (actor_string prin) now
           [(''reason_code'', JStr (rj_reason_code body)), (''notes'', JStr (rj_notes body))] in
     bindE (update_escalation escalation_id decide) (\<lambda>_.
     bindE (run_get_by_id (esc_workflow_run_id esc)) (\<lambda>run.
     bindE (case run of
         Some r \<Rightarrow> if run_state r \<in> {running, awaiting_human}
           then update_run (run_workflow_run_id r)
             (close_run failed now (Some ''ESCALATION_REJECTED'') (Some (rj_notes body)))
           else returnE ()
       | None \<Rightarrow> returnE ()) (\<lambda>_.
     bindE (append_audit_event (esc_workflow_run_id esc) ''escalation.rejected'' (actor_string prin)
       [(''escalation_id'', JStr (uuid_str escalation_id)), (''reason_code'', JStr (rj_reason_code body)),
        (''notes'', JStr (rj_notes body))] (Some (esc_step_id esc)) None) (\<lambda>_.
     bindE (case run of
         Some r \<Rightarrow> metric ''workflow_runs_completed_total''
           [run_workflow_name r, run_workflow_version r, ''failed'']
       | None \<Rightarrow> returnE ()) (\<lambda>_.
     returnE (escalation_response (decide esc)))))))))"

section \<open>Every request\<close>

datatype api_op =
    ApiIngest bytes "string option"
  | ApiContent uuid
  | ApiCreate WorkflowRunCreate
  | ApiGetRun uuid
  | ApiEvents uuid "string option" "string option" nat
  | ApiCancel bool uuid "string option" "string option"
  | ApiList "string option" "string option" "string option" nat
  | ApiClaim uuid
  | ApiResolve uuid ResolveRequest
  | ApiReject uuid RejectRequest

definition all_roles :: "string list" where
  "all_roles = [''operator'', ''supervisor'', ''viewer'']"

fun api_roles :: "api_op \<Rightarrow> string list" where
  "api_roles (ApiIngest _ _) = [''operator'', ''supervisor'']"
| "api_roles (ApiContent _) = [''operator'', ''supervisor'']"
| "api_roles (ApiCreate _) = [''operator'', ''supervisor'']"
| "api_roles (ApiGetRun _) = all_roles"
| "api_roles (ApiEvents _ _ _ _) = all_roles"
| "api_roles (ApiCancel _ _ _ _) = [''supervisor'']"
| "api_roles (ApiList _ _ _ _) = all_roles"
| "api_roles (ApiClaim _) = [''operator'', ''supervisor'']"
| "api_roles (ApiResolve _ _) = [''operator'', ''supervisor'']"
| "api_roles (ApiReject _ _) = [''operator'', ''supervisor'']"

definition dropE :: "('w, 'a) exec \<Rightarrow> ('w, unit) exec" where
  "dropE m = bindE m (\<lambda>_. returnE ())"

fun api_body ::
  "WorkflowRegistry \<Rightarrow> Settings \<Rightarrow> (string \<Rightarrow> time option) \<Rightarrow> api_op \<Rightarrow> ApiKeyPrincipal \<Rightarrow> ('r, unit) sexec" where
  "api_body reg settings parse (ApiIngest content ct) p = dropE (ingest_document settings content ct p)"
| "api_body reg settings parse (ApiContent i) p = dropE (get_document_content settings i)"
| "api_body reg settings parse (ApiCreate body) p = dropE (create_workflow_run reg body p)"
| "api_body reg settings parse (ApiGetRun i) p = dropE (get_workflow_run i)"
| "api_body reg settings parse (ApiEvents i et c n) p = dropE (get_workflow_run_events i et c n)"
| "api_body reg settings parse (ApiCancel sync i reason notes) p = dropE (cancel_workflow_run sync i reason notes p)"
| "api_body reg settings parse (ApiList st wn c n) p = dropE (list_escalations parse st wn c n)"
| "api_body reg settings parse (ApiClaim i) p = dropE (claim_escalation i p)"
| "api_body reg settings parse (ApiResolve i body) p = dropE (resolve_escalation i body p)"
| "api_body reg settings parse (ApiReject i body) p = dropE (reject_escalation i body p)"

definition exec_api ::
  "'r redis_api \<Rightarrow> WorkflowRegistry \<Rightarrow> Settings \<Rightarrow> (string \<Rightarrow> time option) \<Rightarrow> string option \<Rightarrow> api_op \<Rightarrow>
   ('r, unit) sexec" where
  "exec_api R reg settings parse credentials op =
     request R settings (api_roles op) credentials (api_body reg settings parse op)"

section \<open>Well-formed databases\<close>

lemma disk_keeps_db: "keeps (\<lambda>w. w_db w = d) (payload_write base h data)" "keeps (\<lambda>w. w_db w = d) (payload_read base ref)"
  unfolding payload_write_def payload_read_def Let_def
  by (intro keeps_intros; auto simp: disk_defs keeps_def catchE_def bindE_def split: option.splits)+

lemma payload_db:
  "payload_write base h data w = (r, w') \<Longrightarrow> w_db w' = w_db w"
  "payload_read base ref w = (r2, w') \<Longrightarrow> w' = w"
  using keepsD [OF disk_keeps_db(1) refl] by (auto simp: payload_read_def split: option.splits)

lemma payload_wf [keeps_intros]:
  "keeps world_wf (payload_write base h data)" "keeps world_wf (payload_read base ref)"
  by (auto intro!: keepsI dest: payload_db)

lemma decide_case_simps [simp]:
  "esc_escalation_id (decide_case st a t p c) = esc_escalation_id c"
  "escalation_key (decide_case st a t p c) = escalation_key c"
  "esc_step_id (decide_case st a t p c) = esc_step_id c"
  "esc_workflow_run_id (decide_case st a t p c) = esc_workflow_run_id c"
  "esc_state (decide_case st a t p c) = st"
  by (simp_all add: decide_case_def escalation_key_def)

lemma claimed_case_wf [keeps_intros]: "keeps world_wf (claimed_case v i p)"
  unfolding claimed_case_def by (intro keeps_intros)

lemma claim_escalation_wf [keeps_intros]: "keeps world_wf (claim_escalation i p)"
  unfolding claim_escalation_def
  by (intro keeps_intros keeps_write_db) (auto simp: db_wf_defs map_where_facts escalation_key_def)

lemma create_workflow_run_wf [keeps_intros]: "keeps world_wf (create_workflow_run reg body p)"
  unfolding create_workflow_run_def Let_def by (intro keeps_intros update_wf) simp_all

lemma handlers_wf [keeps_intros]:
  "keeps world_wf (ingest_document settings content ct p)" "keeps world_wf (get_document_content settings i)"
  "keeps world_wf (get_workflow_run i)" "keeps world_wf (get_workflow_run_events i et c n)"
  "keeps world_wf (list_escalations parse st wn c n)"
  "keeps world_wf (cancel_workflow_run sync i reason notes p)"
  "keeps world_wf (resolve_escalation i body1 p)" "keeps world_wf (reject_escalation i body2 p)"
  unfolding ingest_document_def get_document_content_def get_workflow_run_def get_workflow_run_events_def
    list_escalations_def cancel_workflow_run_def resolve_escalation_def reject_escalation_def Let_def
  by (intro keeps_intros update_wf run_update_state_optimistic_wf; simp add: close_run_def)+

lemma exec_api_wf [keeps_intros]: "keeps world_wf (exec_api R reg settings parse cred op)"
  unfolding exec_api_def request_def by (cases op) (auto simp: dropE_def intro!: keeps_intros)

section \<open>The audit log\<close>

context sys_invariant
begin

lemma payload_safe [safe_intros]: "safe I (payload_write base h data)" "safe I (payload_read base ref)"
proof -
  have d: "safe I disk_fault" "safe I (set_file p v)" for p v
    by (auto intro!: safeI simp: disk_fault_def set_file_def advances_def elim!: frame)
  show "safe I (payload_write base h data)" "safe I (payload_read base ref)"
    unfolding payload_write_def payload_read_def Let_def mkdir_parent_def write_bytes_def os_replace_def unlink_def
    by (intro safe_intros d)+
qed

lemma handlers_safe [safe_intros]:
  "safe I (ingest_document settings content ct p)" "safe I (get_document_content settings i)"
  "safe I (create_workflow_run reg body p)"
  "safe I (get_workflow_run i)" "safe I (get_workflow_run_events i et c n)"
  "safe I (list_escalations parse st wn c n)" "safe I (claim_escalation i p)"
  "safe I (cancel_workflow_run sync i reason notes p)"
  "safe I (resolve_escalation i body1 p)" "safe I (reject_escalation i body2 p)"
  unfolding ingest_document_def get_document_content_def get_workflow_run_def get_workflow_run_events_def
    list_escalations_def cancel_workflow_run_def resolve_escalation_def reject_escalation_def Let_def
    create_workflow_run_def claim_escalation_def claimed_case_def
  by ((intro safe_intros append write_safe; simp?)+)

lemma exec_api_safe [safe_intros]: "safe I (exec_api R reg settings parse cred op)"
  unfolding exec_api_def request_def by (cases op) (auto simp: dropE_def intro!: safe_intros)

end

section \<open>Effects of the handlers\<close>

text \<open>The only case of that identifier, and the actor that claimed it: the case is that actor's to decide.\<close>

definition may_decide :: "uuid \<Rightarrow> string \<Rightarrow> EscalationCaseModel \<Rightarrow> db \<Rightarrow> bool" where
  "may_decide i actor c d \<longleftrightarrow> filter (\<lambda>c'. esc_escalation_id c' = i) (escalation_cases d) = [c] \<and>
     esc_state c = claimed \<and> esc_claimed_by c = Some actor"

lemma may_decide_case: "may_decide i actor c d \<Longrightarrow> c \<in> set (escalation_cases d) \<and> esc_escalation_id c = i"
  using filter_single by (fastforce simp: may_decide_def)

lemma claimed_case_ok:
  assumes "claimed_case v i p w = (Inr c, w')"
  shows "w' = w \<and> c \<in> set (escalation_cases (w_db w)) \<and> esc_escalation_id c = i \<and>
    esc_state c = claimed \<and> esc_claimed_by c = Some (actor_string p)" "may_decide i (actor_string p) c (w_db w)"
proof -
  show d: "may_decide i (actor_string p) c (w_db w)"
    using assms by (auto simp: claimed_case_def escalation_get_by_id_def may_decide_def
        elim!: bindE_InrD dest!: scalar_ok split: option.splits if_splits)
  have "w' = w"
    using assms by (auto simp: claimed_case_def elim!: bindE_InrD dest!: lookup_ok split: option.splits if_splits)
  with may_decide_case [OF d] d show "w' = w \<and> c \<in> set (escalation_cases (w_db w)) \<and> esc_escalation_id c = i \<and>
      esc_state c = claimed \<and> esc_claimed_by c = Some (actor_string p)"
    by (simp add: may_decide_def)
qed

lemma insert_attempt_step:
  "insert_attempt a w = (Inr u, w') \<Longrightarrow> att_step_id a \<in> stp_step_id ` set (steps (w_db w))"
  unfolding insert_attempt_def by (erule checked_cases; simp)

lemma optimistic_ok:
  assumes "run_update_state_optimistic i v st v' kw w = (Inr ok, w')"
  shows "w' = w\<lparr>w_db := upd_run i (\<lambda>r. if run_version r = v then kw (r\<lparr>run_state := st, run_version := v'\<rparr>) else r) (w_db w)\<rparr>"
proof -
  have "map_where (\<lambda>r. run_workflow_run_id r = i \<and> run_version r = v) (\<lambda>r. kw (r\<lparr>run_state := st, run_version := v'\<rparr>)) rs
    = map_where (\<lambda>r. run_workflow_run_id r = i) (\<lambda>r. if run_version r = v then kw (r\<lparr>run_state := st, run_version := v'\<rparr>) else r) rs" for rs
    by (auto simp: map_where_def)
  then show ?thesis using assms by (auto simp: run_update_state_optimistic_def elim!: bindE_InrD)
qed

text \<open>The databases the decisions leave.\<close>

definition cancelled_db :: "uuid \<Rightarrow> int \<Rightarrow> time \<Rightarrow> AuditEventModel \<Rightarrow> db \<Rightarrow> db" where
  "cancelled_db i v now m d = add_event m (upd_run i (\<lambda>r. if run_version r = v
     then r\<lparr>run_state := cancelled, run_version := v + 1, run_updated_at := now\<rparr> else r) d)"

lemma cancel_workflow_run_ok:
  assumes "cancel_workflow_run sync i reason notes p w = (Inr res, w')"
  shows "\<exists>r m now. r \<in> set (workflow_runs (w_db w)) \<and> run_workflow_run_id r = i \<and>
    run_state r \<in> {running, awaiting_human} \<and>
    evt_workflow_run_id m = i \<and> evt_event_type m = ''workflow_run.cancelled'' \<and> evt_actor m = actor_string p \<and>
    wrr_state res = ''cancelled'' \<and> wrr_version res = run_version r + (if sync then 2 else 1) \<and>
    w_db w' = cancelled_db i (run_version r) now m (w_db w)"
proof -
  from assms obtain r w1 now w2 u w3 m w4 w5 x where
    r: "run_get_by_id i w = (Inr (Some r), w1)" and st: "run_state r \<in> {running, awaiting_human}"
    and now: "now_utc w1 = (Inr now, w2)"
    and up: "run_update_state_optimistic i (run_version r) cancelled (run_version r + 1)
       (\<lambda>r. r\<lparr>run_updated_at := now\<rparr>) w2 = (Inr u, w3)"
    and m: "append_audit_event i ''workflow_run.cancelled'' (actor_string p)
       [(''reason'', JStr (or_default reason [])), (''notes'', JStr (or_default notes []))] None None w3 = (Inr m, w4)"
    and me: "metric ''workflow_runs_completed_total''
       [run_workflow_name r, run_workflow_version r, ''cancelled''] w4 = (Inr x, w')"
    and res: "wrr_state res = ''cancelled''" "wrr_version res = run_version r + (if sync then 2 else 1)"
    by (auto simp: cancel_workflow_run_def Let_def run_response_def elim!: bindE_InrD
        split: option.splits if_splits)
  have "w_db w' = cancelled_db i (run_version r) now m (w_db w)"
    using draws_ok(5) [OF me] append_audit_event_ok [OF m] optimistic_ok [OF up] draws_ok(2) [OF now] lookup_ok(1) [OF r]
    by (simp add: cancelled_db_def cong: if_cong)
  with lookup_ok(1) [OF r] st append_audit_event_ok [OF m] res show ?thesis by blast
qed

definition claimed_db :: "uuid \<Rightarrow> string \<Rightarrow> time \<Rightarrow> AuditEventModel \<Rightarrow> db \<Rightarrow> db" where
  "claimed_db i actor now m d = add_event m (d\<lparr>escalation_cases :=
       map_where (\<lambda>c. esc_escalation_id c = i \<and> esc_state c = esc_open)
         (\<lambda>c. c\<lparr>esc_state := claimed, esc_claimed_by := Some actor, esc_claimed_at := Some now\<rparr>)
         (escalation_cases d)\<rparr>)"

lemma claim_escalation_ok:
  assumes "claim_escalation i p w = (Inr res, w')"
  shows "\<exists>c m now. c \<in> set (escalation_cases (w_db w)) \<and> esc_escalation_id c = i \<and> esc_state c = esc_open \<and>
    evt_event_type m = ''escalation.claimed'' \<and> evt_actor m = actor_string p \<and>
    ecl_claimed_by res = actor_string p \<and> ecl_claimed_at res = now \<and>
    w_db w' = claimed_db i (actor_string p) now m (w_db w)"
proof -
  let ?q = "\<lambda>c. esc_escalation_id c = i \<and> esc_state c = esc_open"
  let ?f = "\<lambda>now c. c\<lparr>esc_state := claimed, esc_claimed_by := Some (actor_string p), esc_claimed_at := Some now\<rparr>"
  from assms obtain m now run w0 where
    n: "filter ?q (escalation_cases (w_db w0)) \<noteq> []" and t: "now_utc w = (Inr now, w0)"
    and m: "append_audit_event run ''escalation.claimed'' (actor_string p)
       [(''escalation_id'', JStr (uuid_str i))] None None
       (w0\<lparr>w_db := (w_db w0)\<lparr>escalation_cases := map_where ?q (?f now) (escalation_cases (w_db w0))\<rparr>\<rparr>) = (Inr m, w')"
    and res: "ecl_claimed_by res = actor_string p" "ecl_claimed_at res = now"
    by (auto simp: claim_escalation_def scalar_one_def elim!: bindE_InrD
        split: option.splits if_splits list.splits)
  have w0: "w_db w0 = w_db w" using draws_ok(2) [OF t] .
  from n obtain c where "c \<in> set (escalation_cases (w_db w))" "esc_escalation_id c = i" "esc_state c = esc_open"
    unfolding w0 by (auto simp: filter_empty_conv)
  moreover have "w_db w' = claimed_db i (actor_string p) now m (w_db w)"
    using append_audit_event_ok [OF m] w0 by (simp add: claimed_db_def)
  ultimately show ?thesis using append_audit_event_ok [OF m] res by blast
qed

text \<open>A decision moves the run of the case only from the states it names.\<close>

definition move_run :: "uuid \<Rightarrow> (WorkflowRunModel \<Rightarrow> bool) \<Rightarrow> (WorkflowRunModel \<Rightarrow> WorkflowRunModel) \<Rightarrow> db \<Rightarrow> db" where
  "move_run i q g d = upd_run i (\<lambda>r. if q r then g r else r) d"

definition resolve_payload :: "ResolveRequest \<Rightarrow> dict" where
  "resolve_payload body = [(''approve'', case rq_approve body of None \<Rightarrow> JNull | Some b \<Rightarrow> JBool b),
     (''override'', case rq_override body of None \<Rightarrow> JNull | Some d \<Rightarrow> JObj d), (''notes'', JStr (rq_notes body))]"

definition resolved_db ::
  "uuid \<Rightarrow> ResolveRequest \<Rightarrow> string \<Rightarrow> EscalationCaseModel \<Rightarrow> uuid \<Rightarrow> time \<Rightarrow> AuditEventModel \<Rightarrow> db \<Rightarrow> db" where
  "resolved_db i body actor c aid now m d =
     add_event m (move_run (esc_workflow_run_id c) (\<lambda>r. run_state r = awaiting_human)
         (\<lambda>r. r\<lparr>run_state := running, run_version := run_version r + 1, run_updated_at := now\<rparr>)
       (add_attempt (human_attempt aid (esc_step_id c) 99 now)
       (upd_escalation i (decide_case resolved actor now (resolve_payload body)) d)))"

definition rejected_db ::
  "uuid \<Rightarrow> RejectRequest \<Rightarrow> string \<Rightarrow> EscalationCaseModel \<Rightarrow> time \<Rightarrow> AuditEventModel \<Rightarrow> db \<Rightarrow> db" where
  "rejected_db i body actor c now m d =
     add_event m (move_run (esc_workflow_run_id c) (\<lambda>r. run_state r \<in> {running, awaiting_human})
         (close_run failed now (Some ''ESCALATION_REJECTED'') (Some (rj_notes body)))
       (upd_escalation i (decide_case rejected actor now
         [(''reason_code'', JStr (rj_reason_code body)), (''notes'', JStr (rj_notes body))]) d))"

text \<open>The shared middle part: look the run up and move it when it qualifies.\<close>

lemma move_run_ok:
  assumes g: "run_get_by_id i w = (Inr found, w1)"
    and u: "(case found of Some r \<Rightarrow> if q r then update_run (run_workflow_run_id r) f else returnE ()
       | None \<Rightarrow> returnE ()) w1 = (Inr (), w2)"
  shows "w_db w2 = move_run i q f (w_db w)"
proof -
  from g have f: "filter (\<lambda>r. run_workflow_run_id r = i) (workflow_runs (w_db w)) =
      (case found of None \<Rightarrow> [] | Some r \<Rightarrow> [r])" and w1: "w1 = w"
    by (auto simp: run_get_by_id_def dest!: scalar_ok)
  have mv: "map_where (\<lambda>r. run_workflow_run_id r = i) h rs =
      map_where (\<lambda>r. run_workflow_run_id r = i) h' rs"
    if "\<And>r. r \<in> set (filter (\<lambda>r. run_workflow_run_id r = i) rs) \<Longrightarrow> h r = h' r" for h h' rs
    using that by (auto simp: map_where_def)
  show ?thesis
  proof (cases found)
    case None
    with f have "map_where (\<lambda>r. run_workflow_run_id r = i) h (workflow_runs (w_db w)) = workflow_runs (w_db w)" for h
      by (intro map_where_none) (auto simp: filter_empty_conv)
    with None u w1 show ?thesis by (simp add: move_run_def)
  next
    case (Some r)
    then have i: "run_workflow_run_id r = i" using lookup_ok(1) [of i w r w1] g by simp
    have only: "\<And>r'. r' \<in> set (filter (\<lambda>r. run_workflow_run_id r = i) (workflow_runs (w_db w))) \<Longrightarrow> r' = r"
      using f Some by simp
    show ?thesis
    proof (cases "q r")
      case True
      then have "w_db w2 = upd_run i f (w_db w)" using u Some i w1 by (auto dest!: update_ok)
      moreover have "map_where (\<lambda>r. run_workflow_run_id r = i) (\<lambda>r. if q r then f r else r) (workflow_runs (w_db w))
          = map_where (\<lambda>r. run_workflow_run_id r = i) f (workflow_runs (w_db w))"
        by (rule mv) (use only True in fastforce)
      ultimately show ?thesis by (simp add: move_run_def)
    next
      case False
      then have "map_where (\<lambda>r. run_workflow_run_id r = i) (\<lambda>r. if q r then f r else r) (workflow_runs (w_db w))
          = map_where (\<lambda>r. run_workflow_run_id r = i) id (workflow_runs (w_db w))"
        by (intro mv) (use only in fastforce)
      also have "\<dots> = workflow_runs (w_db w)" unfolding map_where_def by (rule map_idI) simp
      finally show ?thesis using u Some False w1 by (simp add: move_run_def)
    qed
  qed
qed

lemma resolve_escalation_ok:
  assumes "resolve_escalation i body p w = (Inr res, w')"
  shows "\<exists>c aid now m. c \<in> set (escalation_cases (w_db w)) \<and> esc_escalation_id c = i \<and>
    esc_state c = claimed \<and> esc_claimed_by c = Some (actor_string p) \<and> may_decide i (actor_string p) c (w_db w) \<and>
    esc_step_id c \<in> stp_step_id ` set (steps (w_db w)) \<and>
    evt_workflow_run_id m = esc_workflow_run_id c \<and> evt_event_type m = ''escalation.resolved'' \<and>
    evt_actor m = actor_string p \<and> evt_step_attempt_id m = Some aid \<and> er_state res = ''resolved'' \<and>
    w_db w' = resolved_db i body (actor_string p) c aid now m (w_db w)"
proof -
  from assms obtain c w1 now w2 aid w3 w4 w5 run w6 w7 m w8 u x where
    c: "claimed_case ''resolved'' i p w = (Inr c, w1)" and now: "now_utc w1 = (Inr now, w2)"
    and aid: "uuid4 w2 = (Inr aid, w3)"
    and ue: "update_escalation i (decide_case resolved (actor_string p) now (resolve_payload body)) w3 = (Inr (), w4)"
    and at: "insert_attempt (human_attempt aid (esc_step_id c) 99 now) w4 = (Inr (), w5)"
    and run: "run_get_by_id (esc_workflow_run_id c) w5 = (Inr run, w6)"
    and mv: "(case run of Some r \<Rightarrow> if run_state r = awaiting_human then update_run (run_workflow_run_id r)
             (\<lambda>r. r\<lparr>run_state := running, run_version := run_version r + 1, run_updated_at := now\<rparr>) else returnE ()
       | None \<Rightarrow> returnE ()) w6 = (Inr (), w7)"
    and m: "append_audit_event (esc_workflow_run_id c) ''escalation.resolved'' (actor_string p)
       [(''escalation_id'', JStr (uuid_str i)), (''notes'', JStr (rq_notes body))]
       (Some (esc_step_id c)) (Some aid) w7 = (Inr m, w8)"
    and me: "metric ''escalations_resolved_total'' [''unknown'', ''resolved''] w8 = (Inr x, w')"
    and res: "er_state res = ''resolved''"
    by (auto simp: resolve_escalation_def Let_def escalation_response_def resolve_payload_def human_attempt_def
        elim!: bindE_InrD)
  note f = claimed_case_ok(1) [OF c] draws_ok(2) [OF now] draws_ok(1) [OF aid] update_ok(4) [OF ue]
    insert_ok(4) [OF at] move_run_ok [OF run mv] append_audit_event_ok [OF m] draws_ok(5) [OF me]
  have "w_db w' = resolved_db i body (actor_string p) c aid now m (w_db w)"
    using f by (simp add: resolved_db_def)
  moreover have "esc_step_id c \<in> stp_step_id ` set (steps (w_db w))"
    using insert_attempt_step [OF at] f by (simp add: human_attempt_def)
  ultimately show ?thesis using f(1) f(7) res claimed_case_ok(2) [OF c] by blast
qed

lemma reject_escalation_ok:
  assumes "reject_escalation i body p w = (Inr res, w')"
  shows "\<exists>c now m. c \<in> set (escalation_cases (w_db w)) \<and> esc_escalation_id c = i \<and>
    esc_state c = claimed \<and> esc_claimed_by c = Some (actor_string p) \<and> may_decide i (actor_string p) c (w_db w) \<and>
    evt_workflow_run_id m = esc_workflow_run_id c \<and> evt_event_type m = ''escalation.rejected'' \<and>
    evt_actor m = actor_string p \<and> er_state res = ''rejected'' \<and>
    w_db w' = rejected_db i body (actor_string p) c now m (w_db w)"
proof -
  from assms obtain c w1 now w2 w4 run w6 w7 m w8 where
    c: "claimed_case ''rejected'' i p w = (Inr c, w1)" and now: "now_utc w1 = (Inr now, w2)"
    and ue: "update_escalation i (decide_case rejected (actor_string p) now
         [(''reason_code'', JStr (rj_reason_code body)), (''notes'', JStr (rj_notes body))]) w2 = (Inr (), w4)"
    and run: "run_get_by_id (esc_workflow_run_id c) w4 = (Inr run, w6)"
    and mv: "(case run of Some r \<Rightarrow> if run_state r \<in> {running, awaiting_human} then update_run (run_workflow_run_id r)
             (close_run failed now (Some ''ESCALATION_REJECTED'') (Some (rj_notes body))) else returnE ()
       | None \<Rightarrow> returnE ()) w6 = (Inr (), w7)"
    and m: "append_audit_event (esc_workflow_run_id c) ''escalation.rejected'' (actor_string p)
       [(''escalation_id'', JStr (uuid_str i)), (''reason_code'', JStr (rj_reason_code body)),
        (''notes'', JStr (rj_notes body))] (Some (esc_step_id c)) None w7 = (Inr m, w8)"
    and me: "w_db w' = w_db w8"
    and res: "er_state res = ''rejected''"
    by (auto simp: reject_escalation_def Let_def escalation_response_def metric_def
        elim!: bindE_InrD split: option.splits)
  note f = claimed_case_ok(1) [OF c] draws_ok(2) [OF now] update_ok(4) [OF ue]
    move_run_ok [OF run mv] append_audit_event_ok [OF m] me
  have "w_db w' = rejected_db i body (actor_string p) c now m (w_db w)"
    using f by (simp add: rejected_db_def)
  then show ?thesis using f(1) f(5) res claimed_case_ok(2) [OF c] by blast
qed

definition created_db ::
  "WorkflowRunCreate \<Rightarrow> WorkflowDefinition \<Rightarrow> string \<Rightarrow> uuid \<Rightarrow> StepModel list \<Rightarrow> uuid \<Rightarrow> AuditEventModel \<Rightarrow> time \<Rightarrow>
   db \<Rightarrow> db" where
  "created_db body def actor rid ms aid m now =
     new_run_db ((fresh_run rid (wc_workflow_name body) (wd_workflow_version def) now (wd_deadline_seconds def) actor)
         \<lparr>run_current_step_id := Some (stp_step_id (hd ms)), run_state := running, run_version := 1\<rparr>)
       now (wc_document_ids body) ms
       (mk_attempt aid (stp_step_id (hd ms)) 1 (Some now) now)
       (mk_outbox rid (stp_step_id (hd ms)) aid
          (api_task_payload rid (hd ms) aid (sd_handler_name (hd (wd_steps def))) (wc_workflow_name body)
            (wd_workflow_version def) (wc_document_ids body)) now now) m"

lemma create_workflow_run_ok:
  assumes "create_workflow_run reg body p w = (Inr res, w')"
  shows "\<exists>def ids ms aid m now rid. lookup_definition reg (wc_workflow_name body) (wc_workflow_version body) = Some def \<and>
    wrr_workflow_run_id res = rid \<and> wrr_state res = ''running'' \<and>
    length ids = length (wd_steps def) \<and> ms = map2 (mk_step rid now) ids (wd_steps def) \<and> ms \<noteq> [] \<and>
    rid \<notin> run_workflow_run_id ` set (workflow_runs (w_db w)) \<and>
    distinct (map stp_step_id ms) \<and> stp_step_id ` set ms \<inter> stp_step_id ` set (steps (w_db w)) = {} \<and>
    (\<forall>s \<in> set ms. 1 \<le> stp_max_attempts s) \<and>
    (stp_step_id (hd ms), 1) \<notin> attempt_key ` set (step_attempts (w_db w)) \<and>
    evt_workflow_run_id m = rid \<and> evt_event_type m = ''workflow_run.started'' \<and> evt_actor m = actor_string p \<and>
    w_db w' = created_db body def (actor_string p) rid ms aid m now (w_db w)"
proof -
  let ?name = "wc_workflow_name body" and ?docs = "wc_document_ids body"
  from assms obtain def now w0 w1 w2 w3 w4 w5 w6 w7 w8 w9 w10 ms s ss m aid rid y x where
    def: "lookup_definition reg ?name (wc_workflow_version body) = Some def"
    and now: "now_utc w = (Inr now, w0)" and rid: "uuid4 w0 = (Inr rid, w1)"
    and run: "insert_run (fresh_run rid ?name (wd_workflow_version def) now (wd_deadline_seconds def) (actor_string p)) w1
        = (Inr (), w2)"
    and ms: "mk_steps rid now (wd_steps def) w2 = (Inr ms, w3)"
    and docs: "forE ?docs (\<lambda>doc. insert_run_document \<lparr>rd_workflow_run_id = rid, rd_document_id = doc,
         rd_attached_at = now\<rparr>) w3 = (Inr (), w4)"
    and many: "step_create_many ms w4 = (Inr y, w5)" and s: "ms = s # ss"
    and aid: "uuid4 w5 = (Inr aid, w6)"
    and att: "insert_attempt (mk_attempt aid (stp_step_id s) 1 (Some now) now) w6 = (Inr (), w7)"
    and u: "update_run rid (\<lambda>r. r\<lparr>run_current_step_id := Some (stp_step_id s), run_state := running,
       run_version := 1\<rparr>) w7 = (Inr (), w8)"
    and ob: "insert_outbox (mk_outbox rid (stp_step_id s) aid (api_task_payload rid s aid
       (sd_handler_name (hd (wd_steps def))) ?name (wd_workflow_version def) ?docs) now now) w8 = (Inr (), w9)"
    and m: "append_audit_event rid ''workflow_run.started'' (actor_string p)
       [(''workflow_name'', JStr ?name), (''workflow_version'', JStr (wd_workflow_version def)),
        (''document_ids'', JArr (map (\<lambda>d. JStr (uuid_str d)) ?docs)),
        (''inputs'', JObj (wc_inputs body))] None None w9 = (Inr m, w10)"
    and me: "metric ''workflow_runs_started_total'' [?name, wd_workflow_version def] w10 = (Inr x, w')"
    and res: "wrr_workflow_run_id res = rid" "wrr_state res = ''running''"
    by (auto simp: create_workflow_run_def Let_def run_response_def fresh_run_def elim!: bindE_InrD
        split: option.splits list.splits)
  from mk_steps_ok [OF ms] obtain ids where ids: "length ids = length (wd_steps def)"
    "ms = map2 (mk_step rid now) ids (wd_steps def)" and w3: "w_db w3 = w_db w2" by auto
  have w2: "w_db w2 = (w_db w)\<lparr>workflow_runs := workflow_runs (w_db w) @
      [fresh_run rid ?name (wd_workflow_version def) now (wd_deadline_seconds def) (actor_string p)]\<rparr>"
    and fresh: "rid \<notin> run_workflow_run_id ` set (workflow_runs (w_db w))"
    using insert_ok(1) [OF run] draws_ok(1) [OF rid] draws_ok(2) [OF now] by (auto simp: fresh_run_def)
  note f = w2 w3 attach_documents_ok [OF docs] step_create_many_ok [OF many] draws_ok(1) [OF aid] insert_ok(4) [OF att]
    update_ok(1) [OF u] insert_ok(5) [OF ob] append_audit_event_ok [OF m] draws_ok(5) [OF me]
  have others: "map_where (\<lambda>r. run_workflow_run_id r = rid) g (workflow_runs (w_db w))
      = workflow_runs (w_db w)" for g
    using fresh by (intro map_where_none) auto
  have "w_db w' = created_db body def (actor_string p) rid ms aid m now (w_db w)"
    unfolding created_db_def new_run_db_def using f s others by (simp add: fresh_run_def)
  moreover have "steps (w_db w4) = steps (w_db w)" using f by simp
  with step_create_many_fresh [OF many] have "distinct (map stp_step_id ms) \<and>
    stp_step_id ` set ms \<inter> stp_step_id ` set (steps (w_db w)) = {} \<and> (\<forall>s \<in> set ms. 1 \<le> stp_max_attempts s)" by simp
  moreover have "(stp_step_id (hd ms), 1) \<notin> attempt_key ` set (step_attempts (w_db w))" "ms \<noteq> []"
    using f s by simp_all
  ultimately show ?thesis
    using def ids fresh append_audit_event_ok [OF m] res
    by (intro exI [of _ def] exI [of _ ids] exI [of _ ms] exI [of _ aid] exI [of _ m] exI [of _ now] exI [of _ rid]) simp
qed

lemma insert_document_ok: "insert_document m w = (Inr u, w') \<Longrightarrow>
    w' = w\<lparr>w_db := (w_db w)\<lparr>documents := documents (w_db w) @ [m]\<rparr>\<rparr>"
  unfolding insert_document_def by (erule checked_cases; simp)

lemma document_create_ok: "document_create m w = (Inr x, w') \<Longrightarrow>
    w' = w\<lparr>w_db := (w_db w)\<lparr>documents := documents (w_db w) @ [m]\<rparr>\<rparr>"
  by (auto simp: document_create_def elim!: bindE_InrD dest!: insert_document_ok)

lemma ingest_document_ok:
  assumes "ingest_document settings content ct p w = (Inr res, w')"
  shows "\<exists>doc ref w1. payload_write (PAYLOAD_STORAGE_PATH settings) (sha256 content) content w1 = (Inr ref, w'\<lparr>w_db := w_db w\<rparr>) \<and>
    w_files w1 = w_files w \<and>
    doc_document_id doc = dir_document_id res \<and> doc_content_hash doc = sha256 content \<and>
    doc_size_bytes doc = int (length content) \<and> doc_payload_ref doc = ref \<and>
    doc_ingested_by doc = actor_string p \<and> dir_content_hash res = bytes_hex (sha256 content) \<and>
    (dir_is_duplicate res \<longleftrightarrow> (\<exists>d \<in> set (documents (w_db w)). doc_content_hash d = sha256 content)) \<and>
    w_db w' = (w_db w)\<lparr>documents := documents (w_db w) @ [doc]\<rparr>"
proof -
  from assms obtain did w0 now w1 ref w2 k x where
    did: "uuid4 w = (Inr did, w0)" and now: "now_utc w0 = (Inr now, w1)"
    and pw: "payload_write (PAYLOAD_STORAGE_PATH settings) (sha256 content) content w1 = (Inr ref, w2)"
    and cr: "document_create
        \<lparr>doc_document_id = did, doc_content_hash = sha256 content,
         doc_content_type = or_default ct ''application/octet-stream'', doc_size_bytes = int (length content),
         doc_payload_ref = ref, doc_ingested_at = now, doc_ingested_by = actor_string p,
         doc_idempotency_key = None, doc_api_key_id = Some k, doc_metadata = []\<rparr> w2 = (Inr x, w')" (is "document_create ?doc _ = _")
    and res: "res = \<lparr>dir_document_id = did, dir_content_hash = bytes_hex (sha256 content),
               dir_size_bytes = int (length content), dir_content_type = or_default ct ''application/octet-stream'',
               dir_ingested_at = now,
               dir_is_duplicate = (length (filter (\<lambda>x. doc_content_hash x = sha256 content) (documents (w_db w2))) > 0)\<rparr>"
    by (auto simp: ingest_document_def Let_def document_get_by_content_hash_def elim!: bindE_InrD split: sum.splits)
  have db: "w_db w2 = w_db w" using payload_db(1) [OF pw] draws_ok(1) [OF did] draws_ok(2) [OF now] by simp
  have w1: "w_files w1 = w_files w" "w_db w1 = w_db w" using did now by (auto simp: uuid4_def now_utc_def)
  have w': "w' = w2\<lparr>w_db := (w_db w)\<lparr>documents := documents (w_db w) @ [?doc]\<rparr>\<rparr>"
    using document_create_ok [OF cr] db by simp
  then have "w'\<lparr>w_db := w_db w\<rparr> = w2" using db by simp
  with pw w1 w' res db show ?thesis
    by (intro exI [of _ ?doc] exI [of _ ref] exI [of _ w1]) (auto simp: filter_empty_conv)
qed

section \<open>Properties of the rows\<close>

text \<open>Only the decision on an escalation writes an attempt, and its step exists.\<close>

lemma create_new_run:
  assumes "create_workflow_run reg body p w = (Inr res, w')"
  obtains rn ms a t now docs m where "w_db w' = new_run_db rn now docs ms a t m (w_db w)"
    "new_run_ok rn ms a t (w_db w)" "run_state rn = running" "run_version rn = 1"
    "evt_workflow_run_id m = run_workflow_run_id rn"
  using create_workflow_run_ok [OF assms]
proof (elim exE conjE)
  fix def ids ms aid m now rid
  assume o: "ms = map2 (mk_step rid now) ids (wd_steps def)" "ms \<noteq> []"
    "distinct (map stp_step_id ms)" "stp_step_id ` set ms \<inter> stp_step_id ` set (steps (w_db w)) = {}"
    "\<forall>s \<in> set ms. 1 \<le> stp_max_attempts s"
    "(stp_step_id (hd ms), 1) \<notin> attempt_key ` set (step_attempts (w_db w))"
    "w_db w' = created_db body def (actor_string p) rid ms aid m now (w_db w)" "evt_workflow_run_id m = rid"
  have "\<forall>s \<in> set ms. stp_workflow_run_id s = rid" by (auto simp: o(1) set_zip mk_step_def)
  with o(2-6,8) show thesis
    by (intro that [OF o(7) [unfolded created_db_def]]) (simp_all add: new_run_ok_def fresh_run_def mk_outbox_def)
qed

lemma session_raised: "session_scope m w = (Inl e, w') \<Longrightarrow> w_db w' = w_db w"
  by (auto simp: session_scope_def split: prod.splits sum.splits)

context change_contract
begin

lemma move_run_keeps:
  assumes "P d" "\<And>r. run_moves r (g r)" "\<And>r. run_current_step_id (g r) = run_current_step_id r"
  shows "P (move_run i q g d)"
  unfolding move_run_def using assms by (intro run_update) (auto simp: run_moves_def)

lemma cancelled_keeps: "P d \<Longrightarrow> P (cancelled_db i v now m d)"
  unfolding cancelled_db_def by (intro event run_update) (auto simp: run_moves_def)

lemma claimed_keeps: "P d \<Longrightarrow> P (claimed_db i actor now m d)"
  unfolding claimed_db_def by (intro event escalation_update) (auto simp: escalation_key_def)

lemma rejected_keeps: "P d \<Longrightarrow> P (rejected_db i body actor c now m d)"
  unfolding rejected_db_def
  by (intro event move_run_keeps escalation_update) (auto simp: run_moves_def close_run_def)

end

context row_contract
begin

lemma resolved_keeps:
  assumes "P d" "esc_step_id c \<in> stp_step_id ` set (steps d)"
  shows "P (resolved_db i body actor c aid now m d)"
proof -
  from assms(2) obtain s where s: "s \<in> set (steps d)" "esc_step_id c = stp_step_id s" by auto
  show ?thesis unfolding resolved_db_def
    by (intro event move_run_keeps any_attempt [of _ s] escalation_update assms(1))
      (use s in \<open>auto simp: run_moves_def human_attempt_def\<close>)
qed

end

text \<open>What a property of the database has to survive to survive every request.\<close>

locale api_contract =
  fixes P :: "db \<Rightarrow> bool"
  assumes cancelled_kept: "P d \<Longrightarrow> evt_workflow_run_id m = i \<Longrightarrow> P (cancelled_db i v now m d)"
    and claimed_kept: "P d \<Longrightarrow> P (claimed_db i actor now m d)"
    and rejected_kept: "P d \<Longrightarrow> may_decide i actor c d \<Longrightarrow> evt_workflow_run_id m = esc_workflow_run_id c \<Longrightarrow>
      P (rejected_db i rj actor c now m d)"
    and resolved_kept: "P d \<Longrightarrow> may_decide i actor c d \<Longrightarrow> evt_workflow_run_id m = esc_workflow_run_id c \<Longrightarrow>
      esc_step_id c \<in> stp_step_id ` set (steps d) \<Longrightarrow> P (resolved_db i rq actor c aid now m d)"
    and created_kept: "P d \<Longrightarrow> new_run_ok rn ms a t d \<Longrightarrow> run_state rn = running \<Longrightarrow> run_version rn = 1 \<Longrightarrow>
      evt_workflow_run_id m = run_workflow_run_id rn \<Longrightarrow> P (new_run_db rn now docs ms a t m d)"
    and docs_kept: "P d \<Longrightarrow> P (d\<lparr>documents := ds\<rparr>)"
    and keys_kept: "P d \<Longrightarrow> P (d\<lparr>api_keys := ks\<rparr>)"
begin

lemma reads_keep:
  "get_document_content settings j w = (Inr a, w') \<Longrightarrow> P (w_db w) \<Longrightarrow> P (w_db w')"
  "get_workflow_run i w2 = (Inr b, w2') \<Longrightarrow> P (w_db w2) \<Longrightarrow> P (w_db w2')"
  "get_workflow_run_events i et c n w2 = (Inr e, w2') \<Longrightarrow> P (w_db w2) \<Longrightarrow> P (w_db w2')"
  "list_escalations parse st wn c n w2 = (Inr f, w2') \<Longrightarrow> P (w_db w2) \<Longrightarrow> P (w_db w2')"
  by (auto simp: get_document_content_def document_get_by_id_def get_workflow_run_def run_get_by_id_def
      get_workflow_run_events_def list_escalations_def Let_def elim!: bindE_InrD dest!: scalar_ok payload_db(2)
      split: option.splits sum.splits list.splits)

lemma api_body_keeps:
  assumes "api_body reg settings parse op p w = (Inr (), w')" "P (w_db w)"
  shows "P (w_db w')"
proof (cases op)
  case (ApiIngest content ct)
  with assms(1) obtain res where "ingest_document settings content ct p w = (Inr res, w')"
    by (auto simp: dropE_def elim!: bindE_InrD)
  from ingest_document_ok [OF this] assms(2) docs_kept show ?thesis by auto
next
  case (ApiCreate body)
  with assms(1) obtain res where "create_workflow_run reg body p w = (Inr res, w')"
    by (auto simp: dropE_def elim!: bindE_InrD)
  then show ?thesis by (rule create_new_run) (use assms(2) created_kept in auto)
next
  case (ApiCancel sync i reason nts)
  with assms(1) obtain res where "cancel_workflow_run sync i reason nts p w = (Inr res, w')"
    by (auto simp: dropE_def elim!: bindE_InrD)
  from cancel_workflow_run_ok [OF this] assms(2) cancelled_kept show ?thesis by auto
next
  case (ApiClaim i)
  with assms(1) obtain res where "claim_escalation i p w = (Inr res, w')"
    by (auto simp: dropE_def elim!: bindE_InrD)
  from claim_escalation_ok [OF this] assms(2) claimed_kept show ?thesis by auto
next
  case (ApiResolve i body)
  with assms(1) obtain res where "resolve_escalation i body p w = (Inr res, w')"
    by (auto simp: dropE_def elim!: bindE_InrD)
  from resolve_escalation_ok [OF this] assms(2) resolved_kept show ?thesis by auto
next
  case (ApiReject i body)
  with assms(1) obtain res where "reject_escalation i body p w = (Inr res, w')"
    by (auto simp: dropE_def elim!: bindE_InrD)
  from reject_escalation_ok [OF this] assms(2) rejected_kept show ?thesis by auto
qed (use assms reads_keep in \<open>auto simp: dropE_def elim!: bindE_InrD\<close>)

lemma exec_api_keeps:
  assumes "exec_api R reg settings parse cred op w = (r, w')" "P (w_db w)"
  shows "P (w_db w')"
proof (cases r)
  case (Inl e)
  with assms show ?thesis by (auto simp: exec_api_def request_def dest!: session_raised)
next
  case (Inr u)
  with assms(1) obtain p w1 where rr: "requires_role R settings (api_roles op) cred w = (Inr p, w1)"
    and b: "api_body reg settings parse op p w1 = (Inr (), w')"
    by (auto simp: exec_api_def request_def session_scope_def split: prod.splits sum.splits elim!: bindE_InrD)
  from rr obtain ks where "w_db w1 = (w_db w)\<lparr>api_keys := ks\<rparr>" by (rule requires_role_ok)
  with keys_kept assms(2) have "P (w_db w1)" by simp
  with b show ?thesis by (rule api_body_keeps)
qed

end

sublocale row_contract \<subseteq> api_contract P
  by unfold_locales (rule cancelled_keeps claimed_keeps rejected_keeps resolved_keeps new_run documents_frame keys_frame; assumption)+

section \<open>Payloads\<close>

text \<open>Every document row names a payload that is there and has the row's hash.\<close>

definition payloads_ok :: "string \<Rightarrow> 'r sysworld \<Rightarrow> bool" where
  "payloads_ok base w \<longleftrightarrow> store_ok base (w_files w) \<and>
     (\<forall>d \<in> set (documents (w_db w)). doc_content_hash d \<noteq> [] \<and>
        doc_payload_ref d = content_hash_to_ref (doc_content_hash d) \<and>
        w_files w (payload_path base (doc_content_hash d)) \<noteq> None)"

text \<open>What the handlers other than \<open>ingest_document\<close> leave alone.\<close>

abbreviation files_docs :: "'r sysworld \<Rightarrow> (string \<Rightarrow> bytes option) \<times> DocumentModel list" where
  "files_docs w \<equiv> (w_files w, documents (w_db w))"

lemma frame_files_docs:
  assumes "\<And>w. w_files (f w) = w_files w" "\<And>w. documents (w_db (f w)) = documents (w_db w)"
  shows "keeps (\<lambda>w. files_docs w = x) (modifyE f)"
  using assms by (auto simp: keeps_def)

lemma checked_files_docs:
  assumes "\<And>d d'. documents (f d d') = documents d'"
  shows "keeps (\<lambda>w. files_docs w = x) (bindE (read_db id) (\<lambda>d. check_constraints (cs d) (f d)))"
  by (rule keepsI, erule checked_cases) (auto simp: assms)

lemma write_files_docs: "(\<And>d. documents (f d) = documents d) \<Longrightarrow> keeps (\<lambda>w. files_docs w = x) (write_db f)"
  by (auto simp: keeps_def)

lemma statements_files_docs [keeps_intros]:
  "keeps (\<lambda>w. files_docs w = x) (insert_run rn)" "keeps (\<lambda>w. files_docs w = x) (insert_run_document rdoc)"
  "keeps (\<lambda>w. files_docs w = x) (insert_step stp)" "keeps (\<lambda>w. files_docs w = x) (insert_attempt att)"
  "keeps (\<lambda>w. files_docs w = x) (insert_outbox obx)" "keeps (\<lambda>w. files_docs w = x) (insert_escalation esc)"
  "keeps (\<lambda>w. files_docs w = x) (insert_audit_event ev)" "keeps (\<lambda>w. files_docs w = x) (update_run i fr)"
  "keeps (\<lambda>w. files_docs w = x) (update_escalation i fe)" "keeps (\<lambda>w. files_docs w = x) (touch_key i t)"
  unfolding insert_run_def insert_run_document_def insert_step_def insert_attempt_def insert_outbox_def
    insert_escalation_def insert_audit_event_def update_run_def update_escalation_def touch_key_def Let_def
  by (rule checked_files_docs write_files_docs; simp)+

lemma draws_files_docs [keeps_intros]:
  "keeps (\<lambda>w. files_docs w = x) uuid4" "keeps (\<lambda>w. files_docs w = x) now_utc"
  "keeps (\<lambda>w. files_docs w = x) urandom10" "keeps (\<lambda>w. files_docs w = x) (metric n l)"
  "keeps (\<lambda>w. files_docs w = x) (redisE m)"
  by (auto simp: keeps_def uuid4_def now_utc_def urandom10_def metric_def redisE_def split: prod.splits)

lemma append_audit_event_files_docs [keeps_intros]:
  "keeps (\<lambda>w. files_docs w = x) (append_audit_event i et actor p s sa)"
  unfolding append_audit_event_def audit_get_latest_for_run_def uuid7_def audit_append_def
  by (intro keeps_intros)

lemma requires_role_files_docs [keeps_intros]:
  "keeps (\<lambda>w. files_docs w = x) (requires_role R settings roles cred)"
  unfolding requires_role_def get_current_principal_def authenticate_api_key_def check_rate_limit_def Let_def
  by (auto intro!: keeps_intros split: exn.split)

lemma repo_reads_files_docs [keeps_intros]:
  "keeps (\<lambda>w. files_docs w = x) (run_get_by_id i)" "keeps (\<lambda>w. files_docs w = x) (escalation_get_by_id i)"
  "keeps (\<lambda>w. files_docs w = x) (document_get_by_id i)" "keeps (\<lambda>w. files_docs w = x) (payload_read base ref)"
  "keeps (\<lambda>w. files_docs w = x) (step_create_many ms)" "keeps (\<lambda>w. files_docs w = x) (mk_steps rid now defs)"
  "keeps (\<lambda>w. files_docs w = x) (run_update_state_optimistic i v st v' kw)"
  unfolding run_get_by_id_def escalation_get_by_id_def document_get_by_id_def payload_read_def step_create_many_def
    mk_steps_def run_update_state_optimistic_def
  by (intro keeps_intros write_files_docs; simp)+

lemma api_files_docs:
  assumes "\<And>c t. op \<noteq> ApiIngest c t"
  shows "keeps (\<lambda>w. files_docs w = x) (api_body reg settings parse op p)"
  using assms
  by (cases op)
    (auto simp: dropE_def get_document_content_def create_workflow_run_def get_workflow_run_def
      get_workflow_run_events_def cancel_workflow_run_def list_escalations_def claim_escalation_def
      resolve_escalation_def reject_escalation_def claimed_case_def Let_def
      intro!: keeps_intros write_files_docs)

lemma payloads_ok_frame: "payloads_ok base w \<Longrightarrow> files_docs w' = files_docs w \<Longrightarrow> payloads_ok base w'"
  by (simp add: payloads_ok_def)

text \<open>The store with the payloads of the hashes \<open>G\<close>; ingesting keeps it whether it returns or raises.\<close>

definition store_has :: "string \<Rightarrow> bytes set \<Rightarrow> (string \<Rightarrow> bytes option) \<Rightarrow> bool" where
  "store_has base G files \<longleftrightarrow> store_ok base files \<and> (\<forall>h \<in> G. h \<noteq> [] \<and> files (payload_path base h) \<noteq> None)"

lemma ingest_store:
  "keeps (\<lambda>w. store_has (PAYLOAD_STORAGE_PATH settings) G (w_files w)) (ingest_document settings content ct p)"
proof -
  let ?I = "\<lambda>w :: 'a sysworld. store_has (PAYLOAD_STORAGE_PATH settings) G (w_files w)"
  have pw: "keeps ?I (payload_write (PAYLOAD_STORAGE_PATH settings) (sha256 content) content)"
    by (rule keepsI) (use payload_write_store payload_write_keeps in \<open>fastforce simp: store_has_def\<close>)
  have ins: "keeps ?I (insert_document doc)" for doc
    unfolding insert_document_def by (rule keepsI, erule checked_cases) auto
  have draw: "keeps ?I uuid4" "keeps ?I now_utc" by (simp_all add: keeps_def uuid4_def now_utc_def)
  show ?thesis
    unfolding ingest_document_def Let_def document_get_by_content_hash_def document_create_def
    by (intro keeps_intros pw ins draw)
qed

lemma payloads_ok_has:
  "payloads_ok base w \<longleftrightarrow> store_has base (doc_content_hash ` set (documents (w_db w))) (w_files w) \<and>
     (\<forall>d \<in> set (documents (w_db w)). doc_payload_ref d = content_hash_to_ref (doc_content_hash d))"
  by (auto simp: payloads_ok_def store_has_def)

lemma ingest_payloads:
  assumes run: "ingest_document settings content ct p w = (Inr res, w')"
    and ok: "payloads_ok (PAYLOAD_STORAGE_PATH settings) w"
  shows "payloads_ok (PAYLOAD_STORAGE_PATH settings) w'"
proof -
  let ?base = "PAYLOAD_STORAGE_PATH settings"
  from ok have "store_has ?base (doc_content_hash ` set (documents (w_db w))) (w_files w)"
    by (simp add: payloads_ok_has)
  from keepsD [OF ingest_store this run] have has: "store_has ?base (doc_content_hash ` set (documents (w_db w))) (w_files w')" .
  from ingest_document_ok [OF run] obtain doc ref w1 where
    pw: "payload_write ?base (sha256 content) content w1 = (Inr ref, w'\<lparr>w_db := w_db w\<rparr>)"
    and doc: "doc_content_hash doc = sha256 content" "doc_payload_ref doc = ref"
    and db: "w_db w' = (w_db w)\<lparr>documents := documents (w_db w) @ [doc]\<rparr>" by blast
  from pw refl have "ref = content_hash_to_ref (sha256 content) \<and> w_files w' (payload_path ?base (sha256 content)) = Some content"
    by (rule payload_write_cases) auto
  with has doc db ok show ?thesis by (simp add: payloads_ok_has store_has_def)
qed

lemma exec_api_payloads: "keeps (payloads_ok (PAYLOAD_STORAGE_PATH settings)) (exec_api R reg settings parse cred op)"
proof (rule keepsI)
  let ?base = "PAYLOAD_STORAGE_PATH settings"
  fix w :: "'a sysworld" and r w'
  assume ok: "payloads_ok ?base w" and run: "exec_api R reg settings parse cred op w = (r, w')"
  let ?body = "bindE (requires_role R settings (api_roles op) cred) (api_body reg settings parse op)"
  obtain r1 w1 where b: "?body w = (r1, w1)" by (cases "?body w")
  have w': "w' = (case r1 of Inl e \<Rightarrow> w1\<lparr>w_db := w_db w\<rparr> | Inr _ \<Rightarrow> w1)"
    using run b by (auto simp: exec_api_def request_def session_scope_def split: sum.splits)
  show "payloads_ok ?base w'"
  proof (cases "\<exists>c t. op = ApiIngest c t")
    case False
    then have "keeps (\<lambda>v. files_docs v = files_docs w) ?body"
      by (intro keeps_bindE requires_role_files_docs api_files_docs) auto
    from keepsD [OF this refl b] ok w' show ?thesis
      by (auto simp: payloads_ok_def split: sum.splits)
  next
    case True
    then obtain c t where op: "op = ApiIngest c t" by blast
    obtain r0 w0 where rr: "requires_role R settings (api_roles op) cred w = (r0, w0)"
      by (cases "requires_role R settings (api_roles op) cred w")
    from keepsD [OF requires_role_files_docs refl rr] have f: "files_docs w0 = files_docs w" .
    show ?thesis
    proof (cases r0)
      case (Inl e)
      with b rr w' f ok show ?thesis by (auto simp: payloads_ok_def)
    next
      case (Inr p)
      let ?ing = "ingest_document settings c t p"
      obtain r2 w2 where i: "?ing w0 = (r2, w2)" by (cases "?ing w0")
      have ok0: "payloads_ok ?base w0" using payloads_ok_frame [OF ok f] .
      show ?thesis
      proof (cases r2)
        case (Inr res)
        with b rr \<open>r0 = Inr p\<close> i op w' have "w' = w2" by (auto simp: dropE_def)
        with ingest_payloads ok0 i Inr show ?thesis by blast
      next
        case (Inl e)
        with b rr \<open>r0 = Inr p\<close> i op w' have w2: "w' = w2\<lparr>w_db := w_db w\<rparr>" by (auto simp: dropE_def)
        from ok0 have "store_has ?base (doc_content_hash ` set (documents (w_db w0))) (w_files w0)"
          by (simp add: payloads_ok_has)
        from keepsD [OF ingest_store this i] f ok w2 show ?thesis by (simp add: payloads_ok_has)
      qed
    qed
  qed
qed

text \<open>Reading a document returns bytes of the row's hash.\<close>

lemma get_document_content_run:
  assumes wf: "world_wf w" and ok: "payloads_ok (PAYLOAD_STORAGE_PATH settings) w"
    and d: "d \<in> set (documents (w_db w))"
  shows "\<exists>b. get_document_content settings (doc_document_id d) w = (Inr (b, doc_content_type d), w) \<and>
    sha256 b = doc_content_hash d \<and>
    w_files w (payload_path (PAYLOAD_STORAGE_PATH settings) (doc_content_hash d)) = Some b"
proof -
  have "filter (\<lambda>x. doc_document_id x = doc_document_id d) (documents (w_db w)) = [d]"
    using wf d by (intro filter_eq_distinct_key) (simp_all add: db_wf_defs)
  moreover obtain b where b: "w_files w (payload_path (PAYLOAD_STORAGE_PATH settings) (doc_content_hash d)) = Some b"
    using ok d by (auto simp: payloads_ok_def)
  moreover have "sha256 b = doc_content_hash d"
    using ok d b by (auto simp: payloads_ok_def store_ok_def)
  moreover have "doc_payload_ref d = content_hash_to_ref (doc_content_hash d)"
    using ok d by (simp add: payloads_ok_def)
  ultimately show ?thesis
    by (simp add: get_document_content_def document_get_by_id_def scalar_one_or_none_def payload_read_def)
qed

section \<open>Pages of events\<close>

text \<open>
  A client that follows \<open>next_cursor\<close> until there is none; \<open>None\<close> when the given number of
  requests was not enough.
\<close>

fun walk_events :: "nat \<Rightarrow> uuid \<Rightarrow> nat \<Rightarrow> string option \<Rightarrow> ('z, AuditEventResponse list option) wexec" where
  "walk_events 0 i limit cursor = returnE None"
| "walk_events (Suc k) i limit cursor =
     bindE (get_workflow_run_events i None cursor limit) (\<lambda>page.
     case wer_next_cursor page of
       None \<Rightarrow> returnE (Some (wer_events page))
     | Some c \<Rightarrow> bindE (walk_events k i limit (Some c)) (\<lambda>rest.
         returnE (map_option ((@) (wer_events page)) rest)))"

lemma chain_filter_after:
  assumes "chain_ok fr es" "k \<le> length es"
  shows "filter (\<lambda>e. int k < evt_seq_in_run e) es = drop k es"
proof -
  have "filter (\<lambda>e. int k < evt_seq_in_run e) (take k es) = []"
    using chain_seq_nth [OF assms(1)] by (force simp: filter_empty_conv in_set_conv_nth)
  moreover have "filter (\<lambda>e. int k < evt_seq_in_run e) (drop k es) = drop k es"
    using chain_seq_nth [OF assms(1)] by (force simp: filter_id_conv in_set_conv_nth)
  ultimately show ?thesis by (metis append_Nil append_take_drop_id filter_append)
qed

lemma select_events_after:
  assumes "chain_ok fr (events_of_run i d)" "k \<le> length (events_of_run i d)"
  shows "select_events i None (Some (int k)) d = drop k (events_of_run i d)"
    and "select_events i None None d = events_of_run i d"
proof -
  have s: "sorted (map evt_seq_in_run (events_of_run i d))"
    using chain_seq_sorted [OF assms(1)] by (simp add: strict_sorted_imp_sorted)
  then have "sorted (map evt_seq_in_run (drop k (events_of_run i d)))"
    by (simp add: drop_map [symmetric] sorted_wrt_drop)
  then show "select_events i None (Some (int k)) d = drop k (events_of_run i d)"
    using chain_filter_after [OF assms] by (simp add: select_events_def sorted_sort_id sort_key_id_if_sorted)
  from s show "select_events i None None d = events_of_run i d"
    by (simp add: select_events_def sort_key_id_if_sorted)
qed

text \<open>A page that starts after event \<open>k\<close>.\<close>

lemma events_page:
  assumes run: "run_get_by_id i w = (Inr (Some r), w)" and c: "cursor_filter cur = Inr after"
    and sel: "select_events i None after (w_db w) = drop k es" and lim: "1 \<le> limit"
    and seq: "\<And>j. j < length es \<Longrightarrow> evt_seq_in_run (es ! j) = int (Suc j)"
  shows "get_workflow_run_events i None cur limit w =
    (Inr \<lparr>wer_events = map event_response (take limit (drop k es)),
          wer_next_cursor = (if length es - k > limit then Some (int_str (int (k + limit))) else None)\<rparr>, w)"
proof -
  let ?rows = "take (limit + 1) (drop k es)"
  have n: "length ?rows > limit \<longleftrightarrow> length es - k > limit" by auto
  have t: "(if length ?rows > limit then take limit ?rows else ?rows) = take limit (drop k es)"
    by (auto simp: min_def)
  have l: "evt_seq_in_run (last (take limit (drop k es))) = int (k + limit)" if "length es - k > limit"
  proof -
    have "take limit (drop k es) \<noteq> []" using that lim by auto
    then have "last (take limit (drop k es)) = es ! (k + limit - 1)"
      using that lim by (simp add: last_conv_nth min_def)
    with seq [of "k + limit - 1"] that lim show ?thesis by simp
  qed
  have e: "length es - k > limit \<Longrightarrow> take limit (drop k es) \<noteq> []" using lim by auto
  show ?thesis
    using run c sel l e n t by (auto simp: get_workflow_run_events_def Let_def)
qed

lemma walk_events_from:
  assumes run: "run_get_by_id i w = (Inr (Some r), w)" and ok: "chain_ok fr (events_of_run i (w_db w))"
    and lim: "1 \<le> limit" and big: "length (events_of_run i (w_db w)) < 2 ^ 62"
  shows "length (events_of_run i (w_db w)) - k < n \<Longrightarrow> k \<le> length (events_of_run i (w_db w)) \<Longrightarrow>
    cursor_filter cur = Inr after \<Longrightarrow> select_events i None after (w_db w) = drop k (events_of_run i (w_db w)) \<Longrightarrow>
    walk_events n i limit cur w = (Inr (Some (map event_response (drop k (events_of_run i (w_db w))))), w)"
proof (induction n arbitrary: k cur after)
  case (Suc n)
  let ?es = "events_of_run i (w_db w)"
  note page = events_page [OF run Suc.prems(3,4) lim chain_seq_nth [OF ok]]
  show ?case
  proof (cases "length ?es - k > limit")
    case False
    then show ?thesis using page by simp
  next
    case True
    let ?c = "int_str (int (k + limit))"
    have b: "int (k + limit) < 2 ^ 62" 
    proof -
      have "k + limit < 2 ^ 62" using True big by linarith
      then have "int (k + limit) < int (2 ^ 62)" by (simp only: of_nat_less_iff)
      then show ?thesis by simp
    qed
    have p: "int_parse ?c = Some (int (k + limit))" using b by (intro int_parse_str) auto
    have ne: "?c \<noteq> []" using nat_str_digits [of "int (k + limit)"] by (simp add: int_str_def)
    have cf: "cursor_filter (Some ?c) = Inr (Some (int (k + limit)))"
      using p ne b by (cases ?c) (auto simp: cursor_filter_def)
    have "k + limit \<le> length ?es" using True by simp
    from Suc.IH [OF _ this cf select_events_after(1) [OF ok this]] True Suc.prems(1) lim
    have "walk_events n i limit (Some ?c) w = (Inr (Some (map event_response (drop (k + limit) ?es))), w)" by simp
    then show ?thesis using page True
      by (simp add: map_append [symmetric] add.commute [of k] drop_drop [symmetric] del: map_append drop_drop)
  qed
qed simp

end
