(* ===== verification/Py_Regex.thy ===== *)
theory Py_Regex
  imports Json
begin

text \<open>
  The part of Python's \<open>re\<close> that the program uses, as a backtracking matcher: \<open>runs r s i\<close> lists
  the ways in which \<open>r\<close> matches \<open>s\<close> from position \<open>i\<close>, as pairs of the end position and the groups
  captured, in the order in which the engine tries them, so that its head is the match that
  \<open>re\<close> finds. Only classes of characters are ever repeated in the program's patterns.
\<close>

type_synonym captures = "(nat \<times> nat \<times> nat) list"

datatype re =
    Eps
  | Cls "char \<Rightarrow> bool"                      \<comment> \<open>one character of a class\<close>
  | Rep nat "nat option" "char \<Rightarrow> bool"     \<comment> \<open>greedy \<open>C{m,n}\<close>\<close>
  | Lazy "char \<Rightarrow> bool"                     \<comment> \<open>\<open>C*?\<close>\<close>
  | Cat re re
  | Alt re re
  | Grp nat re                               \<comment> \<open>a numbered group\<close>
  | At "string \<Rightarrow> nat \<Rightarrow> bool"               \<comment> \<open>a position: anchors and boundaries\<close>
  | Look re                                  \<comment> \<open>\<open>(?=...)\<close>\<close>

definition reach :: "(char \<Rightarrow> bool) \<Rightarrow> string \<Rightarrow> nat \<Rightarrow> nat" where
  "reach p s i = length (takeWhile p (drop i s))"

primrec runs :: "re \<Rightarrow> string \<Rightarrow> nat \<Rightarrow> (nat \<times> captures) list" where
  "runs Eps s i = [(i, [])]"
| "runs (Cls p) s i = (if i < length s \<and> p (s ! i) then [(Suc i, [])] else [])"
| "runs (Rep m n p) s i =
     (let most = (case n of None \<Rightarrow> reach p s i | Some k \<Rightarrow> min k (reach p s i))
      in map (\<lambda>j. (i + j, [])) (rev [m..<Suc most]))"
| "runs (Lazy p) s i = map (\<lambda>j. (i + j, [])) [0..<Suc (reach p s i)]"
| "runs (Cat a b) s i =
     concat (map (\<lambda>(j, c). map (\<lambda>(k, d). (k, c @ d)) (runs b s j)) (runs a s i))"
| "runs (Alt a b) s i = runs a s i @ runs b s i"
| "runs (Grp g a) s i = map (\<lambda>(j, c). (j, c @ [(g, i, j)])) (runs a s i)"
| "runs (At f) s i = (if f s i then [(i, [])] else [])"
| "runs (Look a) s i = (if runs a s i = [] then [] else [(i, [])])"

section \<open>Matching and searching\<close>

record re_Match =
  m_start :: nat
  m_end :: nat
  m_caps :: captures

text \<open>\<open>p.match(s)\<close>, \<open>p.search(s)\<close> from a position, and \<open>p.finditer(s)\<close> for a pattern that consumes.\<close>

definition re_match :: "re \<Rightarrow> string \<Rightarrow> re_Match option" where
  "re_match r s = (case runs r s 0 of
     [] \<Rightarrow> None | (j, c) # _ \<Rightarrow> Some \<lparr>m_start = 0, m_end = j, m_caps = c\<rparr>)"

definition re_search :: "re \<Rightarrow> string \<Rightarrow> nat \<Rightarrow> re_Match option" where
  "re_search r s i = (case find (\<lambda>k. runs r s k \<noteq> []) [i..<Suc (length s)] of
     None \<Rightarrow> None
   | Some k \<Rightarrow> (case hd (runs r s k) of (j, c) \<Rightarrow> Some \<lparr>m_start = k, m_end = j, m_caps = c\<rparr>))"

lemma find_upt: "find P [i..<n] = Some k \<Longrightarrow> i \<le> k \<and> k < n \<and> P k"
  by (induction n) (auto simp: find_Some_iff nth_append split: if_splits)

lemma re_searchE:
  assumes "re_search r s i = Some m"
  shows "i \<le> m_start m" "m_start m \<le> length s" "runs r s (m_start m) \<noteq> []"
    "hd (runs r s (m_start m)) = (m_end m, m_caps m)"
proof -
  from assms obtain k where k: "find (\<lambda>k. runs r s k \<noteq> []) [i..<Suc (length s)] = Some k"
    and m: "m = (case hd (runs r s k) of (j, c) \<Rightarrow> \<lparr>m_start = k, m_end = j, m_caps = c\<rparr>)"
    by (auto simp: re_search_def split: option.splits prod.splits)
  from m have "m_start m = k" "hd (runs r s k) = (m_end m, m_caps m)" by (simp_all split: prod.splits)
  with find_upt [OF k] show "i \<le> m_start m" "m_start m \<le> length s" "runs r s (m_start m) \<noteq> []"
    "hd (runs r s (m_start m)) = (m_end m, m_caps m)" by simp_all
qed

function re_finditer :: "re \<Rightarrow> string \<Rightarrow> nat \<Rightarrow> re_Match list" where
  "re_finditer r s i = (case re_search r s i of
     None \<Rightarrow> []
   | Some m \<Rightarrow> m # re_finditer r s (max (m_end m) (Suc (m_start m))))"
  by pat_completeness auto
termination
proof (relation "measure (\<lambda>(r, s, i). Suc (length s) - i)", simp)
  fix r s i m
  assume "re_search r s i = Some m"
  then show "((r, s, max (m_end m) (Suc (m_start m))), r, s, i) \<in> measure (\<lambda>(r, s, i). Suc (length s) - i)"
    using re_searchE(1,2) [of r s i m] by (auto simp: max_def)
qed

declare re_finditer.simps [simp del]

text \<open>\<open>m.group(k)\<close>, \<open>m.start(k)\<close> and \<open>m.end(k)\<close>; the text of a slice.\<close>

definition py_slice :: "string \<Rightarrow> nat \<Rightarrow> nat \<Rightarrow> string" where
  "py_slice s i j = take (j - i) (drop i s)"

definition m_span :: "re_Match \<Rightarrow> nat \<Rightarrow> (nat \<times> nat) option" where
  "m_span m k = map_of (m_caps m) k"

definition m_text :: "string \<Rightarrow> re_Match \<Rightarrow> string" where
  "m_text s m = py_slice s (m_start m) (m_end m)"

section \<open>Classes of characters\<close>

text \<open>\<open>\d\<close>, \<open>\s\<close>, \<open>\w\<close> of a \<open>str\<close> pattern, on the code points up to U+00FF, and \<open>.\<close>\<close>

definition c_digit :: "char \<Rightarrow> bool" where
  "c_digit c \<longleftrightarrow> (let n = of_char c :: nat in 48 \<le> n \<and> n \<le> 57)"

definition c_upper :: "char \<Rightarrow> bool" where
  "c_upper c \<longleftrightarrow> (let n = of_char c :: nat in 65 \<le> n \<and> n \<le> 90)"

definition c_letter :: "char \<Rightarrow> bool" where
  "c_letter c \<longleftrightarrow> (let n = of_char c :: nat in (65 \<le> n \<and> n \<le> 90) \<or> (97 \<le> n \<and> n \<le> 122))"

definition c_word :: "char \<Rightarrow> bool" where
  "c_word c \<longleftrightarrow> c_digit c \<or> c_letter c \<or> (let n = of_char c :: nat
     in n = 95 \<or> n \<in> {170, 178, 179, 181, 185, 186, 188, 189, 190} \<or> (192 \<le> n \<and> n \<noteq> 215 \<and> n \<noteq> 247))"

definition c_dot :: "char \<Rightarrow> bool" where
  "c_dot c \<longleftrightarrow> c \<noteq> CHR 0x0A"

abbreviation c_any :: "char \<Rightarrow> bool" where
  "c_any \<equiv> \<lambda>_. True"

text \<open>A literal, and a literal under \<open>re.IGNORECASE\<close>.\<close>

definition c_same :: "char \<Rightarrow> char \<Rightarrow> bool" where
  "c_same c d \<longleftrightarrow> char_lower c = char_lower d"

fun lit :: "string \<Rightarrow> re" where
  "lit [] = Eps"
| "lit [c] = Cls (\<lambda>d. d = c)"
| "lit (c # cs) = Cat (Cls (\<lambda>d. d = c)) (lit cs)"

fun lit_i :: "string \<Rightarrow> re" where
  "lit_i [] = Eps"
| "lit_i [c] = Cls (c_same c)"
| "lit_i (c # cs) = Cat (Cls (c_same c)) (lit_i cs)"

fun seq :: "re list \<Rightarrow> re" where
  "seq [] = Eps"
| "seq [r] = r"
| "seq (r # rs) = Cat r (seq rs)"

fun alts :: "re list \<Rightarrow> re" where
  "alts [] = At (\<lambda>_ _. False)"
| "alts [r] = r"
| "alts (r # rs) = Alt r (alts rs)"

abbreviation opt :: "re \<Rightarrow> re" where
  "opt r \<equiv> Alt r Eps"

text \<open>\<open>$\<close>, \<open>\Z\<close>, \<open>^\<close> under \<open>re.MULTILINE\<close> and \<open>\b\<close>.\<close>

definition at_dollar :: "string \<Rightarrow> nat \<Rightarrow> bool" where
  "at_dollar s i \<longleftrightarrow> i = length s \<or> (Suc i = length s \<and> s ! i = CHR 0x0A)"

definition at_end :: "string \<Rightarrow> nat \<Rightarrow> bool" where
  "at_end s i \<longleftrightarrow> i = length s"

definition at_line :: "string \<Rightarrow> nat \<Rightarrow> bool" where
  "at_line s i \<longleftrightarrow> i = 0 \<or> s ! (i - 1) = CHR 0x0A"

definition at_boundary :: "string \<Rightarrow> nat \<Rightarrow> bool" where
  "at_boundary s i \<longleftrightarrow> (0 < i \<and> c_word (s ! (i - 1))) \<noteq> (i < length s \<and> c_word (s ! i))"

section \<open>Where a pattern may end\<close>

definition ends :: "re \<Rightarrow> string \<Rightarrow> nat \<Rightarrow> nat set" where
  "ends r s i = fst ` set (runs r s i)"

lemma reach_le: "i \<le> length s \<Longrightarrow> i + reach p s i \<le> length s"
  using length_takeWhile_le [of p "drop i s"] by (simp add: reach_def)

lemma le_reach_iff: "i \<le> length s \<Longrightarrow> j \<le> reach p s i \<longleftrightarrow> i + j \<le> length s \<and> (\<forall>k < j. p (s ! (i + k)))"
proof
  assume i: "i \<le> length s" and j: "j \<le> reach p s i"
  have "p (s ! (i + k))" if "k < j" for k
    using that j i nth_mem [of k "takeWhile p (drop i s)"] takeWhile_nth [of k p "drop i s"] reach_le [OF i, of p]
    by (auto simp: reach_def dest: set_takeWhileD)
  with i j reach_le [OF i, of p] show "i + j \<le> length s \<and> (\<forall>k < j. p (s ! (i + k)))" by auto
next
  assume i: "i \<le> length s" and j: "i + j \<le> length s \<and> (\<forall>k < j. p (s ! (i + k)))"
  show "j \<le> reach p s i"
  proof (rule ccontr)
    assume "\<not> j \<le> reach p s i"
    then have r: "reach p s i < length (drop i s)" "reach p s i < j" using j by auto
    then have "\<not> p (drop i s ! reach p s i)" unfolding reach_def by (intro nth_length_takeWhile)
    with r j show False by auto
  qed
qed

lemma runs_bounds:
  "i \<le> length s \<Longrightarrow> (j, c) \<in> set (runs r s i) \<Longrightarrow>
     i \<le> j \<and> j \<le> length s \<and> (\<forall>(g, a, b) \<in> set c. i \<le> a \<and> a \<le> b \<and> b \<le> j)"
proof (induction r arbitrary: i j c)
  case (Cls p)
  then show ?case by (simp split: if_splits)
next
  case (Rep m n p)
  then show ?case using reach_le [of i s p] by (auto simp: Let_def split: option.splits)
next
  case (Lazy p)
  then show ?case using reach_le [of i s p] by (auto simp del: upt_Suc)
next
  case (Cat a b)
  from Cat.prems(2) obtain k d d' where a: "(k, d) \<in> set (runs a s i)" and b: "(j, d') \<in> set (runs b s k)" and c: "c = d @ d'"
    by auto
  have 1: "i \<le> k \<and> k \<le> length s \<and> (\<forall>(g, a, b) \<in> set d. i \<le> a \<and> a \<le> b \<and> b \<le> k)"
    by (rule Cat.IH(1) [OF Cat.prems(1) a])
  then have 2: "k \<le> j \<and> j \<le> length s \<and> (\<forall>(g, a, b) \<in> set d'. k \<le> a \<and> a \<le> b \<and> b \<le> j)"
    by (intro Cat.IH(2) [OF _ b]) simp
  from 1 2 show ?case unfolding c by auto
next
  case (Alt a b)
  from Alt.prems(2) have "(j, c) \<in> set (runs a s i) \<or> (j, c) \<in> set (runs b s i)" by simp
  with Alt.IH Alt.prems(1) show ?case by blast
next
  case (Grp g a)
  from Grp.prems(2) obtain d where a: "(j, d) \<in> set (runs a s i)" and c: "c = d @ [(g, i, j)]" by auto
  from Grp.IH [OF Grp.prems(1) a] show ?case unfolding c by auto
next
  case (Look a)
  from Look.prems show ?case by (simp split: if_splits)
qed (simp_all split: if_splits)

lemma re_search_bounds:
  assumes "re_search r s i = Some m"
  shows "i \<le> m_start m \<and> m_start m \<le> m_end m \<and> m_end m \<le> length s"
    and "m_span m g = Some (a, b) \<Longrightarrow> m_start m \<le> a \<and> a \<le> b \<and> b \<le> m_end m"
proof -
  have "(m_end m, m_caps m) \<in> set (runs r s (m_start m))"
    using re_searchE(3,4) [OF assms] hd_in_set by fastforce
  from runs_bounds [OF re_searchE(2) [OF assms] this] re_searchE(1) [OF assms]
  show "i \<le> m_start m \<and> m_start m \<le> m_end m \<and> m_end m \<le> length s"
    "m_span m g = Some (a, b) \<Longrightarrow> m_start m \<le> a \<and> a \<le> b \<and> b \<le> m_end m"
    by (auto simp: m_span_def dest!: map_of_SomeD)
qed

lemma ends_simps [simp]:
  "ends Eps s i = {i}"
  "ends (Cls p) s i = (if i < length s \<and> p (s ! i) then {Suc i} else {})"
  "ends (Alt a b) s i = ends a s i \<union> ends b s i"
  "ends (Grp g a) s i = ends a s i"
  "ends (At f) s i = (if f s i then {i} else {})"
  "ends (Look a) s i = (if ends a s i = {} then {} else {i})"
  by (simp_all add: ends_def image_Un image_image case_prod_beta)

lemma ends_Cat [simp]: "ends (Cat a b) s i = (\<Union>j \<in> ends a s i. ends b s j)"
  by (simp add: ends_def image_UN image_image case_prod_beta)

lemma ends_Rep: "i \<le> length s \<Longrightarrow> ends (Rep m n p) s i =
    {i + j | j. m \<le> j \<and> (case n of None \<Rightarrow> True | Some k \<Rightarrow> j \<le> k) \<and> i + j \<le> length s \<and> (\<forall>k < j. p (s ! (i + k)))}"
  by (auto simp: ends_def Let_def image_iff less_Suc_eq_le le_reach_iff [symmetric] split: option.splits)

lemma re_match_iff: "re_match r s \<noteq> None \<longleftrightarrow> ends r s 0 \<noteq> {}"
  by (auto simp: re_match_def ends_def split: list.splits)

lemma re_search_iff: "re_search r s i = None \<longleftrightarrow> (\<forall>k. i \<le> k \<longrightarrow> k \<le> length s \<longrightarrow> ends r s k = {})"
proof -
  have "re_search r s i = None \<longleftrightarrow> find (\<lambda>k. runs r s k \<noteq> []) [i..<Suc (length s)] = None"
    by (simp add: re_search_def del: upt_Suc split: option.splits prod.splits)
  then show ?thesis by (auto simp: ends_def find_None_iff less_Suc_eq_le simp del: upt_Suc)
qed

end
