(* ===== verification/Workers.thy ===== *)
theory Workers
  imports Orchestrator_Contract Security
begin

text \<open>
  \<open>src/insuranceops/workers\<close>: one iteration of each background loop. The outbox relay moves
  committed tasks to Redis, the scheduler promotes delayed tasks, the reaper returns stuck ones,
  and the worker claims a task, runs its step's handler and records the outcome. What is not
  part of the program is an argument: \<open>acquired\<close>, the database's answer to
  \<open>pg_try_advisory_lock\<close>; \<open>loads\<close> and \<open>to_float\<close>, the parsers \<open>json.loads\<close> and \<open>float\<close>;
  \<open>text_param\<close>, what the database driver makes of a value bound to a text column; and the
  handlers of the steps, which are modelled on their own.
\<close>

section \<open>Python values\<close>

text \<open>\<open>repr(v)\<close> and \<open>str(v)\<close>, which differ on strings only.\<close>

definition repr_char :: "char \<Rightarrow> char \<Rightarrow> string" where
  "repr_char q c =
     (let n = of_char c :: int; bs = CHR 0x5C in
      if c = q \<or> c = bs then [bs, c]
      else if n = 9 then [bs, CHR ''t''] else if n = 10 then [bs, CHR ''n''] else if n = 13 then [bs, CHR ''r'']
      else if n < 32 \<or> (127 \<le> n \<and> n \<le> 160) \<or> n = 173 then [bs, CHR ''x''] @ hex_pad 2 n
      else [c])"

definition repr_str :: "string \<Rightarrow> string" where
  "repr_str s =
     (let q = if CHR 0x27 \<in> set s \<and> CHR 0x22 \<notin> set s then CHR 0x22 else CHR 0x27
      in [q] @ concat (map (repr_char q) s) @ [q])"

primrec py_repr :: "(rat \<Rightarrow> string) \<Rightarrow> json \<Rightarrow> string" where
  "py_repr fr JNull = ''None''"
| "py_repr fr (JBool b) = (if b then ''True'' else ''False'')"
| "py_repr fr (JInt n) = int_str n"
| "py_repr fr (JFloat x) = fr x"
| "py_repr fr (JStr s) = repr_str s"
| "py_repr fr (JArr vs) = ''['' @ py_join '', '' (map (py_repr fr) vs) @ '']''"
| "py_repr fr (JObj d) = ''{'' @ py_join '', ''
     (map (\<lambda>(k, t). repr_str k @ '': '' @ t) (map (map_prod id (py_repr fr)) d)) @ ''}''"

fun py_str :: "(rat \<Rightarrow> string) \<Rightarrow> json \<Rightarrow> string" where
  "py_str fr (JStr s) = s"
| "py_str fr v = py_repr fr v"

fun truthy :: "json \<Rightarrow> bool" where
  "truthy JNull = False"
| "truthy (JBool b) = b"
| "truthy (JInt n) = (n \<noteq> 0)"
| "truthy (JFloat x) = (x \<noteq> 0)"
| "truthy (JStr s) = (s \<noteq> [])"
| "truthy (JArr xs) = (xs \<noteq> [])"
| "truthy (JObj d) = (d \<noteq> [])"

text \<open>\<open>str(e)\<close> of the exceptions that carry a message of the program's own.\<close>

fun exn_str :: "exn \<Rightarrow> string" where
  "exn_str (ValueError s) = s"
| "exn_str (KeyError s) = [CHR 0x27] @ s @ [CHR 0x27]"
| "exn_str (TypeError s) = s"
| "exn_str (AttributeError s) = s"
| "exn_str (FileNotFoundError s) = s"
| "exn_str (OSError s) = s"
| "exn_str (IntegrityError s) = s"
| "exn_str (DataError s) = s"
| "exn_str (RedisError s) = s"
| "exn_str _ = []"

definition is_value_error :: "exn \<Rightarrow> bool" where
  "is_value_error e = (case e of ValueError _ \<Rightarrow> True | UnicodeDecodeError \<Rightarrow> True | _ \<Rightarrow> False)"

text \<open>\<open>payload.get\<close> on what \<open>json.loads\<close> returned.\<close>

definition as_dict :: "json \<Rightarrow> ('w, dict) exec" where
  "as_dict v = (case v of JObj d \<Rightarrow> returnE d | _ \<Rightarrow> raiseE (AttributeError ''get''))"

section \<open>The outbox relay\<close>

definition relay_payload :: "(rat \<Rightarrow> string) \<Rightarrow> dict \<Rightarrow> time \<Rightarrow> dict" where
  "relay_payload fr payload t = dict_set payload ''claimed_at'' (JStr (fr (of_int t / 1000000)))"

definition relay_entry :: "'r redis_api \<Rightarrow> time \<Rightarrow> TasksOutboxModel \<Rightarrow> int \<Rightarrow> ('r, int) sexec" where
  "relay_entry R now entry relayed =
     catchE
       (bindE (readE w_float_repr) (\<lambda>fr.
        bindE now_utc (\<lambda>t.
        let payload = relay_payload fr (obx_payload entry) t in
        bindE (if obx_scheduled_for entry \<le> now then enqueue R payload
               else schedule R payload (obx_scheduled_for entry)) (\<lambda>_.
        bindE (outbox_mark_enqueued (obx_outbox_id entry) now) (\<lambda>_.
        bindE (metric ''outbox_drain_lag_seconds'' []) (\<lambda>_.
        bindE (metric ''queue_tasks_enqueued_total''
          [py_str fr (dict_get_or payload ''workflow_name'' (JStr ''unknown'')),
           py_str fr (dict_get_or payload ''step_name'' (JStr ''unknown''))]) (\<lambda>_.
        returnE (relayed + 1))))))))
       (\<lambda>e. bindE (outbox_increment_attempts (obx_outbox_id entry) (exn_str e)) (\<lambda>_. returnE relayed))"

definition relay_batch :: "'r redis_api \<Rightarrow> bool \<Rightarrow> ('r, int) sexec" where
  "relay_batch R acquired =
     (if \<not> acquired then returnE 0
      else bindE (session_scope
        (bindE now_utc (\<lambda>now.
         bindE (outbox_get_pending 100 None) (\<lambda>pending.
         foldE pending (relay_entry R now) 0)))) (\<lambda>relayed.
      bindE (if relayed > 0 then metric ''outbox_drain_batch_seconds'' [] else returnE ()) (\<lambda>_.
      returnE relayed)))"

section \<open>The scheduler\<close>

definition scheduler_cycle :: "'r redis_api \<Rightarrow> bool \<Rightarrow> ('r, int) sexec" where
  "scheduler_cycle R acquired =
     (if acquired then bindE now_utc (\<lambda>now. mature_tasks R now 200) else returnE 0)"

text \<open>Each loop runs its cycle inside \<open>try: ... except Exception\<close>.\<close>

definition guarded :: "('w, int) exec \<Rightarrow> ('w, int) exec" where
  "guarded m = catchE m (\<lambda>_. returnE 0)"

text \<open>
  A background loop runs its cycle once per turn until the shutdown event is set, here after
  \<open>n\<close> turns; \<open>acquired\<close> tells for each turn whether the advisory lock was free.
\<close>

fun background :: "nat \<Rightarrow> (nat \<Rightarrow> ('w, int) exec) \<Rightarrow> ('w, unit) exec" where
  "background 0 cycle = returnE ()"
| "background (Suc n) cycle = bindE (guarded (cycle n)) (\<lambda>_. background n cycle)"

definition outbox_relay_loop :: "'r redis_api \<Rightarrow> (nat \<Rightarrow> bool) \<Rightarrow> nat \<Rightarrow> ('r, unit) sexec" where
  "outbox_relay_loop R acquired n = background n (\<lambda>k. relay_batch R (acquired k))"

definition scheduler_loop :: "'r redis_api \<Rightarrow> (nat \<Rightarrow> bool) \<Rightarrow> nat \<Rightarrow> ('r, unit) sexec" where
  "scheduler_loop R acquired n = background n (\<lambda>k. scheduler_cycle R (acquired k))"

definition audit_verifier_loop :: "(uuid list \<Rightarrow> uuid list) \<Rightarrow> nat \<Rightarrow> nat \<Rightarrow> ('r, unit) sexec" where
  "audit_verifier_loop shuffle sample_size n =
     background n (\<lambda>k. bindE (verify_sample shuffle sample_size) (\<lambda>(verified, bad). returnE bad))"

text \<open>No failure of a cycle ends such a loop.\<close>

lemma background_returns: "fst (background n cycle w) = Inr ()"
proof (induction n arbitrary: w)
  case (Suc n)
  obtain a w1 where "guarded (cycle n) w = (Inr a, w1)"
    by (cases "cycle n w"; cases "fst (cycle n w)") (auto simp: guarded_def)
  with Suc show ?case by simp
qed simp

lemma keeps_background [keeps_intros]: "(\<And>k. keeps I (cycle k)) \<Longrightarrow> keeps I (background n cycle)"
  by (induction n) (auto simp: guarded_def intro!: keeps_intros)

lemma safe_background [safe_intros]: "(\<And>k. safe I (cycle k)) \<Longrightarrow> safe I (background n cycle)"
  by (induction n) (auto simp: guarded_def intro!: safe_intros)

section \<open>The reaper\<close>

text \<open>\<open>key.decode("utf-8")\<close> for the text of the model: code points up to U+00FF.\<close>

fun utf8_string :: "bytes \<Rightarrow> string option" where
  "utf8_string [] = Some []"
| "utf8_string (a # bs) =
     (if a < 0x80 then map_option (Cons (char_of (unat a))) (utf8_string bs)
      else if a = 0xC2 \<or> a = 0xC3 then
        (case bs of
           b # cs \<Rightarrow> if cont_byte b
             then map_option (Cons (char_of (unat (a - 0xC0) * 64 + unat (b - 0x80)))) (utf8_string cs)
             else None
         | [] \<Rightarrow> None)
      else None)"

definition remove_prefix :: "string \<Rightarrow> string \<Rightarrow> string" where
  "remove_prefix p s = (if take (length p) s = p then drop (length p) s else s)"

text \<open>\<open>float(v)\<close> on a JSON value; the text parser is \<open>to_float\<close>.\<close>

definition json_float :: "(string \<Rightarrow> rat option) \<Rightarrow> json \<Rightarrow> exn + rat" where
  "json_float to_float v =
     (case v of
        JStr s \<Rightarrow> (case to_float s of None \<Rightarrow> Inl (ValueError ''could not convert string to float'') | Some x \<Rightarrow> Inr x)
      | JInt n \<Rightarrow> Inr (of_int n)
      | JFloat x \<Rightarrow> Inr x
      | JBool b \<Rightarrow> Inr (if b then 1 else 0)
      | _ \<Rightarrow> Inl (TypeError ''float() argument must be a string or a real number''))"

definition py_type :: "json \<Rightarrow> string" where
  "py_type v = (case v of JNull \<Rightarrow> ''NoneType'' | JBool _ \<Rightarrow> ''bool'' | JInt _ \<Rightarrow> ''int'' | JFloat _ \<Rightarrow> ''float''
     | JStr _ \<Rightarrow> ''str'' | JArr _ \<Rightarrow> ''list'' | JObj _ \<Rightarrow> ''dict'')"

definition in_quotes :: "string \<Rightarrow> string" where
  "in_quotes s = CHR 0x27 # s @ [CHR 0x27]"

definition not_comparable :: "json \<Rightarrow> json \<Rightarrow> exn" where
  "not_comparable a b = TypeError (in_quotes ''>='' @ '' not supported between instances of '' @ in_quotes (py_type a) @
     '' and '' @ in_quotes (py_type b))"

definition number_eq :: "rat \<Rightarrow> json \<Rightarrow> bool" where
  "number_eq x v = (case json_number v of Inl _ \<Rightarrow> False | Inr y \<Rightarrow> x = y)"

text \<open>\<open>a == b\<close>: numbers by value, whatever their type, and \<open>dict\<close>s whatever their order.\<close>

primrec json_eq :: "json \<Rightarrow> json \<Rightarrow> bool" where
  "json_eq JNull v = (v = JNull)"
| "json_eq (JBool b) v = number_eq (of_bool b) v"
| "json_eq (JInt n) v = number_eq (of_int n) v"
| "json_eq (JFloat x) v = number_eq x v"
| "json_eq (JStr s) v = (v = JStr s)"
| "json_eq (JArr xs) v = (case v of JArr ys \<Rightarrow> list_all2 (\<lambda>eq y. eq y) (map json_eq xs) ys | _ \<Rightarrow> False)"
| "json_eq (JObj kvs) v = (case v of
     JObj lvs \<Rightarrow> length kvs = length lvs \<and>
       list_all (\<lambda>(k, eq). case map_of lvs k of None \<Rightarrow> False | Some y \<Rightarrow> eq y) (map (map_prod id json_eq) kvs)
   | _ \<Rightarrow> False)"

text \<open>Lists compare by their first elements that differ, else by length.\<close>

fun list_ge :: "((json \<Rightarrow> bool) \<times> (json \<Rightarrow> exn + bool)) list \<Rightarrow> json list \<Rightarrow> exn + bool" where
  "list_ge [] ys = Inr (ys = [])"
| "list_ge (p # ps) [] = Inr True"
| "list_ge (p # ps) (y # ys) = (if fst p y then list_ge ps ys else snd p y)"

definition number_ge :: "json \<Rightarrow> rat \<Rightarrow> json \<Rightarrow> exn + bool" where
  "number_ge a x v = (case json_number v of Inl _ \<Rightarrow> Inl (not_comparable a v) | Inr y \<Rightarrow> Inr (y \<le> x))"

text \<open>\<open>a >= b\<close>\<close>

primrec json_ge :: "json \<Rightarrow> json \<Rightarrow> exn + bool" where
  "json_ge JNull v = Inl (not_comparable JNull v)"
| "json_ge (JBool b) v = number_ge (JBool b) (of_bool b) v"
| "json_ge (JInt n) v = number_ge (JInt n) (of_int n) v"
| "json_ge (JFloat x) v = number_ge (JFloat x) x v"
| "json_ge (JStr s) v = (case v of JStr t \<Rightarrow> Inr (t \<le> s) | _ \<Rightarrow> Inl (not_comparable (JStr s) v))"
| "json_ge (JArr xs) v = (case v of
     JArr ys \<Rightarrow> list_ge (zip (map json_eq xs) (map json_ge xs)) ys
   | _ \<Rightarrow> Inl (not_comparable (JArr xs) v))"
| "json_ge (JObj kvs) v = Inl (not_comparable (JObj kvs) v)"

lemma json_ge_examples:
  "json_ge (JArr [JInt 1, JInt 2]) (JArr [JFloat 1, JInt 3]) = Inr False"
  "json_ge (JArr [JInt 1, JInt 2]) (JArr [JBool True]) = Inr True"
  "json_ge (JArr [JInt 1, JNull]) (JArr [JInt 1, JInt 0]) = Inl (not_comparable JNull (JInt 0))"
  by (simp_all add: number_eq_def number_ge_def json_number_def)

definition reap_to_dlq :: "'r redis_api \<Rightarrow> string \<Rightarrow> bytes \<Rightarrow> ('r, unit) sexec" where
  "reap_to_dlq R key item =
     bindE (decode_utf8 item) (\<lambda>item_str.
     bindE (redisE (r_lrem1 R key item_str)) (\<lambda>_.
     bindE (move_to_dlq R item) (\<lambda>_. returnE ())))"

definition liftE :: "exn + 'a \<Rightarrow> ('w, 'a) exec" where
  "liftE v = (case v of Inl e \<Rightarrow> raiseE e | Inr a \<Rightarrow> returnE a)"

definition reap_item ::
  "'r redis_api \<Rightarrow> (bytes \<Rightarrow> exn + json) \<Rightarrow> (string \<Rightarrow> rat option) \<Rightarrow> rat \<Rightarrow> int \<Rightarrow> string \<Rightarrow> string \<Rightarrow> bytes \<Rightarrow> int \<Rightarrow>
   ('r, int) sexec" where
  "reap_item R loads to_float now visibility_timeout_s key worker_id item reclaimed =
     (case loads item of
        Inl e \<Rightarrow> if is_value_error e then bindE (reap_to_dlq R key item) (\<lambda>_. returnE (reclaimed + 1)) else raiseE e
      | Inr v \<Rightarrow>
     bindE (as_dict v) (\<lambda>payload.
     let claimed_at = dict_get_or payload ''claimed_at'' JNull in
     if claimed_at = JNull
     then bindE (move_to_ready R worker_id item) (\<lambda>_.
          bindE (metric ''queue_reaper_reclaimed_total'' []) (\<lambda>_. returnE (reclaimed + 1)))
     else bindE (liftE (json_float to_float claimed_at)) (\<lambda>c.
       if now - c > of_int visibility_timeout_s
       then
         bindE (liftE (json_ge (dict_get_or payload ''attempt_number'' (JInt 1))
                               (dict_get_or payload ''max_attempts'' (JInt 3)))) (\<lambda>exhausted.
         bindE (if exhausted then reap_to_dlq R key item else move_to_ready R worker_id item) (\<lambda>_.
         bindE (metric ''queue_reaper_reclaimed_total'' []) (\<lambda>_. returnE (reclaimed + 1))))
       else returnE reclaimed)))"

definition reap_key ::
  "'r redis_api \<Rightarrow> (bytes \<Rightarrow> exn + json) \<Rightarrow> (string \<Rightarrow> rat option) \<Rightarrow> rat \<Rightarrow> int \<Rightarrow> bytes \<Rightarrow> int \<Rightarrow> ('r, int) sexec" where
  "reap_key R loads to_float now visibility_timeout_s key_bytes reclaimed =
     (case utf8_string key_bytes of
        None \<Rightarrow> raiseE UnicodeDecodeError
      | Some key \<Rightarrow>
     bindE (redisE (r_lrange R key 0 (- 1))) (\<lambda>items.
     foldE items (reap_item R loads to_float now visibility_timeout_s key
       (remove_prefix QUEUE_INFLIGHT_PREFIX key)) reclaimed))"

definition reap_stuck_tasks ::
  "'r redis_api \<Rightarrow> (bytes \<Rightarrow> exn + json) \<Rightarrow> (string \<Rightarrow> rat option) \<Rightarrow> int \<Rightarrow> ('r, int) sexec" where
  "reap_stuck_tasks R loads to_float visibility_timeout_s =
     bindE (redisE (r_scan R QUEUE_INFLIGHT_PREFIX)) (\<lambda>keys.
     bindE now_utc (\<lambda>t.
     foldE keys (reap_key R loads to_float (of_int t / 1000000) visibility_timeout_s) 0))"

definition reaper_loop ::
  "'r redis_api \<Rightarrow> (bytes \<Rightarrow> exn + json) \<Rightarrow> (string \<Rightarrow> rat option) \<Rightarrow> int \<Rightarrow> nat \<Rightarrow> ('r, unit) sexec" where
  "reaper_loop R loads to_float visibility_timeout_s n =
     background n (\<lambda>_. reap_stuck_tasks R loads to_float visibility_timeout_s)"

section \<open>Handlers and their context\<close>

text \<open>A document reference is an identifier, or whatever else the payload listed.\<close>

datatype doc_ref = DocId uuid | DocRaw json

record StepContext =
  ctx_workflow_run_id :: uuid
  ctx_step_id :: uuid
  ctx_step_attempt_id :: uuid
  ctx_step_name :: string
  ctx_workflow_name :: json
  ctx_document_ids :: "doc_ref list"
  ctx_correlation_id :: json
  ctx_previous_outputs :: dict

type_synonym 'r handler = "StepContext \<Rightarrow> ('r, StepResult) sexec"

text \<open>The dictionary \<open>_HANDLER_MAP\<close>: which handler a name stands for.\<close>

type_synonym 'r handler_map = "string \<Rightarrow> 'r handler option"

text \<open>The value a handler's outcome is mapped to: \<open>status\<close>, \<open>output_ref\<close>, \<open>error_code\<close>, \<open>error_detail\<close>.\<close>

record outcome =
  oc_status :: string
  oc_output_ref :: "dict option"
  oc_error_code :: "string option"
  oc_error_detail :: "string option"

definition parse_ids :: "json \<Rightarrow> exn + doc_ref list" where
  "parse_ids raw =
     (let one = (\<lambda>v acc. case acc of Inl e \<Rightarrow> Inl e | Inr ids \<Rightarrow>
           (case v of JStr s \<Rightarrow> (case uuid_parse s of Inl e \<Rightarrow> Inl e | Inr u \<Rightarrow> Inr (ids @ [DocId u]))
            | _ \<Rightarrow> Inr (ids @ [DocRaw v])))
      in case raw of
           JArr vs \<Rightarrow> fold one vs (Inr [])
         | JObj d \<Rightarrow> fold one (map (JStr \<circ> fst) d) (Inr [])
         | JStr s \<Rightarrow> fold one (map (\<lambda>c. JStr [c]) s) (Inr [])
         | _ \<Rightarrow> Inl (TypeError ''object is not iterable''))"

section \<open>Outputs of the steps before\<close>

definition latest_output :: "uuid \<Rightarrow> ('z, json option) wexec" where
  "latest_output step_id =
     bindE (read_db (\<lambda>d. take 1 (sort_key (\<lambda>a. - att_step_attempt_number a)
       (filter (\<lambda>a. att_step_id a = step_id \<and> att_state a = succeeded) (step_attempts d))))) (\<lambda>rows.
     bindE (scalar_one_or_none rows) (\<lambda>a.
     returnE (case a of None \<Rightarrow> None | Some x \<Rightarrow> att_output_ref x)))"

definition decode_output :: "(bytes \<Rightarrow> exn + json) \<Rightarrow> json \<Rightarrow> exn + json" where
  "decode_output loads v = (case v of
     JStr s \<Rightarrow> (case loads (utf8 s) of Inr x \<Rightarrow> Inr x | Inl e \<Rightarrow> if is_value_error e then Inr v else Inl e)
   | _ \<Rightarrow> Inr v)"

definition load_previous_outputs ::
  "(bytes \<Rightarrow> exn + json) \<Rightarrow> uuid \<Rightarrow> string \<Rightarrow> ('z, dict) wexec" where
  "load_previous_outputs loads workflow_run_id current_step_name =
     bindE (step_get_by_run_and_name workflow_run_id current_step_name) (\<lambda>found.
     case found of
       None \<Rightarrow> returnE []
     | Some current_step \<Rightarrow>
     bindE (read_db (\<lambda>d. sort_key stp_step_index (filter (\<lambda>s. stp_workflow_run_id s = workflow_run_id \<and>
         stp_step_index s < stp_step_index current_step \<and> stp_state s = succeeded) (steps d)))) (\<lambda>preceding.
     foldE preceding (\<lambda>s outputs.
       bindE (latest_output (stp_step_id s)) (\<lambda>out.
       case out of
         None \<Rightarrow> returnE outputs
       | Some v \<Rightarrow> bindE (liftE (decode_output loads v)) (\<lambda>x.
           returnE (dict_set outputs (stp_step_name s) x)))) []))"

section \<open>Running a handler\<close>

definition outcome_of :: "StepResult \<Rightarrow> outcome" where
  "outcome_of r =
     (if sr_status r = ''succeeded''
      then \<lparr>oc_status = ''success'', oc_output_ref = sr_output r, oc_error_code = None, oc_error_detail = None\<rparr>
      else if sr_status r = ''failed_retryable''
      then \<lparr>oc_status = ''fail_retryable'', oc_output_ref = None, oc_error_code = sr_error_code r,
            oc_error_detail = sr_error_detail r\<rparr>
      else if sr_status r = ''escalate''
      then \<lparr>oc_status = ''fail_terminal'', oc_output_ref = None,
            oc_error_code = Some (or_default (sr_error_code r) ''ESCALATION_REQUESTED''),
            oc_error_detail = sr_error_detail r\<rparr>
      else \<lparr>oc_status = ''fail_terminal'', oc_output_ref = None, oc_error_code = sr_error_code r,
            oc_error_detail = sr_error_detail r\<rparr>)"

definition find_handler :: "'r handler_map \<Rightarrow> json \<Rightarrow> exn + 'r handler option" where
  "find_handler handlers name = (case name of
     JStr s \<Rightarrow> Inr (handlers s)
   | JArr _ \<Rightarrow> Inl (TypeError ''unhashable type: list'')
   | JObj _ \<Rightarrow> Inl (TypeError ''unhashable type: dict'')
   | _ \<Rightarrow> Inr None)"

text \<open>Look the handler up and run it: no exception of the handler leaves this part.\<close>

definition run_handler :: "'r handler_map \<Rightarrow> json \<Rightarrow> StepContext \<Rightarrow> ('r, outcome) sexec" where
  "run_handler handlers handler_name context =
     (case find_handler handlers handler_name of
        Inl e \<Rightarrow> raiseE e
      | Inr None \<Rightarrow> bindE (readE w_float_repr) (\<lambda>fr.
          returnE \<lparr>oc_status = ''fail_terminal'', oc_output_ref = None,
            oc_error_code = Some ''HANDLER_NOT_FOUND'',
            oc_error_detail = Some (''No handler registered for '' @ [CHR 0x27] @ py_str fr handler_name @ [CHR 0x27])\<rparr>)
      | Inr (Some handle) \<Rightarrow>
          catchE (bindE (handle context) (\<lambda>result. returnE (outcome_of result)))
            (\<lambda>e. returnE \<lparr>oc_status = ''fail_retryable'', oc_output_ref = None,
                          oc_error_code = Some ''HANDLER_EXCEPTION'', oc_error_detail = Some (exn_str e)\<rparr>))"

definition execute_step_handler ::
  "'r handler_map \<Rightarrow> (bytes \<Rightarrow> exn + json) \<Rightarrow> string \<Rightarrow> uuid \<Rightarrow> uuid \<Rightarrow> uuid \<Rightarrow> dict \<Rightarrow> ('r, outcome) sexec" where
  "execute_step_handler handlers loads step_name workflow_run_id step_id step_attempt_id payload =
     bindE (liftE (parse_ids (dict_get_or payload ''document_ids'' (JArr [])))) (\<lambda>document_ids.
     bindE (load_previous_outputs loads workflow_run_id step_name) (\<lambda>previous_outputs.
     run_handler handlers (dict_get_or payload ''handler_name'' (JStr step_name))
       \<lparr>ctx_workflow_run_id = workflow_run_id, ctx_step_id = step_id,
        ctx_step_attempt_id = step_attempt_id, ctx_step_name = step_name,
        ctx_workflow_name = dict_get_or payload ''workflow_name'' (JStr ''unknown''),
        ctx_document_ids = document_ids,
        ctx_correlation_id = dict_get_or payload ''correlation_id'' (JStr []),
        ctx_previous_outputs = previous_outputs\<rparr>))"

section \<open>Processing a task\<close>

text \<open>\<open>UUID(s) if s else None\<close> on a value of the payload.\<close>

definition uuid_field :: "json \<Rightarrow> exn + uuid option" where
  "uuid_field v = (if \<not> truthy v then Inr None else (case v of
     JStr s \<Rightarrow> (case uuid_parse s of Inl e \<Rightarrow> Inl e | Inr u \<Rightarrow> Inr (Some u))
   | _ \<Rightarrow> Inl (AttributeError ''replace'')))"

definition terminal_attempt_states :: "StepState list" where
  "terminal_attempt_states = [succeeded, failed_terminal, skipped]"

definition worker_actor :: "string \<Rightarrow> string" where
  "worker_actor worker_id = ''worker:main:'' @ worker_id"

text \<open>The outcome's columns and event: the three branches after the handler returned.\<close>

definition write_outcome ::
  "(dict \<Rightarrow> exn + json) \<Rightarrow> string \<Rightarrow> json \<Rightarrow> json \<Rightarrow> uuid \<Rightarrow> uuid \<Rightarrow> uuid \<Rightarrow> outcome \<Rightarrow> time \<Rightarrow> ('r, unit) sexec" where
  "write_outcome text_param worker_id workflow_name step_name run_id step_id attempt_id oc now =
     bindE (readE w_float_repr) (\<lambda>fr.
     let labels = [py_str fr workflow_name, py_str fr step_name, oc_status oc];
         failure = [(''step_name'', step_name), (''error_code'', jstr_opt (oc_error_code oc)),
                    (''error_detail'', jstr_opt (oc_error_detail oc))] in
     if oc_status oc = ''success''
     then
       bindE (case oc_output_ref oc of None \<Rightarrow> returnE None
              | Some d \<Rightarrow> bindE (liftE (text_param d)) (\<lambda>v. returnE (Some v))) (\<lambda>out.
       bindE (update_attempt attempt_id (\<lambda>a. a\<lparr>att_state := succeeded, att_ended_at := Some now,
         att_output_ref := out\<rparr>)) (\<lambda>_.
       bindE (update_step step_id (\<lambda>s. s\<lparr>stp_state := succeeded, stp_ended_at := Some now\<rparr>)) (\<lambda>_.
       bindE (append_audit_event run_id ''step_attempt.succeeded'' (worker_actor worker_id)
         [(''step_name'', step_name), (''outcome'', JStr ''success'')] (Some step_id) (Some attempt_id)) (\<lambda>_.
       metric ''step_attempts_total'' labels))))
     else if oc_status oc = ''fail_retryable''
     then
       bindE (update_attempt attempt_id (\<lambda>a. a\<lparr>att_state := failed_retryable, att_ended_at := Some now,
         att_error_code := oc_error_code oc, att_error_detail := oc_error_detail oc\<rparr>)) (\<lambda>_.
       bindE (update_step step_id (\<lambda>s. s\<lparr>stp_state := failed_retryable\<rparr>)) (\<lambda>_.
       bindE (append_audit_event run_id ''step_attempt.failed_retryable'' (worker_actor worker_id)
         failure (Some step_id) (Some attempt_id)) (\<lambda>_.
       metric ''step_attempts_total'' labels)))
     else if oc_status oc = ''fail_terminal''
     then
       bindE (update_attempt attempt_id (\<lambda>a. a\<lparr>att_state := failed_terminal, att_ended_at := Some now,
         att_error_code := oc_error_code oc, att_error_detail := oc_error_detail oc\<rparr>)) (\<lambda>_.
       bindE (update_step step_id (\<lambda>s. s\<lparr>stp_state := failed_terminal, stp_ended_at := Some now\<rparr>)) (\<lambda>_.
       bindE (append_audit_event run_id ''step_attempt.failed_terminal'' (worker_actor worker_id)
         failure (Some step_id) (Some attempt_id)) (\<lambda>_.
       metric ''step_attempts_total'' labels)))
     else returnE ())"

definition discard_task :: "'r redis_api \<Rightarrow> string \<Rightarrow> bytes \<Rightarrow> ('r, outcome option) sexec" where
  "discard_task R worker_id payload_bytes =
     bindE (move_to_dlq R payload_bytes) (\<lambda>_.
     bindE (ack R worker_id payload_bytes) (\<lambda>_. returnE None))"

text \<open>The attempt itself: marked as in progress, handled, its outcome written.\<close>

definition run_attempt ::
  "'r handler_map \<Rightarrow> (bytes \<Rightarrow> exn + json) \<Rightarrow> (dict \<Rightarrow> exn + json) \<Rightarrow> string \<Rightarrow> dict \<Rightarrow> uuid \<Rightarrow> uuid \<Rightarrow> uuid \<Rightarrow>
   string \<Rightarrow> ('r, outcome option) sexec" where
  "run_attempt handlers loads text_param worker_id payload workflow_run_id step_id step_attempt_id step_name =
     bindE now_utc (\<lambda>started.
     bindE (update_attempt step_attempt_id
       (\<lambda>a. a\<lparr>att_state := in_progress, att_started_at := Some started\<rparr>)) (\<lambda>_.
     bindE (execute_step_handler handlers loads step_name workflow_run_id step_id
       step_attempt_id payload) (\<lambda>oc.
     bindE now_utc (\<lambda>now.
     bindE (write_outcome text_param worker_id
       (dict_get_or payload ''workflow_name'' (JStr ''unknown''))
       (dict_get_or payload ''step_name'' (JStr ''unknown''))
       workflow_run_id step_id step_attempt_id oc now) (\<lambda>_.
     returnE (Some oc))))))"

text \<open>The body of the transaction; \<open>None\<close> is an early return.\<close>

definition task_transaction ::
  "'r redis_api \<Rightarrow> 'r handler_map \<Rightarrow> (bytes \<Rightarrow> exn + json) \<Rightarrow> (dict \<Rightarrow> exn + json) \<Rightarrow> string \<Rightarrow> dict \<Rightarrow> bytes \<Rightarrow>
   ('r, outcome option) sexec" where
  "task_transaction R handlers loads text_param worker_id payload payload_bytes =
     bindE (liftE (uuid_field (dict_get_or payload ''step_attempt_id'' JNull))) (\<lambda>aid.
     bindE (liftE (uuid_field (dict_get_or payload ''step_id'' JNull))) (\<lambda>sid.
     bindE (liftE (uuid_field (dict_get_or payload ''workflow_run_id'' JNull))) (\<lambda>rid.
     case (aid, sid, rid) of
       (Some step_attempt_id, Some step_id, Some workflow_run_id) \<Rightarrow>
         bindE (attempt_get_by_id step_attempt_id) (\<lambda>attempt.
         bindE (step_get_by_id step_id) (\<lambda>step.
         bindE (run_get_by_id workflow_run_id) (\<lambda>run.
         case (attempt, step, run) of
           (Some a, Some s, Some _) \<Rightarrow>
             if att_state a \<in> set terminal_attempt_states
             then bindE (ack R worker_id payload_bytes) (\<lambda>_. returnE None)
             else
               run_attempt handlers loads text_param worker_id payload workflow_run_id step_id
                 step_attempt_id (stp_step_name s)
         | _ \<Rightarrow> discard_task R worker_id payload_bytes)))
     | _ \<Rightarrow> discard_task R worker_id payload_bytes)))"

definition process_task ::
  "'r redis_api \<Rightarrow> 'r handler_map \<Rightarrow> (bytes \<Rightarrow> exn + json) \<Rightarrow> (dict \<Rightarrow> exn + json) \<Rightarrow> string \<Rightarrow> json \<Rightarrow> bytes \<Rightarrow>
   ('r, unit) sexec" where
  "process_task R handlers loads text_param worker_id v payload_bytes =
     bindE (as_dict v) (\<lambda>payload.
     catchE
       (bindE (session_scope (task_transaction R handlers loads text_param worker_id payload payload_bytes)) (\<lambda>done.
        case done of
          None \<Rightarrow> returnE ()
        | Some oc \<Rightarrow>
            bindE (ack R worker_id payload_bytes) (\<lambda>_.
            bindE (readE w_float_repr) (\<lambda>fr.
            let wn = py_str fr (dict_get_or payload ''workflow_name'' (JStr ''unknown''));
                sn = py_str fr (dict_get_or payload ''step_name'' (JStr ''unknown'')) in
            bindE (metric ''step_attempt_duration_seconds'' [wn, sn]) (\<lambda>_.
            metric ''queue_tasks_acked_total'' [wn, sn, oc_status oc])))))
       (\<lambda>_. returnE ()))"

section \<open>The loop\<close>

definition HEARTBEAT_PREFIX :: string where "HEARTBEAT_PREFIX = ''queue:workers:heartbeat:''"
definition HEARTBEAT_TTL_S :: int where "HEARTBEAT_TTL_S = 30"
definition HEARTBEAT_INTERVAL_S :: int where "HEARTBEAT_INTERVAL_S = 10"

text \<open>One turn of the \<open>while\<close>: the new time of the last heartbeat, in microseconds.\<close>

definition worker_turn ::
  "'r redis_api \<Rightarrow> 'r handler_map \<Rightarrow> (bytes \<Rightarrow> exn + json) \<Rightarrow> (dict \<Rightarrow> exn + json) \<Rightarrow> string \<Rightarrow> time \<Rightarrow> ('r, time) sexec" where
  "worker_turn R handlers loads text_param worker_id last_heartbeat =
     bindE now_utc (\<lambda>now.
     bindE (if now - last_heartbeat > HEARTBEAT_INTERVAL_S * 1000000
            then bindE (redisE (r_setex R (HEARTBEAT_PREFIX @ worker_id) (int_str (now div 1000000)) HEARTBEAT_TTL_S))
                   (\<lambda>_. returnE now)
            else returnE last_heartbeat) (\<lambda>hb.
     bindE (redisE (r_brpoplpush R QUEUE_READY (inflight_key worker_id))) (\<lambda>result.
     case result of
       None \<Rightarrow> returnE hb
     | Some payload_bytes \<Rightarrow>
         (case loads payload_bytes of
            Inl e \<Rightarrow>
              if is_value_error e
              then bindE (discard_task R worker_id payload_bytes) (\<lambda>_. returnE hb)
              else raiseE e
          | Inr v \<Rightarrow> bindE (process_task R handlers loads text_param worker_id v payload_bytes) (\<lambda>_. returnE hb)))))"

text \<open>The loop for as many turns as it takes until the shutdown event is set.\<close>

fun worker_loop ::
  "'r redis_api \<Rightarrow> 'r handler_map \<Rightarrow> (bytes \<Rightarrow> exn + json) \<Rightarrow> (dict \<Rightarrow> exn + json) \<Rightarrow> string \<Rightarrow> nat \<Rightarrow> time \<Rightarrow> ('r, time) sexec" where
  "worker_loop R handlers loads text_param worker_id 0 hb = returnE hb"
| "worker_loop R handlers loads text_param worker_id (Suc n) hb =
     bindE (worker_turn R handlers loads text_param worker_id hb) (\<lambda>hb'.
     worker_loop R handlers loads text_param worker_id n hb')"

section \<open>What the loops keep\<close>

text \<open>Handlers read the database and the payloads; they write neither, and have no access to Redis.\<close>

definition read_only :: "'r handler_map \<Rightarrow> bool" where
  "read_only handlers \<longleftrightarrow> (\<forall>n h ctx w r w'. handlers n = Some h \<longrightarrow> h ctx w = (r, w') \<longrightarrow>
     w_db w' = w_db w \<and> w_files w' = w_files w \<and> w_redis w' = w_redis w \<and> advances w w')"

lemma read_onlyD: "read_only handlers \<Longrightarrow> handlers n = Some h \<Longrightarrow> h ctx w = (r, w') \<Longrightarrow>
    w_db w' = w_db w \<and> w_files w' = w_files w \<and> w_redis w' = w_redis w \<and> advances w w'"
  by (simp add: read_only_def)

lemma found_handler: "find_handler handlers v = Inr (Some h) \<Longrightarrow> \<exists>n. handlers n = Some h"
  by (auto simp: find_handler_def split: json.splits)

lemma keeps_liftE [keeps_intros]: "keeps I (liftE v)"
  by (simp add: liftE_def keeps_def split: sum.split)

lemma safe_liftE [safe_intros]: "safe I (liftE v)"
  by (simp add: liftE_def safe_def split: sum.split)

lemma keeps_as_dict [keeps_intros]: "keeps I (as_dict v)"
  by (simp add: as_dict_def keeps_def split: json.split)

lemma safe_as_dict [safe_intros]: "safe I (as_dict v)"
  by (simp add: as_dict_def safe_def split: json.split)

lemma keeps_decode [keeps_intros]: "keeps I (decode_utf8 b)"
  by (simp add: decode_utf8_def keeps_def)

lemma safe_decode [safe_intros]: "safe I (decode_utf8 b)"
  by (simp add: decode_utf8_def safe_def)

text \<open>The only effect a queue operation has is on the server.\<close>

lemmas queue_defs = enqueue_def schedule_def ack_def move_to_ready_def move_to_dlq_def mature_tasks_def

lemma mature_loop_keeps: "(\<And>m :: ('r, int) exec. keeps I (redisE m)) \<Longrightarrow>
    (\<And>m :: ('r, (bytes \<times> rat) option) exec. keeps I (redisE m)) \<Longrightarrow> keeps I (mature_loop R x n p)"
  for R :: "'r redis_api"
  by (induction n arbitrary: p) (auto intro!: keeps_intros)

lemma mature_loop_safe: "(\<And>m :: ('r, int) exec. safe I (redisE m)) \<Longrightarrow>
    (\<And>m :: ('r, (bytes \<times> rat) option) exec. safe I (redisE m)) \<Longrightarrow> safe I (mature_loop R x n p)"
  for R :: "'r redis_api"
  by (induction n arbitrary: p) (auto intro!: safe_intros)

lemma run_handler_frame:
  assumes ro: "read_only handlers" and run: "run_handler handlers name ctx w = (r, w')"
  shows "w_db w' = w_db w \<and> w_files w' = w_files w \<and> w_redis w' = w_redis w \<and> advances w w'"
proof (cases "find_handler handlers name")
  case (Inr found)
  show ?thesis
  proof (cases found)
    case (Some h)
    with Inr obtain n where n: "handlers n = Some h" using found_handler by blast
    obtain r1 w1 where h: "h ctx w = (r1, w1)" by (cases "h ctx w")
    have "w' = w1" using run Inr Some h by (cases r1) (simp_all add: run_handler_def)
    with read_onlyD [OF ro n h] show ?thesis by simp
  qed (use run Inr in \<open>simp add: run_handler_def\<close>)
qed (use run in \<open>simp add: run_handler_def\<close>)

text \<open>
  A way to walk through the loops for any property of the database that the elementary
  statements keep.
\<close>

locale db_invariant =
  fixes P :: "db \<Rightarrow> bool"
  assumes attempt_row: "P d \<Longrightarrow> (\<And>a. attempt_same a (k a)) \<Longrightarrow>
      P (d\<lparr>step_attempts := map_where (\<lambda>a. att_step_attempt_id a = i) k (step_attempts d)\<rparr>)"
    and step_row: "P d \<Longrightarrow> (\<And>s. step_same s (f s)) \<Longrightarrow> P (upd_step i f d)"
    and outbox_row: "P d \<Longrightarrow> (\<And>t. outbox_same t (u t)) \<Longrightarrow>
      P (d\<lparr>tasks_outbox := map_where q u (tasks_outbox d)\<rparr>)"
    and event_row: "P d \<Longrightarrow> P (add_event m d)"

sublocale change_contract \<subseteq> db_invariant P
  by unfold_locales (rule attempt_update step_update outbox_update event; assumption)+

context db_invariant
begin

abbreviation dbI :: "'z world_scheme \<Rightarrow> bool" where "dbI w \<equiv> P (w_db w)"

lemma kept_db: "(\<And>w r w'. m w = (r, w') \<Longrightarrow> w_db w' = w_db w) \<Longrightarrow> keeps dbI m"
  by (rule keepsI) simp

lemma session_keeps: "keeps dbI m \<Longrightarrow> keeps dbI (session_scope m)"
  by (force simp: keeps_def session_scope_def split: prod.splits sum.splits)

lemma draws_keep: "keeps dbI now_utc" "keeps dbI (metric n l)" "keeps dbI uuid4" "keeps dbI urandom10"
  by (simp_all add: keeps_def now_utc_def metric_def uuid4_def urandom10_def)

lemma append_keeps: "keeps dbI (append_audit_event i et actor p s sa)"
proof -
  have "keeps dbI (insert_audit_event m)" for m
    unfolding insert_audit_event_def by (rule keepsI, erule checked_cases) (auto intro: event_row)
  then show ?thesis
    unfolding append_audit_event_def audit_get_latest_for_run_def uuid7_def audit_append_def
    by (intro keeps_intros draws_keep)
qed

lemma rows_keep:
  "(\<And>a. attempt_same a (k a)) \<Longrightarrow> keeps dbI (update_attempt i k)"
  "(\<And>s. step_same s (f s)) \<Longrightarrow> keeps dbI (update_step i f)"
  unfolding update_attempt_def update_step_def
  by (rule keeps_write_db, simp add: attempt_row step_row)+

lemma outbox_keeps: "keeps dbI (outbox_mark_enqueued i t)" "keeps dbI (outbox_increment_attempts i e)"
proof -
  show "keeps dbI (outbox_mark_enqueued i t)"
    unfolding outbox_mark_enqueued_def
    by (intro keeps_intros keeps_write_db) (auto simp: outbox_same_def intro!: outbox_row)
  show "keeps dbI (outbox_increment_attempts i e)"
    unfolding outbox_increment_attempts_def Let_def
    by (rule keeps_checked) (auto simp: outbox_same_def intro!: outbox_row)
qed

lemma redis_keeps: "keeps dbI (redisE m)"
  by (rule kept_db) (rule redisE_db)

lemma relay_keeps: "keeps dbI (relay_batch R acquired)"
  unfolding relay_batch_def relay_entry_def Let_def outbox_get_pending_def queue_defs
  by (intro keeps_intros session_keeps draws_keep outbox_keeps redis_keeps)

lemma scheduler_keeps: "keeps dbI (guarded (scheduler_cycle R acquired))"
  unfolding guarded_def scheduler_cycle_def mature_tasks_def
  by (intro keeps_intros draws_keep mature_loop_keeps redis_keeps)

lemma reaper_keeps: "keeps dbI (reap_stuck_tasks R loads to_float timeout)"
  unfolding reap_stuck_tasks_def reap_key_def reap_item_def reap_to_dlq_def Let_def queue_defs
  by (intro keeps_intros draws_keep redis_keeps)

lemma write_outcome_keeps: "keeps dbI (write_outcome text_param worker wn sn r s a oc now)"
  unfolding write_outcome_def Let_def
  by (intro keeps_intros draws_keep append_keeps rows_keep)
    (simp_all add: attempt_same_def attempt_key_def step_same_def)

lemma run_handler_keeps: "read_only handlers \<Longrightarrow> keeps dbI (run_handler handlers name ctx)"
  by (auto intro!: kept_db dest: run_handler_frame)

lemma execute_keeps:
  "read_only handlers \<Longrightarrow> keeps dbI (execute_step_handler handlers loads name r s a payload)"
  unfolding execute_step_handler_def load_previous_outputs_def latest_output_def step_get_by_run_and_name_def
  by (intro keeps_intros run_handler_keeps)

lemma transaction_keeps:
  "read_only handlers \<Longrightarrow> keeps dbI (task_transaction R handlers loads text_param worker payload b)"
  unfolding task_transaction_def run_attempt_def discard_task_def attempt_get_by_id_def step_get_by_id_def run_get_by_id_def queue_defs
  by (intro keeps_intros draws_keep redis_keeps execute_keeps write_outcome_keeps rows_keep)
    (simp_all add: attempt_same_def attempt_key_def)

lemma process_keeps:
  "read_only handlers \<Longrightarrow> keeps dbI (process_task R handlers loads text_param worker v b)"
  unfolding process_task_def Let_def
  by (intro keeps_intros session_keeps transaction_keeps draws_keep) (simp_all add: queue_defs keeps_intros redis_keeps)

lemma turn_keeps:
  "read_only handlers \<Longrightarrow> keeps dbI (worker_turn R handlers loads text_param worker hb)"
  unfolding worker_turn_def discard_task_def
  by (intro keeps_intros process_keeps draws_keep redis_keeps) (simp_all add: queue_defs keeps_intros redis_keeps)

end

text \<open>Well-formedness.\<close>

lemma queue_wf [keeps_intros]:
  "keeps world_wf (enqueue R p)" "keeps world_wf (schedule R p t)" "keeps world_wf (ack R worker b)"
  "keeps world_wf (move_to_ready R worker b)" "keeps world_wf (move_to_dlq R b)"
  "keeps world_wf (mature_tasks R t n)" "keeps world_wf (reap_to_dlq R k b)"
  unfolding queue_defs reap_to_dlq_def
  by (intro keeps_intros mature_loop_keeps redis_keeps_wf)+

lemma wf_kept: "(\<And>w r w'. m w = (r, w') \<Longrightarrow> w_db w' = w_db w) \<Longrightarrow> keeps world_wf m"
  by (rule keepsI) simp

lemma loops_wf [keeps_intros]:
  "keeps world_wf (relay_batch R acquired)" "keeps world_wf (guarded (scheduler_cycle R acquired))"
  "keeps world_wf (reap_stuck_tasks R loads to_float timeout)"
  "keeps world_wf (write_outcome text_param worker wn sn r s a oc now)"
  unfolding relay_batch_def relay_entry_def guarded_def scheduler_cycle_def reap_stuck_tasks_def reap_key_def
    reap_item_def write_outcome_def Let_def
  by (intro keeps_intros update_wf; simp add: key_defs)+

lemma run_handler_wf: "read_only handlers \<Longrightarrow> keeps world_wf (run_handler handlers name ctx)"
  by (rule wf_kept) (auto dest: run_handler_frame)

lemma worker_wf:
  assumes "read_only handlers"
  shows "keeps world_wf (worker_turn R handlers loads text_param worker hb)"
  unfolding worker_turn_def discard_task_def process_task_def task_transaction_def run_attempt_def execute_step_handler_def
    load_previous_outputs_def latest_output_def Let_def
  by (intro keeps_intros update_wf run_handler_wf assms; simp add: key_defs)

text \<open>The audit log.\<close>

context sys_invariant
begin

lemma queue_safe [safe_intros]:
  "safe I (enqueue R p)" "safe I (schedule R p t)" "safe I (ack R worker b)"
  "safe I (move_to_ready R worker b)" "safe I (move_to_dlq R b)"
  "safe I (mature_tasks R t n)" "safe I (reap_to_dlq R k b)"
  unfolding queue_defs reap_to_dlq_def
  by (intro safe_intros mature_loop_safe redis_safe)+

lemma loops_safe [safe_intros]:
  "safe I (relay_batch R acquired)" "safe I (guarded (scheduler_cycle R acquired))"
  "safe I (reap_stuck_tasks R loads to_float timeout)"
  "safe I (write_outcome text_param worker wn sn r s a oc now)"
  unfolding relay_batch_def relay_entry_def guarded_def scheduler_cycle_def reap_stuck_tasks_def reap_key_def
    reap_item_def write_outcome_def Let_def
  by (intro safe_intros append)+

lemma run_handler_safe: "read_only handlers \<Longrightarrow> safe I (run_handler handlers name ctx)"
  by (rule safeI) (auto dest!: run_handler_frame elim!: frame)

lemma worker_safe:
  assumes "read_only handlers"
  shows "safe I (worker_turn R handlers loads text_param worker hb)"
  unfolding worker_turn_def discard_task_def process_task_def task_transaction_def run_attempt_def execute_step_handler_def
    load_previous_outputs_def latest_output_def Let_def
  by (intro safe_intros run_handler_safe assms)

end

section \<open>What the reaper keeps\<close>

lemma char_of_unat_byte: "n < 256 \<Longrightarrow> unat (of_nat n :: byte) = n"
  by (simp add: unsigned_of_nat take_bit_nat_eq_self)

lemma utf8_string_char: "utf8_string (utf8_char c @ bs) = map_option (Cons c) (utf8_string bs)"
proof -
  let ?n = "of_char c :: nat"
  have n: "?n < 256" by simp
  show ?thesis
  proof (cases "?n < 128")
    case True
    then have "(of_nat ?n :: byte) < 0x80" by (simp add: word_less_nat_alt char_of_unat_byte)
    moreover have "unat (of_nat ?n :: byte) = ?n" using n by (rule char_of_unat_byte)
    ultimately show ?thesis using True by (simp add: utf8_char_def Let_def)
  next
    case False
    let ?a = "of_nat (192 + ?n div 64) :: byte" and ?b = "of_nat (128 + ?n mod 64) :: byte"
    have d: "?n div 64 = 2 \<or> ?n div 64 = 3" using False n by linarith
    have a: "?a = 0xC2 \<or> ?a = 0xC3" using d by auto
    have ua: "unat ?a = 192 + ?n div 64" using d by (intro char_of_unat_byte) auto
    have ub: "unat ?b = 128 + ?n mod 64" by (intro char_of_unat_byte) (simp add: less_imp_le)
    have lt: "\<not> ?a < 0x80" using ua by (simp add: word_less_nat_alt)
    have cb: "cont_byte ?b" using ub by (simp add: cont_byte_def word_le_nat_alt)
    have sa: "unat (?a - 0xC0) = ?n div 64" using d by auto
    have "unat (?b - 0x80) = unat ?b - unat (0x80 :: byte)" using ub by (intro unat_sub) (simp add: word_le_nat_alt)
    then have sb: "unat (?b - 0x80) = ?n mod 64" using ub by simp
    have "?n div 64 * 64 + ?n mod 64 = ?n" by simp
    then have "char_of (unat (?a - 0xC0) * 64 + unat (?b - 0x80)) = c" unfolding sa sb by simp
    with a lt cb False show ?thesis by (auto simp: utf8_char_def Let_def)
  qed
qed

lemma utf8_string_utf8 [simp]: "utf8_string (utf8 s) = Some s"
  by (induction s) (simp_all add: utf8_def utf8_string_char [unfolded utf8_def])

lemma inflight_key_prefix:
  "take (length QUEUE_INFLIGHT_PREFIX) k = QUEUE_INFLIGHT_PREFIX \<Longrightarrow>
     inflight_key (remove_prefix QUEUE_INFLIGHT_PREFIX k) = k"
  unfolding inflight_key_def remove_prefix_def by (metis append_take_drop_id)

text \<open>
  What a step of the reaper may do: the in-flight lists only shrink, and together the queues hold
  what they held. A step that raises may have taken one task out of an in-flight list and put it
  nowhere.
\<close>

definition reaped ::
  "'r list_view \<Rightarrow> 'r zset_view \<Rightarrow> string set \<Rightarrow> 'r sysworld \<Rightarrow> exn + 'a \<Rightarrow> 'r sysworld \<Rightarrow> bool" where
  "reaped ls zs W w r w' \<longleftrightarrow> (\<forall>j. set (inflight ls j w') \<subseteq> set (inflight ls j w)) \<and>
     (case r of Inr a \<Rightarrow> all_tasks ls zs W w' = all_tasks ls zs W w
      | Inl e \<Rightarrow> all_tasks ls zs W w' = all_tasks ls zs W w \<or>
          (\<exists>k \<in> W. \<exists>b \<in> set (inflight ls k w). all_tasks ls zs W w = add_mset b (all_tasks ls zs W w')))"

lemma reaped_same: "ls (w_redis w') = ls (w_redis w) \<Longrightarrow> zs (w_redis w') = zs (w_redis w) \<Longrightarrow> reaped ls zs W w r w'"
  by (auto simp: reaped_def inflight_def all_tasks_def split: sum.split)

lemma reaped_then: "reaped ls zs W w (Inr a) w1 \<Longrightarrow> reaped ls zs W w1 r w' \<Longrightarrow> reaped ls zs W w r w'"
  unfolding reaped_def by (cases r) (simp, blast, simp, blast)

lemma reaped_result: "reaped ls zs W w (Inr a) w' \<Longrightarrow> reaped ls zs W w (Inr b) w'"
  "reaped ls zs W w (Inl e) w' \<Longrightarrow> reaped ls zs W w (Inl e) w'"
  by (simp_all add: reaped_def)

text \<open>Both ways the reaper moves a task are a removal and a push.\<close>

lemma move_item_reaped:
  assumes laws: "redis_laws R ls zs" and W: "finite W" "worker \<in> W"
    and b: "b \<in> set (inflight ls worker w)" and key: "key = QUEUE_READY \<or> key = QUEUE_DLQ"
    and run: "bindE (decode_utf8 b) (\<lambda>v. bindE (redisE (r_lrem1 R (inflight_key worker) v)) (\<lambda>_.
      bindE (redisE (r_lpush R key b)) (\<lambda>_. returnE ()))) w = (r, w')"
  shows "reaped ls zs W w r w' \<and> (\<forall>u. r = Inr u \<longrightarrow> inflight ls worker w' = remove1 b (inflight ls worker w))"
proof (cases "utf8_valid b")
  case False
  with run show ?thesis by (auto simp: decode_utf8_def intro: reaped_same)
next
  case True
  obtain r1 w1 where l: "redisE (r_lrem1 R (inflight_key worker) b) w = (r1, w1)" by fastforce
  show ?thesis
  proof (cases r1)
    case (Inl e)
    with run True l redisE_effect [OF redis_lawsD(3) [OF laws] l] show ?thesis
      by (auto simp: decode_utf8_def intro: reaped_same)
  next
    case (Inr n)
    have gone: "all_tasks ls zs W w = add_mset b (all_tasks ls zs W w1)"
      using lrem_inflight_tasks [OF laws W b] l Inr by simp
    have l1: "ls (w_redis w1) = (ls (w_redis w))(inflight_key worker := remove1 b (inflight ls worker w))"
      using redis_ok(3) [OF laws] l Inr by (simp add: spec_defs inflight_def)
    then have i1: "inflight ls j w1 = (if j = worker then remove1 b (inflight ls worker w) else inflight ls j w)" for j
      by (simp add: inflight_def)
    obtain r2 w2 where p: "redisE (r_lpush R key b) w1 = (r2, w2)" by fastforce
    have i2: "inflight ls j w2 = inflight ls j w1" for j
      using redisE_effect [OF redis_lawsD(1) [OF laws] p] key by (auto simp: spec_defs inflight_def split: sum.splits)
    have sub: "set (inflight ls j w2) \<subseteq> set (inflight ls j w)" for j
      unfolding i2 i1 by (simp add: set_remove1_subset)
    show ?thesis
    proof (cases r2)
      case (Inl e)
      with run True l \<open>r1 = Inr n\<close> p have "r = Inl e" "w' = w2" by (auto simp: decode_utf8_def)
      moreover have "all_tasks ls zs W w2 = all_tasks ls zs W w1"
        using redisE_effect [OF redis_lawsD(1) [OF laws] p] Inl by (simp add: all_tasks_def)
      ultimately show ?thesis using gone sub W(2) b by (auto simp: reaped_def)
    next
      case (Inr m)
      with run True l \<open>r1 = Inr n\<close> p have "r = Inr ()" "w' = w2" by (auto simp: decode_utf8_def)
      moreover have "all_tasks ls zs W w2 = add_mset b (all_tasks ls zs W w1)"
        using redis_ok(1) [OF laws] p Inr key by (auto simp: all_tasks_def spec_defs add_key_frame)
      ultimately show ?thesis using gone sub i2 i1 by (simp add: reaped_def)
    qed
  qed
qed

lemma move_reaped:
  assumes laws: "redis_laws R ls zs" and W: "finite W" "worker \<in> W" and b: "b \<in> set (inflight ls worker w)"
    and run: "(if dlq then reap_to_dlq R (inflight_key worker) b else move_to_ready R worker b) w = (r, w')"
  shows "reaped ls zs W w r w' \<and> (\<forall>u. r = Inr u \<longrightarrow> inflight ls worker w' = remove1 b (inflight ls worker w))"
  using move_item_reaped [OF laws W b, of "if dlq then QUEUE_DLQ else QUEUE_READY" r w'] run
  by (cases dlq) (simp_all add: reap_to_dlq_def move_to_ready_def move_to_dlq_def)

lemma metric_views: "metric n l w = (r, w') \<Longrightarrow> r = Inr () \<and> w_redis w' = w_redis w"
  by (auto simp: metric_def)

text \<open>One task: it stays where it is, or it is moved.\<close>

lemma reap_item_reaped:
  assumes laws: "redis_laws R ls zs" and W: "finite W" "worker \<in> W" and b: "b \<in> set (inflight ls worker w)"
    and run: "reap_item R loads to_float now timeout (inflight_key worker) worker b n w = (r, w')"
  shows "reaped ls zs W w r w' \<and>
    (\<forall>m. r = Inr m \<longrightarrow> inflight ls worker w' \<in> {inflight ls worker w, remove1 b (inflight ls worker w)})"
proof -
  let ?move = "\<lambda>dlq. if dlq then reap_to_dlq R (inflight_key worker) b else move_to_ready R worker b"
  let ?met = "metric ''queue_reaper_reclaimed_total'' [] :: ('a, unit) sexec"
  have stay: ?thesis if "w' = w" using that by (auto intro: reaped_same)
  have moved: ?thesis if "bindE (?move dlq) (\<lambda>_. k) w = (r, w')" "\<And>v. k v = (Inr m, v) \<or> k v = (Inr m, snd (?met v))" for dlq k m
    using that(1)
  proof (cases rule: bindE_cases)
    case (raised e)
    with move_reaped [OF laws W b raised(1)] show ?thesis by (auto intro: reaped_result)
  next
    case (bound u w1)
    then have w': "r = Inr m" "w' = w1 \<or> w' = snd (?met w1)" using that(2) [of w1] by auto
    then have "w_redis w' = w_redis w1" by (auto simp: metric_def)
    with move_reaped [OF laws W b bound(1)] w' show ?thesis by (auto simp: reaped_def inflight_def all_tasks_def)
  qed
  show ?thesis
  proof (cases "loads b")
    case (Inl e)
    show ?thesis
    proof (cases "is_value_error e")
      case True
      with run Inl have "bindE (?move True) (\<lambda>_. returnE (n + 1)) w = (r, w')" by (simp add: reap_item_def)
      then show ?thesis by (rule moved [where m = "n + 1"]) simp
    next
      case False
      with run Inl have "w' = w" by (simp add: reap_item_def)
      then show ?thesis by (rule stay)
    qed
  next
    case (Inr v)
    show ?thesis
    proof (cases "\<exists>d. v = JObj d")
      case False
      with run Inr have "w' = w" by (cases v) (auto simp: reap_item_def as_dict_def)
      then show ?thesis by (rule stay)
    next
      case True
      then obtain d where v: "v = JObj d" by blast
      let ?k = "bindE ?met (\<lambda>_. returnE (n + 1))"
      have met: "?k v = (Inr (n + 1), snd (?met v))" for v by (simp add: metric_def)
      show ?thesis
      proof (cases "dict_get_or d ''claimed_at'' JNull = JNull")
        case True
        with run Inr v have "bindE (?move False) (\<lambda>_. ?k) w = (r, w')" by (simp add: reap_item_def as_dict_def)
        then show ?thesis by (rule moved [where m = "n + 1"]) (simp add: met)
      next
        case old: False
        show ?thesis
        proof (cases "json_float to_float (dict_get_or d ''claimed_at'' JNull)")
          case (Inl e)
          with run Inr v old have "w' = w" by (simp add: reap_item_def as_dict_def liftE_def Let_def)
          then show ?thesis by (rule stay)
        next
          case (Inr c)
          let ?ge = "json_ge (dict_get_or d ''attempt_number'' (JInt 1)) (dict_get_or d ''max_attempts'' (JInt 3))"
          from run \<open>loads b = Inr v\<close> v old Inr have run': "(if now - c > of_int timeout
              then bindE (liftE ?ge) (\<lambda>x. bindE (?move x) (\<lambda>_. ?k)) else returnE n) w = (r, w')"
            by (simp add: reap_item_def as_dict_def liftE_def Let_def)
          show ?thesis
          proof (cases "now - c > of_int timeout \<and> (\<exists>x. ?ge = Inr x)")
            case True
            with run' obtain x where "bindE (?move x) (\<lambda>_. ?k) w = (r, w')" by (auto simp: liftE_def)
            then show ?thesis by (rule moved [where m = "n + 1"]) (simp add: met)
          next
            case False
            with run' have "w' = w" by (auto simp: liftE_def split: if_splits sum.splits)
            then show ?thesis by (rule stay)
          qed
        qed
      qed
    qed
  qed
qed


lemma reap_items_reaped:
  assumes laws: "redis_laws R ls zs" and W: "finite W" "worker \<in> W"
  shows "mset items \<subseteq># mset (inflight ls worker w) \<Longrightarrow>
    foldE items (reap_item R loads to_float now timeout (inflight_key worker) worker) n w = (r, w') \<Longrightarrow>
    reaped ls zs W w r w'"
proof (induction items arbitrary: n w)
  case Nil
  then show ?case by (auto intro: reaped_same)
next
  case (Cons b items)
  have b: "b \<in> set (inflight ls worker w)"
    using Cons.prems(1) by (metis insert_DiffM insert_subset_eq_iff list.set_intros(1) mset.simps(2) set_mset_mset)
  from Cons.prems(2) have run: "bindE (reap_item R loads to_float now timeout (inflight_key worker) worker b n)
      (foldE items (reap_item R loads to_float now timeout (inflight_key worker) worker)) w = (r, w')" by simp
  from run show ?case
  proof (cases rule: bindE_cases)
    case (raised e)
    with reap_item_reaped [OF laws W b raised(1)] show ?thesis by (auto intro: reaped_result)
  next
    case (bound n1 w1)
    note t = reap_item_reaped [OF laws W b bound(1)]
    have "mset items \<subseteq># mset (inflight ls worker w1)"
    proof -
      have "add_mset b (mset items) \<subseteq># mset (inflight ls worker w)" using Cons.prems(1) by simp
      then have "mset items \<subseteq># mset (inflight ls worker w) - {#b#}" by (simp add: insert_subset_eq_iff)
      moreover have "mset (remove1 b (inflight ls worker w)) = mset (inflight ls worker w) - {#b#}" by simp
      moreover have "mset (inflight ls worker w) - {#b#} \<subseteq># mset (inflight ls worker w)" by simp
      ultimately show ?thesis using t subset_mset.order_trans by (metis insertE singletonD)
    qed
    from Cons.IH [OF this bound(2)] t show ?thesis by (auto intro: reaped_then)
  qed
qed

text \<open>Over all keys the scan reports: the workers with tasks in flight are all in \<open>W\<close>.\<close>

lemma reap_keys_reaped:
  assumes laws: "redis_laws R ls zs" and W: "finite W"
    and keys: "\<And>kb. kb \<in> set keys \<Longrightarrow> \<exists>k \<in> W. kb = utf8 (inflight_key k)"
    and run: "foldE keys (reap_key R loads to_float now timeout) n w = (r, w')"
  shows "reaped ls zs W w r w'"
  using keys run
proof (induction keys arbitrary: n w)
  case Nil
  then show ?case by (auto intro: reaped_same)
next
  case (Cons kb keys)
  from Cons.prems(1) [of kb] obtain worker where k: "worker \<in> W" "kb = utf8 (inflight_key worker)" by auto
  have pre: "remove_prefix QUEUE_INFLIGHT_PREFIX (inflight_key worker) = worker"
    by (simp add: remove_prefix_def inflight_key_def)
  let ?fold = "\<lambda>items. foldE items (reap_item R loads to_float now timeout (inflight_key worker) worker)"
  have one: "reaped ls zs W v r1 v1" if "reap_key R loads to_float now timeout kb n v = (r1, v1)" for v r1 v1 n
  proof -
    from that k(2) pre have "bindE (redisE (r_lrange R (inflight_key worker) 0 (- 1))) (\<lambda>items. ?fold items n) v = (r1, v1)"
      by (simp add: reap_key_def)
    then show ?thesis
    proof (cases rule: bindE_cases)
      case (raised e)
      with redisE_effect [OF redis_lawsD(4) [OF laws] raised(1)] show ?thesis by (auto intro: reaped_same)
    next
      case (bound items v0)
      note lr = redis_ok(4) [OF laws bound(1)]
      have "items = inflight ls worker v0" using lr by (auto simp: spec_defs inflight_def py_lrange_def Let_def)
      then have "reaped ls zs W v0 r1 v1" using reap_items_reaped [OF laws W k(1) _ bound(2)] by simp
      moreover have "reaped ls zs W v (Inr ()) v0" using lr by (auto simp: spec_defs intro: reaped_same)
      ultimately show ?thesis by (rule reaped_then [rotated])
    qed
  qed
  from Cons.prems(2) have run: "bindE (reap_key R loads to_float now timeout kb n)
      (foldE keys (reap_key R loads to_float now timeout)) w = (r, w')" by simp
  from run show ?case
  proof (cases rule: bindE_cases)
    case (raised e)
    with one [OF raised(1)] show ?thesis by (auto intro: reaped_result)
  next
    case (bound n1 w1)
    have "reaped ls zs W w1 r w'" using Cons.IH [OF _ bound(2)] Cons.prems(1) by simp
    with one [OF bound(1)] show ?thesis by (rule reaped_then)
  qed
qed

lemma reap_stuck_tasks_reaped:
  assumes laws: "redis_laws R ls zs" and W: "finite W"
    and known: "\<And>k. inflight ls k w \<noteq> [] \<Longrightarrow> k \<in> W"
    and run: "reap_stuck_tasks R loads to_float timeout w = (r, w')"
  shows "reaped ls zs W w r w'"
  using run unfolding reap_stuck_tasks_def
proof (cases rule: bindE_cases)
  case (raised e)
  with redisE_effect [OF redis_lawsD(7) [OF laws] raised(1)] show ?thesis by (auto intro: reaped_same)
next
  case (bound keys w1)
  then obtain t w2 where t: "now_utc w1 = (Inr t, w2)"
    and f: "foldE keys (reap_key R loads to_float (of_int t / 1000000) timeout) 0 w2 = (r, w')"
    by (auto simp: now_utc_def)
  note sc = redis_ok(7) [OF laws bound(1)]
  have w2: "w_redis w2 = w_redis w1" using t by (auto simp: now_utc_def)
  have keys: "\<exists>k \<in> W. kb = utf8 (inflight_key k)" if "kb \<in> set keys" for kb
  proof -
    from that sc obtain k where k: "kb = utf8 k" "ls (w_redis w) k \<noteq> []"
      "take (length QUEUE_INFLIGHT_PREFIX) k = QUEUE_INFLIGHT_PREFIX" by (auto simp: spec_defs)
    let ?worker = "remove_prefix QUEUE_INFLIGHT_PREFIX k"
    have ik: "inflight_key ?worker = k" using inflight_key_prefix [OF k(3)] .
    then have "?worker \<in> W" using known [of ?worker] k(2) by (simp add: inflight_def)
    with k(1) ik show ?thesis by force
  qed
  have "reaped ls zs W w (Inr ()) w2" using sc w2 by (auto simp: spec_defs intro: reaped_same)
  then show ?thesis using reap_keys_reaped [OF laws W keys f] by (rule reaped_then)
qed

text \<open>
  The threshold for dead letters: the tasks the program itself writes carry no
  \<open>max_attempts\<close> and at most attempt number 1, so that the comparison is always with the
  default 3.
\<close>

lemma relayed_below_threshold:
  assumes "dict_get payload ''max_attempts'' = None"
    "dict_get payload ''attempt_number'' \<in> {None, Some (JInt 1)}"
  shows "json_ge (dict_get_or (relay_payload fr payload t) ''attempt_number'' (JInt 1))
     (dict_get_or (relay_payload fr payload t) ''max_attempts'' (JInt 3)) = Inr False"
  using assms dict_get_set [of payload "''claimed_at''" "JStr (fr (of_int t / 1000000))"]
  by (auto simp: relay_payload_def dict_get_or_def dict_get_def number_ge_def json_number_def)

section \<open>The relay delivers before it marks\<close>

definition queued_task :: "'r list_view \<Rightarrow> 'r zset_view \<Rightarrow> bytes \<Rightarrow> 'r sysworld \<Rightarrow> bool" where
  "queued_task ls zs b w \<longleftrightarrow> b \<in> set (waiting ls w) \<or> delayed zs w b \<noteq> None"

abbreviation relay_bytes :: "'r sysworld \<Rightarrow> TasksOutboxModel \<Rightarrow> time \<Rightarrow> bytes" where
  "relay_bytes w entry t \<equiv> task_bytes (w_float_repr w) (relay_payload (w_float_repr w) (obx_payload entry) t)"

abbreviation relay_push :: "'r redis_api \<Rightarrow> time \<Rightarrow> TasksOutboxModel \<Rightarrow> dict \<Rightarrow> ('r, int) sexec" where
  "relay_push R now entry payload \<equiv> (if obx_scheduled_for entry \<le> now then enqueue R payload
     else schedule R payload (obx_scheduled_for entry))"

definition mark_rows :: "int \<Rightarrow> time \<Rightarrow> db \<Rightarrow> db" where
  "mark_rows i t d = d\<lparr>tasks_outbox := map_where (\<lambda>ob. obx_outbox_id ob = i)
     (\<lambda>ob. ob\<lparr>obx_enqueued_at := Some t\<rparr>) (tasks_outbox d)\<rparr>"

definition fail_rows :: "int \<Rightarrow> string \<Rightarrow> db \<Rightarrow> db" where
  "fail_rows i err d = d\<lparr>tasks_outbox := map_where (\<lambda>ob. obx_outbox_id ob = i)
     (\<lambda>ob. ob\<lparr>obx_attempts := obx_attempts ob + 1, obx_last_error := Some err\<rparr>) (tasks_outbox d)\<rparr>"

lemma mark_enqueued_run: "\<exists>ok. outbox_mark_enqueued i t w = (Inr ok, w\<lparr>w_db := mark_rows i t (w_db w)\<rparr>)"
  by (simp add: outbox_mark_enqueued_def mark_rows_def)

lemma increment_cases:
  assumes "outbox_increment_attempts i err w = (r, w')"
  obtains "r = Inr ()" "w' = w\<lparr>w_db := fail_rows i err (w_db w)\<rparr>" | c where "r = Inl (IntegrityError c)" "w' = w"
  using assms unfolding outbox_increment_attempts_def Let_def
  by (elim checked_cases) (auto simp: fail_rows_def)

lemma relay_push_effect:
  assumes laws: "redis_laws R ls zs" and run: "relay_push R now entry p w = (r, w')"
  shows "w' = w\<lparr>w_redis := w_redis w'\<rparr> \<and> (\<forall>b. queued_task ls zs b w \<longrightarrow> queued_task ls zs b w') \<and>
    (r \<in> range Inr \<longrightarrow> queued_task ls zs (task_bytes (w_float_repr w) p) w')"
proof (cases "obx_scheduled_for entry \<le> now")
  case True
  with run have m: "redisE (r_lpush R QUEUE_READY (task_bytes (w_float_repr w) p)) w = (r, w')"
    by (simp add: enqueue_def)
  show ?thesis using redisE_frame [OF m] redisE_effect [OF redis_lawsD(1) [OF laws] m]
    by (cases r) (auto simp: queued_task_def waiting_def delayed_def spec_defs)
next
  case False
  with run have m: "redisE (r_zadd R QUEUE_DELAYED (task_bytes (w_float_repr w) p)
      (epoch_ms (obx_scheduled_for entry))) w = (r, w')"
    by (simp add: schedule_def)
  show ?thesis using redisE_frame [OF m] redisE_effect [OF redis_lawsD(5) [OF laws] m]
    by (cases r) (auto simp: queued_task_def waiting_def delayed_def spec_defs)
qed

text \<open>One entry: delivered and marked, or not delivered and counted, or the count is refused.\<close>

lemma relay_entry_cases:
  assumes laws: "redis_laws R ls zs" and run: "relay_entry R now entry n w = (r, w')"
  obtains (delivered) t where "r = Inr (n + 1)" "w_db w' = mark_rows (obx_outbox_id entry) now (w_db w)"
      "queued_task ls zs (relay_bytes w entry t) w'" "\<And>b. queued_task ls zs b w \<Longrightarrow> queued_task ls zs b w'"
      "w_float_repr w' = w_float_repr w"
  | (failed) err where "r = Inr n" "w_db w' = fail_rows (obx_outbox_id entry) err (w_db w)"
      "\<And>b. queued_task ls zs b w \<Longrightarrow> queued_task ls zs b w'" "w_float_repr w' = w_float_repr w"
  | (refused) c where "r = Inl (IntegrityError c)"
proof -
  let ?t = "w_now w (w_now_n w)" and ?w1 = "w\<lparr>w_now_n := Suc (w_now_n w)\<rparr>"
  obtain r2 w2 where push: "relay_push R now entry (relay_payload (w_float_repr w) (obx_payload entry) ?t) ?w1 = (r2, w2)"
    by fastforce
  note p = relay_push_effect [OF laws push]
  have views: "queued_task ls zs b ?w1 = queued_task ls zs b w" for b
    by (simp add: queued_task_def waiting_def delayed_def)
  obtain srv where w2: "w2 = ?w1\<lparr>w_redis := srv\<rparr>" using p by blast
  then have db: "w_db w2 = w_db w" "w_float_repr w2 = w_float_repr w" by simp_all
  show ?thesis
  proof (cases r2)
    case (Inr a)
    obtain ok where ok: "outbox_mark_enqueued (obx_outbox_id entry) now w2 =
        (Inr ok, w2\<lparr>w_db := mark_rows (obx_outbox_id entry) now (w_db w2)\<rparr>)" using mark_enqueued_run by blast
    have eq: "r = Inr (n + 1)" "w_db w' = mark_rows (obx_outbox_id entry) now (w_db w)" "w_redis w' = w_redis w2"
        "w_float_repr w' = w_float_repr w2"
      using run push Inr ok db by (auto simp: relay_entry_def Let_def now_utc_def catchE_def bindE_def metric_def)
    have "queued_task ls zs b w' = queued_task ls zs b w2" for b
      using eq(3) by (simp add: queued_task_def waiting_def delayed_def)
    then show ?thesis using delivered [of ?t] eq p Inr views db by auto
  next
    case (Inl e)
    then have run': "bindE (outbox_increment_attempts (obx_outbox_id entry) (exn_str e)) (\<lambda>_. returnE n) w2 = (r, w')"
      using run push by (simp add: relay_entry_def Let_def now_utc_def)
    obtain r3 w3 where inc: "outbox_increment_attempts (obx_outbox_id entry) (exn_str e) w2 = (r3, w3)" by fastforce
    then show ?thesis
    proof (cases rule: increment_cases)
      case 1
      then have eq: "r = Inr n" "w' = w2\<lparr>w_db := fail_rows (obx_outbox_id entry) (exn_str e) (w_db w)\<rparr>"
        using run' inc db by auto
      then have "queued_task ls zs b w' = queued_task ls zs b w2" for b
        by (simp add: queued_task_def waiting_def delayed_def)
      then show ?thesis using failed [of "exn_str e"] eq p views db by auto
    next
      case (2 c)
      then show ?thesis using run' inc refused by auto
    qed
  qed
qed

text \<open>What holds of the rows while a batch runs: \<open>d0\<close> is the database at its start.\<close>

definition relay_inv :: "'r list_view \<Rightarrow> 'r zset_view \<Rightarrow> db \<Rightarrow> 'r sysworld \<Rightarrow> bool" where
  "relay_inv ls zs d0 w \<longleftrightarrow> (\<forall>ob \<in> set (tasks_outbox (w_db w)). \<exists>ob0 \<in> set (tasks_outbox d0).
     obx_outbox_id ob0 = obx_outbox_id ob \<and> obx_payload ob0 = obx_payload ob \<and>
     (obx_enqueued_at ob \<noteq> None \<longrightarrow> obx_enqueued_at ob0 \<noteq> None \<or> (\<exists>t. queued_task ls zs (relay_bytes w ob t) w)))"

lemma relay_entry_inv:
  assumes laws: "redis_laws R ls zs" and run: "relay_entry R now entry n w = (Inr m, w')"
    and inv: "relay_inv ls zs d0 w" and e: "entry \<in> set (tasks_outbox d0)"
    and dist: "distinct (map obx_outbox_id (tasks_outbox d0))"
  shows "relay_inv ls zs d0 w'"
  using laws run
proof (cases rule: relay_entry_cases)
  case (delivered t)
  have same: "obx_payload ob0 = obx_payload entry"
    if "ob0 \<in> set (tasks_outbox d0)" "obx_outbox_id ob0 = obx_outbox_id entry" for ob0
    using that e dist by (metis eq_key_imp_eq_value inj_on_contraD distinct_map)
  show ?thesis unfolding relay_inv_def
  proof
    fix ob assume "ob \<in> set (tasks_outbox (w_db w'))"
    then obtain x where x: "x \<in> set (tasks_outbox (w_db w))"
      "ob = (if obx_outbox_id x = obx_outbox_id entry then x\<lparr>obx_enqueued_at := Some now\<rparr> else x)"
      by (auto simp: delivered mark_rows_def map_where_def)
    from inv x(1) obtain ob0 where ob0: "ob0 \<in> set (tasks_outbox d0)" "obx_outbox_id ob0 = obx_outbox_id x"
      "obx_payload ob0 = obx_payload x"
      "obx_enqueued_at x \<noteq> None \<longrightarrow> obx_enqueued_at ob0 \<noteq> None \<or> (\<exists>t. queued_task ls zs (relay_bytes w x t) w)"
      unfolding relay_inv_def by blast
    have "obx_outbox_id x = obx_outbox_id entry \<Longrightarrow> obx_payload x = obx_payload entry" using same ob0 by metis
    then show "\<exists>ob0 \<in> set (tasks_outbox d0). obx_outbox_id ob0 = obx_outbox_id ob \<and> obx_payload ob0 = obx_payload ob \<and>
     (obx_enqueued_at ob \<noteq> None \<longrightarrow> obx_enqueued_at ob0 \<noteq> None \<or> (\<exists>t. queued_task ls zs (relay_bytes w' ob t) w'))"
      using ob0 x(2) delivered(3-5) by (intro bexI [of _ ob0]) (auto split: if_splits)
  qed
next
  case (failed err)
  show ?thesis unfolding relay_inv_def
  proof
    fix ob assume "ob \<in> set (tasks_outbox (w_db w'))"
    then obtain x where x: "x \<in> set (tasks_outbox (w_db w))" "obx_outbox_id ob = obx_outbox_id x"
      "obx_payload ob = obx_payload x" "obx_enqueued_at ob = obx_enqueued_at x"
      by (auto simp: failed fail_rows_def map_where_def split: if_splits)
    with inv failed show "\<exists>ob0 \<in> set (tasks_outbox d0). obx_outbox_id ob0 = obx_outbox_id ob \<and> obx_payload ob0 = obx_payload ob \<and>
     (obx_enqueued_at ob \<noteq> None \<longrightarrow> obx_enqueued_at ob0 \<noteq> None \<or> (\<exists>t. queued_task ls zs (relay_bytes w' ob t) w'))"
      unfolding relay_inv_def by metis
  qed
qed simp

lemma relay_fold_inv:
  assumes laws: "redis_laws R ls zs" and dist: "distinct (map obx_outbox_id (tasks_outbox d0))"
  shows "foldE es (relay_entry R now) n w = (Inr m, w') \<Longrightarrow> set es \<subseteq> set (tasks_outbox d0) \<Longrightarrow>
    relay_inv ls zs d0 w \<Longrightarrow> relay_inv ls zs d0 w'"
proof (induction es arbitrary: n w)
  case (Cons e es)
  from Cons.prems(1) obtain n1 w1 where "relay_entry R now e n w = (Inr n1, w1)" "foldE es (relay_entry R now) n1 w1 = (Inr m, w')"
    by (auto elim: bindE_InrD)
  with Cons.IH Cons.prems(2,3) relay_entry_inv [OF laws _ _ _ dist] show ?case by auto
qed simp

text \<open>
  After a batch, whatever its end: a row marked as enqueued was so before, or its task is in
  the ready or the delayed queue.
\<close>

lemma relay_batch_marks:
  assumes laws: "redis_laws R ls zs" and wf: "world_wf w"
    and run: "relay_batch R acquired w = (r, w')"
    and ob: "ob \<in> set (tasks_outbox (w_db w'))" "obx_enqueued_at ob \<noteq> None"
  shows "(\<exists>ob0 \<in> set (tasks_outbox (w_db w)). obx_outbox_id ob0 = obx_outbox_id ob \<and> obx_enqueued_at ob0 \<noteq> None) \<or>
    (\<exists>t. queued_task ls zs (relay_bytes w' ob t) w')"
proof -
  let ?d0 = "w_db w" and ?w1 = "w\<lparr>w_now_n := Suc (w_now_n w)\<rparr>" and ?now = "w_now w (w_now_n w)"
  let ?body = "bindE now_utc (\<lambda>now. bindE (outbox_get_pending 100 None) (\<lambda>pending. foldE pending (relay_entry R now) 0)) :: ('a, int) sexec"
  have dist: "distinct (map obx_outbox_id (tasks_outbox ?d0))" using wf by (simp add: db_wf_defs)
  show ?thesis
  proof (cases acquired)
    case False
    with run ob show ?thesis by (auto simp: relay_batch_def)
  next
    case acq: True
    show ?thesis
    proof (cases "?body w")
      case (Pair r1 w2)
      show ?thesis
      proof (cases r1)
        case (Inl e)
        with Pair acq run have "w_db w' = ?d0" by (auto simp: relay_batch_def session_scope_def)
        with ob show ?thesis by auto
      next
        case (Inr m)
        with Pair acq run have w': "w_db w' = w_db w2" "w_redis w' = w_redis w2" "w_float_repr w' = w_float_repr w2"
          by (auto simp: relay_batch_def session_scope_def metric_def split: if_splits)
        let ?es = "take 100 (sort_key obx_outbox_id (filter (\<lambda>ob. obx_enqueued_at ob = None) (tasks_outbox ?d0)))"
        have es: "foldE ?es (relay_entry R ?now) 0 ?w1 = (Inr m, w2)"
          using Pair Inr by (simp add: now_utc_def outbox_get_pending_def)
        have sub: "set ?es \<subseteq> set (tasks_outbox ?d0)" by (auto dest: in_set_takeD)
        have "relay_inv ls zs ?d0 ?w1" by (auto simp: relay_inv_def)
        then have "relay_inv ls zs ?d0 w2" using relay_fold_inv [OF laws dist es sub] by blast
        with ob w' show ?thesis by (force simp: relay_inv_def queued_task_def waiting_def delayed_def)
      qed
    qed
  qed
qed

section \<open>A task leaves the queue when its outcome is recorded\<close>

text \<open>The rows after an outcome has been written.\<close>

definition outcome_state :: "outcome \<Rightarrow> StepState" where
  "outcome_state oc = (if oc_status oc = ''success'' then succeeded
     else if oc_status oc = ''fail_retryable'' then failed_retryable else failed_terminal)"

lemma run_handler_status:
  assumes "run_handler handlers name ctx w = (Inr oc, w')"
  shows "oc_status oc \<in> {''success'', ''fail_retryable'', ''fail_terminal''}"
  using assms unfolding run_handler_def
  by (auto simp: outcome_of_def catchE_def split: sum.splits option.splits prod.splits if_splits elim!: bindE_InrD)

lemma execute_status:
  "execute_step_handler handlers loads name r s a payload w = (Inr oc, w') \<Longrightarrow>
     oc_status oc \<in> {''success'', ''fail_retryable'', ''fail_terminal''}"
  unfolding execute_step_handler_def by (elim bindE_InrD) (rule run_handler_status)

lemma write_outcome_ok:
  assumes run: "write_outcome text_param worker wn sn rid sid aid oc now w = (Inr u, w')"
    and st: "oc_status oc \<in> {''success'', ''fail_retryable'', ''fail_terminal''}"
  shows "\<exists>fa fs m. (\<forall>a. att_state (fa a) = outcome_state oc \<and> att_step_attempt_id (fa a) = att_step_attempt_id a) \<and>
    (\<forall>s. stp_state (fs s) = outcome_state oc \<and> stp_step_id (fs s) = stp_step_id s) \<and>
    evt_workflow_run_id m = rid \<and> evt_actor m = worker_actor worker \<and>
    evt_event_type m = ''step_attempt.'' @ step_state_value (outcome_state oc) \<and>
    evt_step_attempt_id m = Some aid \<and>
    w_db w' = add_event m (upd_step sid fs ((w_db w)\<lparr>step_attempts :=
      map_where (\<lambda>a. att_step_attempt_id a = aid) fa (step_attempts (w_db w))\<rparr>))"
proof -
  consider "oc_status oc = ''success''" | "oc_status oc = ''fail_retryable''" | "oc_status oc = ''fail_terminal''"
    using st by auto
  then show ?thesis
  proof cases
    case 1
    with run obtain v w0 w1 w2 w3 m where
      "update_attempt aid (\<lambda>a. a\<lparr>att_state := succeeded, att_ended_at := Some now, att_output_ref := v\<rparr>) w0 = (Inr (), w1)"
      and w0: "w0 = w"
      and "update_step sid (\<lambda>s. s\<lparr>stp_state := succeeded, stp_ended_at := Some now\<rparr>) w1 = (Inr (), w2)"
      "append_audit_event rid ''step_attempt.succeeded'' (worker_actor worker)
         [(''step_name'', sn), (''outcome'', JStr ''success'')] (Some sid) (Some aid) w2 = (Inr m, w3)"
      "w_db w' = w_db w3"
      by (auto simp: write_outcome_def Let_def metric_def liftE_def split: option.splits sum.splits elim!: bindE_InrD)
    then show ?thesis using 1
      by (intro exI [of _ "\<lambda>a. a\<lparr>att_state := succeeded, att_ended_at := Some now, att_output_ref := v\<rparr>"]
            exI [of _ "\<lambda>s. s\<lparr>stp_state := succeeded, stp_ended_at := Some now\<rparr>"] exI [of _ m])
        (auto simp: outcome_state_def dest!: run_ok)
  next
    case 2
    with run obtain f w1 w2 w3 m where
      "update_attempt aid (\<lambda>a. a\<lparr>att_state := failed_retryable, att_ended_at := Some now,
         att_error_code := oc_error_code oc, att_error_detail := oc_error_detail oc\<rparr>) w = (Inr (), w1)"
      "update_step sid (\<lambda>s. s\<lparr>stp_state := failed_retryable\<rparr>) w1 = (Inr (), w2)"
      "append_audit_event rid ''step_attempt.failed_retryable'' (worker_actor worker) f (Some sid) (Some aid) w2 = (Inr m, w3)"
      "w_db w' = w_db w3"
      by (auto simp: write_outcome_def Let_def metric_def elim!: bindE_InrD)
    then show ?thesis using 2
      by (intro exI [of _ "\<lambda>a. a\<lparr>att_state := failed_retryable, att_ended_at := Some now,
         att_error_code := oc_error_code oc, att_error_detail := oc_error_detail oc\<rparr>"]
            exI [of _ "\<lambda>s. s\<lparr>stp_state := failed_retryable\<rparr>"] exI [of _ m])
        (auto simp: outcome_state_def dest!: run_ok)
  next
    case 3
    with run obtain f w1 w2 w3 m where
      "update_attempt aid (\<lambda>a. a\<lparr>att_state := failed_terminal, att_ended_at := Some now,
         att_error_code := oc_error_code oc, att_error_detail := oc_error_detail oc\<rparr>) w = (Inr (), w1)"
      "update_step sid (\<lambda>s. s\<lparr>stp_state := failed_terminal, stp_ended_at := Some now\<rparr>) w1 = (Inr (), w2)"
      "append_audit_event rid ''step_attempt.failed_terminal'' (worker_actor worker) f (Some sid) (Some aid) w2 = (Inr m, w3)"
      "w_db w' = w_db w3"
      by (auto simp: write_outcome_def Let_def metric_def elim!: bindE_InrD)
    then show ?thesis using 3
      by (intro exI [of _ "\<lambda>a. a\<lparr>att_state := failed_terminal, att_ended_at := Some now,
         att_error_code := oc_error_code oc, att_error_detail := oc_error_detail oc\<rparr>"]
            exI [of _ "\<lambda>s. s\<lparr>stp_state := failed_terminal, stp_ended_at := Some now\<rparr>"] exI [of _ m])
        (auto simp: outcome_state_def dest!: run_ok)
  qed
qed

lemma all_tasks_server: "w_redis w' = w_redis w \<Longrightarrow> all_tasks ls zs W w' = all_tasks ls zs W w"
  by (simp add: all_tasks_def)

lemma server_kept [keeps_intros]:
  "keeps (\<lambda>w. w_redis w = x) now_utc" "keeps (\<lambda>w. w_redis w = x) urandom10" "keeps (\<lambda>w. w_redis w = x) (metric n l)"
  "keeps (\<lambda>w. w_redis w = x) (update_attempt i f)" "keeps (\<lambda>w. w_redis w = x) (update_step i g)"
  "keeps (\<lambda>w. w_redis w = x) (insert_audit_event ev)"
  unfolding update_attempt_def update_step_def insert_audit_event_def
  by (simp_all add: keeps_def now_utc_def urandom10_def metric_def check_constraints_run bindE_def split: option.split)

lemma append_server [keeps_intros]: "keeps (\<lambda>w. w_redis w = x) (append_audit_event i et actor p s sa)"
  unfolding append_audit_event_def audit_get_latest_for_run_def uuid7_def audit_append_def
  by (intro keeps_intros)

lemma write_outcome_server [keeps_intros]:
  "keeps (\<lambda>w. w_redis w = x) (write_outcome text_param worker wn sn r s a oc now)"
  unfolding write_outcome_def Let_def by (intro keeps_intros)

lemma execute_server:
  assumes "read_only handlers"
  shows "keeps (\<lambda>w. w_redis w = x) (execute_step_handler handlers loads name r s a payload)"
proof -
  have "keeps (\<lambda>w. w_redis w = x) (run_handler handlers n ctx)" for n ctx
    by (rule keepsI) (auto dest: run_handler_frame [OF assms])
  then show ?thesis
    unfolding execute_step_handler_def load_previous_outputs_def latest_output_def step_get_by_run_and_name_def
    by (intro keeps_intros)
qed

lemma run_attempt_server:
  assumes "read_only handlers"
  shows "keeps (\<lambda>w. w_redis w = x) (run_attempt handlers loads text_param worker payload rid sid aid name)"
  unfolding run_attempt_def by (intro keeps_intros execute_server assms)

text \<open>A recorded attempt: its row has the state of the outcome, and the event is in the log.\<close>

lemma execute_db:
  assumes "read_only handlers" "execute_step_handler handlers loads name r s a payload w = (res, w')"
  shows "w_db w' = w_db w"
proof -
  have "keeps (\<lambda>v. w_db v = w_db w) (run_handler handlers n ctx)" for n ctx
    by (rule keepsI) (auto dest: run_handler_frame [OF assms(1)])
  then have "keeps (\<lambda>v. w_db v = w_db w) (execute_step_handler handlers loads name r s a payload)"
    unfolding execute_step_handler_def load_previous_outputs_def latest_output_def step_get_by_run_and_name_def
    by (intro keeps_intros)
  from keepsD [OF this refl assms(2)] show ?thesis .
qed

definition attempt_ran :: "string \<Rightarrow> uuid \<Rightarrow> uuid \<Rightarrow> uuid \<Rightarrow> outcome \<Rightarrow> db \<Rightarrow> db \<Rightarrow> bool" where
  "attempt_ran worker rid sid aid oc d d' \<longleftrightarrow> (\<exists>fa fs m.
     (\<forall>a. att_state (fa a) = outcome_state oc \<and> att_step_attempt_id (fa a) = att_step_attempt_id a) \<and>
     (\<forall>s. stp_state (fs s) = outcome_state oc \<and> stp_step_id (fs s) = stp_step_id s) \<and>
     evt_workflow_run_id m = rid \<and> evt_actor m = worker_actor worker \<and>
     evt_event_type m = ''step_attempt.'' @ step_state_value (outcome_state oc) \<and>
     evt_step_attempt_id m = Some aid \<and>
     d' = add_event m (upd_step sid fs (d\<lparr>step_attempts :=
       map_where (\<lambda>a. att_step_attempt_id a = aid) fa (step_attempts d)\<rparr>)))"

lemma map_where_twice:
  assumes "\<And>x. p (f x) = p x"
  shows "map_where p g (map_where p f xs) = map_where p (\<lambda>x. g (f x)) xs"
  using assms by (auto simp: map_where_def)

lemma run_attempt_ok:
  assumes ro: "read_only handlers"
    and run: "run_attempt handlers loads text_param worker payload rid sid aid name w = (Inr res, w')"
  shows "\<exists>oc. res = Some oc \<and> attempt_ran worker rid sid aid oc (w_db w) (w_db w')"
proof -
  let ?f = "\<lambda>t a. a\<lparr>att_state := in_progress, att_started_at := Some t\<rparr>"
  from run obtain t w1 w2 oc w3 now w4 u where
    t: "now_utc w = (Inr t, w1)" and ua: "update_attempt aid (?f t) w1 = (Inr (), w2)"
    and ex: "execute_step_handler handlers loads name rid sid aid payload w2 = (Inr oc, w3)"
    and n: "now_utc w3 = (Inr now, w4)"
    and wo: "write_outcome text_param worker (dict_get_or payload ''workflow_name'' (JStr ''unknown''))
       (dict_get_or payload ''step_name'' (JStr ''unknown'')) rid sid aid oc now w4 = (Inr u, w')"
    and res: "res = Some oc"
    unfolding run_attempt_def by (auto elim!: bindE_InrD)
  have d: "w_db w4 = (w_db w)\<lparr>step_attempts := map_where (\<lambda>a. att_step_attempt_id a = aid) (?f t) (step_attempts (w_db w))\<rparr>"
    using draws_ok(2) [OF n] execute_db [OF ro ex] update_ok(3) [OF ua] draws_ok(2) [OF t] by simp
  from write_outcome_ok [OF wo execute_status [OF ex]] obtain fa fs m where
    o: "\<forall>a. att_state (fa a) = outcome_state oc \<and> att_step_attempt_id (fa a) = att_step_attempt_id a"
      "\<forall>s. stp_state (fs s) = outcome_state oc \<and> stp_step_id (fs s) = stp_step_id s"
      "evt_workflow_run_id m = rid" "evt_actor m = worker_actor worker"
      "evt_event_type m = ''step_attempt.'' @ step_state_value (outcome_state oc)" "evt_step_attempt_id m = Some aid"
    and db: "w_db w' = add_event m (upd_step sid fs ((w_db w4)\<lparr>step_attempts :=
      map_where (\<lambda>a. att_step_attempt_id a = aid) fa (step_attempts (w_db w4))\<rparr>))" by blast
  have "w_db w' = add_event m (upd_step sid fs ((w_db w)\<lparr>step_attempts :=
      map_where (\<lambda>a. att_step_attempt_id a = aid) (\<lambda>a. fa (?f t a)) (step_attempts (w_db w))\<rparr>))"
    unfolding db d by (simp add: map_where_twice)
  with o res show ?thesis unfolding attempt_ran_def
    by (intro exI [of _ oc] conjI exI [of _ "\<lambda>a. fa (?f t a)"] exI [of _ fs] exI [of _ m]) auto
qed

lemma ack_frame:
  assumes laws: "redis_laws R ls zs" and run: "ack R worker b w = (r, w')"
  shows "w_db w' = w_db w \<and> (\<forall>e. r = Inl e \<longrightarrow> all_tasks ls zs W w' = all_tasks ls zs W w)"
proof
  show "w_db w' = w_db w" using run by (auto simp: ack_def decode_utf8_def dest: redisE_db split: if_splits)
  show "\<forall>e. r = Inl e \<longrightarrow> all_tasks ls zs W w' = all_tasks ls zs W w"
    using run redisE_effect [OF redis_lawsD(3) [OF laws], of "inflight_key worker" b w r w']
    by (auto simp: ack_def decode_utf8_def all_tasks_def split: if_splits)
qed

lemma discard_tasks:
  assumes laws: "redis_laws R ls zs" and W: "finite W" "worker \<in> W"
    and b: "b \<in> set (inflight ls worker w)" and run: "discard_task R worker b w = (r, w')"
  shows "all_tasks ls zs W w \<subseteq># all_tasks ls zs W w' \<and> w_db w' = w_db w"
proof -
  obtain r1 w1 where dl: "move_to_dlq R b w = (r1, w1)" by fastforce
  have db1: "w_db w1 = w_db w" using dl by (auto simp: move_to_dlq_def dest: redisE_db)
  show ?thesis
  proof (cases r1)
    case (Inl e)
    with dl run db1 redisE_effect [OF redis_lawsD(1) [OF laws], of QUEUE_DLQ b w r1 w1]
    show ?thesis by (auto simp: discard_task_def move_to_dlq_def all_tasks_def)
  next
    case (Inr n)
    with dl have t1: "all_tasks ls zs W w1 = add_mset b (all_tasks ls zs W w)" using move_to_dlq_tasks [OF laws] by simp
    have b1: "b \<in> set (inflight ls worker w1)"
      using dl Inr b redis_ok(1) [OF laws, of QUEUE_DLQ b w n w1] by (simp add: move_to_dlq_def spec_defs inflight_def)
    obtain r2 w2 where ak: "ack R worker b w1 = (r2, w2)" by fastforce
    have w': "w' = w2" using run dl Inr ak by (cases r2) (auto simp: discard_task_def)
    note fr = ack_frame [OF laws ak, of W]
    show ?thesis
    proof (cases r2)
      case (Inl e)
      with t1 w' db1 fr show ?thesis by simp
    next
      case (Inr k)
      with ak ack_tasks [OF laws W b1] t1 w' db1 fr show ?thesis by simp
    qed
  qed
qed

text \<open>
  How a transaction ends: the attempt the payload names is run; or it was at an end before and
  nothing changes; or every task is still queued and nothing has changed.
\<close>

lemma found_attempt: "scalar_one_or_none (filter p xs) w = (Inr (Some a), w') \<Longrightarrow> a \<in> set xs \<and> p a"
  by (auto dest!: scalar_ok filter_single)

lemma task_transaction_cases:
  assumes laws: "redis_laws R ls zs" and W: "finite W" "worker \<in> W" and ro: "read_only handlers" and wf: "world_wf w"
    and b: "b \<in> set (inflight ls worker w)"
    and run: "task_transaction R handlers loads text_param worker payload b w = (r, w')"
  obtains (ran) oc rid sid a where "r = Inr (Some oc)" "attempt_ran worker rid sid (att_step_attempt_id a) oc (w_db w) (w_db w')"
      "a \<in> set (step_attempts (w_db w))" "w_redis w' = w_redis w"
      "uuid_field (dict_get_or payload ''step_attempt_id'' JNull) = Inr (Some (att_step_attempt_id a))"
  | (over) a where "w_db w' = w_db w" "a \<in> set (step_attempts (w_db w))" "att_state a \<in> set terminal_attempt_states"
      "uuid_field (dict_get_or payload ''step_attempt_id'' JNull) = Inr (Some (att_step_attempt_id a))"
      "r = Inr None \<or> (\<exists>e. r = Inl e \<and> all_tasks ls zs W w' = all_tasks ls zs W w)"
  | (kept) "\<And>oc. r \<noteq> Inr (Some oc)" "all_tasks ls zs W w \<subseteq># all_tasks ls zs W w'"
proof -
  let ?f = "\<lambda>k. uuid_field (dict_get_or payload k JNull)"
  let ?late = "(\<exists>oc rid sid a. r = Inr (Some oc) \<and> attempt_ran worker rid sid (att_step_attempt_id a) oc (w_db w) (w_db w') \<and>
      a \<in> set (step_attempts (w_db w)) \<and> w_redis w' = w_redis w \<and> ?f ''step_attempt_id'' = Inr (Some (att_step_attempt_id a))) \<or>
    (\<exists>a. w_db w' = w_db w \<and> a \<in> set (step_attempts (w_db w)) \<and> att_state a \<in> set terminal_attempt_states \<and>
      ?f ''step_attempt_id'' = Inr (Some (att_step_attempt_id a)) \<and>
      (r = Inr None \<or> (\<exists>e. r = Inl e \<and> all_tasks ls zs W w' = all_tasks ls zs W w))) \<or>
    ((\<forall>oc. r \<noteq> Inr (Some oc)) \<and> all_tasks ls zs W w \<subseteq># all_tasks ls zs W w')"
  have disc: ?late if "discard_task R worker b w = (r, w')"
  proof -
    have "r \<noteq> Inr (Some oc)" for oc using that by (auto simp: discard_task_def elim!: bindE_InrD)
    with discard_tasks [OF laws W b that] show ?thesis by blast
  qed
  have ?late
  proof (cases "?f ''step_attempt_id''"; cases "?f ''step_id''"; cases "?f ''workflow_run_id''")
    fix a1 s1 r1 assume f: "?f ''step_attempt_id'' = Inr a1" "?f ''step_id'' = Inr s1" "?f ''workflow_run_id'' = Inr r1"
    show ?late
    proof (cases "a1 = None \<or> s1 = None \<or> r1 = None")
      case True
      with run f have "discard_task R worker b w = (r, w')"
        by (auto simp: task_transaction_def liftE_def split: option.splits)
      then show ?thesis by (rule disc)
    next
      case False
      then obtain aid sid rid where ids: "a1 = Some aid" "s1 = Some sid" "r1 = Some rid" by auto
      let ?a = "find (\<lambda>a. att_step_attempt_id a = aid) (step_attempts (w_db w))"
        and ?s = "find (\<lambda>s. stp_step_id s = sid) (steps (w_db w))"
        and ?r = "find (\<lambda>r. run_workflow_run_id r = rid) (workflow_runs (w_db w))"
      show ?thesis
      proof (cases "?a = None \<or> ?s = None \<or> ?r = None")
        case True
        with run f ids wf have "discard_task R worker b w = (r, w')"
          by (auto simp: task_transaction_def liftE_def run_simps split: option.splits)
        then show ?thesis by (rule disc)
      next
        case False
        then obtain a s rn where rows: "?a = Some a" "?s = Some s" "?r = Some rn" by auto
        then have a: "a \<in> set (step_attempts (w_db w))" "att_step_attempt_id a = aid" by (auto dest: find_SomeD)
        show ?thesis
        proof (cases "att_state a \<in> set terminal_attempt_states")
          case True
          with run f ids wf rows have ak: "bindE (ack R worker b) (\<lambda>_. returnE None) w = (r, w')"
            by (simp add: task_transaction_def liftE_def run_simps)
          obtain r2 w2 where ak2: "ack R worker b w = (r2, w2)" by fastforce
          from ack_frame [OF laws ak2, of W] show ?thesis using a True f ids ak ak2 by (cases r2) auto
        next
          case False
          with run f ids wf rows have ra: "run_attempt handlers loads text_param worker payload rid sid aid (stp_step_name s) w = (r, w')"
            by (simp add: task_transaction_def liftE_def run_simps)
          then have red: "w_redis w' = w_redis w" using keepsD [OF run_attempt_server [OF ro] refl] by blast
          show ?thesis
          proof (cases r)
            case (Inl e)
            then show ?thesis using all_tasks_server [OF red] by auto
          next
            case (Inr res)
            with run_attempt_ok [OF ro] ra obtain oc where "res = Some oc" "attempt_ran worker rid sid aid oc (w_db w) (w_db w')"
              by blast
            with Inr a red f ids show ?thesis by blast
          qed
        qed
      qed
    qed
  qed (use run in \<open>auto simp: task_transaction_def liftE_def\<close>)
  then show ?thesis using ran over kept by blast
qed

text \<open>
  A task in flight is processed: either no task has left the queues, or the attempt it names is
  recorded as ended.
\<close>

definition attempt_ended :: "StepState list" where
  "attempt_ended = [succeeded, failed_retryable, failed_terminal, skipped]"

lemma ran_ended:
  assumes "attempt_ran worker rid sid (att_step_attempt_id a) oc d d'" "a \<in> set (step_attempts d)"
  shows "\<exists>a' \<in> set (step_attempts d'). att_step_attempt_id a' = att_step_attempt_id a \<and> att_state a' \<in> set attempt_ended"
  using assms by (force simp: attempt_ran_def map_where_def attempt_ended_def outcome_state_def)

lemma process_task_not_lost:
  assumes laws: "redis_laws R ls zs" and W: "finite W" "worker \<in> W" and ro: "read_only handlers" and wf: "world_wf w"
    and b: "b \<in> set (inflight ls worker w)"
    and run: "process_task R handlers loads text_param worker (JObj payload) b w = (r, w')"
  shows "all_tasks ls zs W w \<subseteq># all_tasks ls zs W w' \<or>
    (\<exists>a \<in> set (step_attempts (w_db w')). att_state a \<in> set attempt_ended \<and>
       uuid_field (dict_get_or payload ''step_attempt_id'' JNull) = Inr (Some (att_step_attempt_id a)))"
proof -
  let ?T = "task_transaction R handlers loads text_param worker payload b"
  obtain r1 w1 where t: "?T w = (r1, w1)" by fastforce
  show ?thesis
  proof (cases r1)
    case (Inl e)
    with t run have "w_redis w' = w_redis w1" and db: "w_db w' = w_db w"
      by (auto simp: process_task_def as_dict_def session_scope_def catchE_def bindE_def)
    then have same: "all_tasks ls zs W w' = all_tasks ls zs W w1" by (intro all_tasks_server)
    from laws W ro wf b t show ?thesis
      by (cases rule: task_transaction_cases) (use Inl same in auto)
  next
    case (Inr res)
    have db: "w_db w' = w_db w1"
    proof -
      have "keeps (\<lambda>v. w_db v = w_db w1) (ack R worker b)"
        unfolding ack_def decode_utf8_def by (auto intro!: keeps_intros redis_keeps_db)
      then have "keeps (\<lambda>v. w_db v = w_db w1) (case res of None \<Rightarrow> returnE ()
        | Some oc \<Rightarrow>
            bindE (ack R worker b) (\<lambda>_.
            bindE (readE w_float_repr) (\<lambda>fr.
            bindE (metric ''step_attempt_duration_seconds'' [py_str fr (dict_get_or payload ''workflow_name'' (JStr ''unknown'')),
              py_str fr (dict_get_or payload ''step_name'' (JStr ''unknown''))]) (\<lambda>_.
            metric ''queue_tasks_acked_total'' [py_str fr (dict_get_or payload ''workflow_name'' (JStr ''unknown'')),
              py_str fr (dict_get_or payload ''step_name'' (JStr ''unknown'')), oc_status oc]))))"
        by (intro keeps_intros draws_keep_db)
      from keepsD [OF this refl] show ?thesis using run t Inr
        by (auto simp: process_task_def as_dict_def session_scope_def Let_def catchE_def split: prod.splits sum.splits)
    qed
    from laws W ro wf b t show ?thesis
    proof (cases rule: task_transaction_cases)
      case (ran oc rid sid a)
      with ran_ended [OF ran(2,3)] db show ?thesis by auto
    next
      case (over a)
      then show ?thesis using db by (auto simp: attempt_ended_def terminal_attempt_states_def)
    next
      case kept
      with Inr have "res = None" by (cases res) auto
      with run t Inr have "w' = w1" by (simp add: process_task_def as_dict_def session_scope_def)
      with kept show ?thesis by simp
    qed
  qed
qed

text \<open>A task whose attempt has ended is acknowledged and changes nothing.\<close>

lemma process_task_again:
  assumes wf: "world_wf w" and up: "\<exists>n s. r_lrem1 R (inflight_key worker) b (w_redis w) = (Inr n, s)" and utf: "utf8_valid b"
    and f: "uuid_field (dict_get_or payload ''step_attempt_id'' JNull) = Inr (Some (att_step_attempt_id a))"
      "uuid_field (dict_get_or payload ''step_id'' JNull) = Inr (Some (stp_step_id s))"
      "uuid_field (dict_get_or payload ''workflow_run_id'' JNull) = Inr (Some (run_workflow_run_id rn))"
    and rows: "a \<in> set (step_attempts (w_db w))" "s \<in> set (steps (w_db w))" "rn \<in> set (workflow_runs (w_db w))"
    and over: "att_state a \<in> set terminal_attempt_states"
  shows "\<exists>n w'. process_task R handlers loads text_param worker (JObj payload) b w = (Inr (), w') \<and>
    ack R worker b w = (Inr n, w') \<and> w_db w' = w_db w"
proof -
  have d: "distinct (map att_step_attempt_id (step_attempts (w_db w)))" "distinct (map stp_step_id (steps (w_db w)))"
    "distinct (map run_workflow_run_id (workflow_runs (w_db w)))" using wf by (simp_all add: db_wf_defs)
  have find: "find (\<lambda>y. k y = k x) xs = Some x" if "distinct (map k xs)" "x \<in> set xs" for k :: "'q \<Rightarrow> uuid" and x xs
    using that by (induction xs) auto
  from up obtain n srv where ak: "ack R worker b w = (Inr n, w\<lparr>w_redis := srv\<rparr>)"
    using utf by (auto simp: ack_def decode_utf8_def redisE_def)
  have "task_transaction R handlers loads text_param worker payload b w = (Inr None, w\<lparr>w_redis := srv\<rparr>)"
    using f wf over ak find [OF d(1) rows(1)] find [OF d(2) rows(2)] find [OF d(3) rows(3)]
    by (simp add: task_transaction_def liftE_def run_simps)
  then show ?thesis using ak by (simp add: process_task_def as_dict_def session_scope_def)
qed

end
