(* ===== verification/Extractors.thy ===== *)
theory Extractors
  imports Py_Regex Workers
begin

text \<open>
  \<open>src/insuranceops/workflows/extractors\<close>: the values an extractor produces and the deterministic
  extractor of claim documents, which searches the document's text for five patterns. Confidences
  are exact rationals. \<open>decode\<close> is \<open>bytes.decode('utf-8', errors='replace')\<close> on the documents whose
  text has characters beyond U+00FF; on the others it is computed.
\<close>

section \<open>Fields and results\<close>

record Provenance =
  prov_page :: json
  prov_offset_start :: json
  prov_offset_end :: json
  prov_text_snippet :: json

record ExtractionField =
  ef_name :: json
  ef_value :: json
  ef_confidence :: rat
  ef_provenance :: "Provenance list"

record ExtractionResult =
  er_fields :: "(string \<times> ExtractionField) list"
  er_extractor_name :: json
  er_extractor_version :: json
  er_raw_text :: "string option"

text \<open>\<open>__post_init__\<close>: the range of the confidence.\<close>

definition extraction_field ::
  "(rat \<Rightarrow> string) \<Rightarrow> json \<Rightarrow> json \<Rightarrow> json \<Rightarrow> Provenance list \<Rightarrow> exn + ExtractionField" where
  "extraction_field fr name v confidence provenance =
     (case json_number confidence of
        Inl e \<Rightarrow> Inl e
      | Inr c \<Rightarrow>
          if 0 \<le> c \<and> c \<le> 1
          then Inr \<lparr>ef_name = name, ef_value = v, ef_confidence = c, ef_provenance = provenance\<rparr>
          else Inl (ValueError (''confidence must be between 0.0 and 1.0, got '' @ py_str fr confidence)))"

section \<open>The patterns\<close>

abbreviation spaces :: re where
  "spaces \<equiv> Rep 0 None is_space"

definition c_sep :: "string \<Rightarrow> char \<Rightarrow> bool" where
  "c_sep cs c \<longleftrightarrow> c \<in> set cs \<or> is_space c"

definition number_suffix :: re where
  "number_suffix = opt (alts [lit_i ''number'', lit ''#'', Cat (lit_i ''no'') (opt (lit ''.''))])"

definition policy_format :: "(char \<Rightarrow> bool) \<Rightarrow> re" where
  "policy_format letter = seq [Rep 2 (Some 3) letter, lit ''-'', Rep 6 (Some 10) c_digit]"

definition claim_number_pattern :: re where
  "claim_number_pattern = seq
     [Alt (seq [lit_i ''claim'', spaces, number_suffix]) (lit_i ''CLM''),
      Rep 1 None (c_sep ''#:-''),
      Grp 1 (Cat (Cls (\<lambda>c. c_letter c \<or> c_digit c)) (Rep 0 None (\<lambda>c. c_word c \<or> c = CHR ''-'')))]"

definition policy_number_pattern :: re where
  "policy_number_pattern = seq
     [Alt (seq [lit_i ''policy'', spaces, number_suffix]) (lit_i ''POL''),
      Rep 0 None (c_sep ''#:-''), Grp 1 (policy_format c_letter)]"

definition claimant_name_pattern :: re where
  "claimant_name_pattern = seq
     [Alt (lit_i ''claimant'') (lit_i ''insured''), Rep 1 None (c_sep '':''),
      Grp 1 (Rep 2 (Some 50) (\<lambda>c. c_letter c \<or> c = CHR '' ''))]"

definition date_of_loss_pattern :: re where
  "date_of_loss_pattern = seq
     [alts [lit_i ''date of loss'', lit_i ''DOL'', lit_i ''loss date''], Rep 1 None (c_sep '':''),
      Grp 1 (seq [Rep 1 (Some 2) c_digit, Cls (\<lambda>c. c \<in> set ''/-''), Rep 1 (Some 2) c_digit,
                  Cls (\<lambda>c. c \<in> set ''/-''), Rep 2 (Some 4) c_digit])]"

definition claim_type_pattern :: re where
  "claim_type_pattern = seq
     [Alt (lit_i ''type'') (lit_i ''claim type''), Rep 1 None (c_sep '':''), Grp 1 (Rep 1 None c_word)]"

definition PATTERNS :: "(string \<times> re) list" where
  "PATTERNS = [(''claim_number'', claim_number_pattern), (''policy_number'', policy_number_pattern),
     (''claimant_name'', claimant_name_pattern), (''date_of_loss'', date_of_loss_pattern),
     (''claim_type'', claim_type_pattern)]"

definition CONFIDENCE :: rat where
  "CONFIDENCE = 95 / 100"

section \<open>The extractor\<close>

definition decode_text :: "(bytes \<Rightarrow> string) \<Rightarrow> bytes \<Rightarrow> string" where
  "decode_text decode content = (case utf8_string content of Some s \<Rightarrow> s | None \<Rightarrow> decode content)"

definition match_field :: "string \<Rightarrow> string \<Rightarrow> re_Match \<Rightarrow> ExtractionField option" where
  "match_field text name m =
     (case m_span m 1 of
        None \<Rightarrow> None
      | Some (a, b) \<Rightarrow> Some
          \<lparr>ef_name = JStr name, ef_value = JStr (strip_by is_space (py_slice text a b)), ef_confidence = CONFIDENCE,
           ef_provenance = [\<lparr>prov_page = JNull, prov_offset_start = JInt (int a), prov_offset_end = JInt (int b),
                             prov_text_snippet = JStr (m_text text m)\<rparr>]\<rparr>)"

definition find_field :: "string \<Rightarrow> string \<times> re \<Rightarrow> (string \<times> ExtractionField) option" where
  "find_field text = (\<lambda>(name, pattern).
     case re_search pattern text 0 of
       None \<Rightarrow> None
     | Some m \<Rightarrow> map_option (Pair name) (match_field text name m))"

definition stub_extract :: "(bytes \<Rightarrow> string) \<Rightarrow> bytes \<Rightarrow> ExtractionResult" where
  "stub_extract decode content =
     (let text = decode_text decode content in
      \<lparr>er_fields = List.map_filter (find_field text) PATTERNS, er_extractor_name = JStr ''stub_extractor'',
       er_extractor_version = JStr ''1.0.0'', er_raw_text = Some text\<rparr>)"

section \<open>What is extracted\<close>

lemma capture_last: "(j, c) \<in> set (runs (Cat a (Grp g b)) s i) \<Longrightarrow> g \<in> fst ` set c"
  by force

lemma capture_later: "(\<And>j c i. (j, c) \<in> set (runs b s i) \<Longrightarrow> g \<in> fst ` set c) \<Longrightarrow>
    (j, c) \<in> set (runs (Cat a b) s i) \<Longrightarrow> g \<in> fst ` set c"
  by (fastforce simp: image_Un)

text \<open>All patterns capture group 1.\<close>

lemma patterns_capture:
  assumes "(n, p) \<in> set PATTERNS" "re_search p s i = Some m"
  obtains a b where "m_span m 1 = Some (a, b)"
proof -
  have "(m_end m, m_caps m) \<in> set (runs p s (m_start m))"
    using re_searchE(3,4) [OF assms(2)] hd_in_set by fastforce
  moreover have "1 \<in> fst ` set c" if "(j, c) \<in> set (runs p s k)" for j c k
  proof -
    from assms(1) consider a b q where "p = seq [a, b, Grp 1 q]"
      by (auto simp: PATTERNS_def claim_number_pattern_def policy_number_pattern_def claimant_name_pattern_def
          date_of_loss_pattern_def claim_type_pattern_def)
    then show ?thesis
    proof cases
      case 1
      then have p: "p = Cat a (Cat b (Grp 1 q))" by simp
      from that show ?thesis unfolding p by (rule capture_later [rotated]) (erule capture_last)
    qed
  qed
  ultimately have "1 \<in> fst ` set (m_caps m)" by blast
  then have "m_span m 1 \<noteq> None" by (auto simp: m_span_def map_of_eq_None_iff)
  then show thesis using that by fastforce
qed

definition grounded :: "string \<Rightarrow> string \<Rightarrow> ExtractionField \<Rightarrow> bool" where
  "grounded text name f \<longleftrightarrow> ef_name f = JStr name \<and> ef_confidence f = CONFIDENCE \<and>
     (\<exists>i a b j. i \<le> a \<and> a \<le> b \<and> b \<le> j \<and> j \<le> length text \<and>
        ef_value f = JStr (strip_by is_space (py_slice text a b)) \<and>
        ef_provenance f = [\<lparr>prov_page = JNull, prov_offset_start = JInt (int a), prov_offset_end = JInt (int b),
          prov_text_snippet = JStr (py_slice text i j)\<rparr>])"

lemma find_field_cases:
  assumes "(n, p) \<in> set PATTERNS"
  shows "(find_field text (n, p) = None \<and> re_search p text 0 = None) \<or>
    (\<exists>f. find_field text (n, p) = Some (n, f) \<and> grounded text n f)"
proof (cases "re_search p text 0")
  case None
  then show ?thesis by (simp add: find_field_def)
next
  case (Some m)
  from patterns_capture [OF assms Some] obtain a b where ab: "m_span m 1 = Some (a, b)" .
  from re_search_bounds [OF Some] ab Some show ?thesis
    by (fastforce simp: find_field_def match_field_def grounded_def m_text_def)
qed

lemma map_filter_set: "y \<in> set (List.map_filter f xs) \<longleftrightarrow> (\<exists>x \<in> set xs. f x = Some y)"
  by (force simp: List.map_filter_def)

lemma distinct_map_filter:
  "distinct (map l xs) \<Longrightarrow> (\<And>x y. x \<in> set xs \<Longrightarrow> f x = Some y \<Longrightarrow> k y = l x) \<Longrightarrow> distinct (map k (List.map_filter f xs))"
proof (induction xs)
  case (Cons x xs)
  have IH: "distinct (map k (List.map_filter f xs))" using Cons by simp
  show ?case
  proof (cases "f x")
    case (Some y)
    have "k y \<noteq> k z" if "z \<in> set (List.map_filter f xs)" for z
    proof -
      from that obtain u where u: "u \<in> set xs" "f u = Some z" by (auto simp: map_filter_set)
      with Cons.prems(2) [of u z] Cons.prems(2) [of x y] Cons.prems(1) Some show ?thesis by auto
    qed
    with IH Some show ?thesis by (auto simp: List.map_filter_simps)
  qed (use IH in \<open>simp add: List.map_filter_simps\<close>)
qed (simp add: List.map_filter_simps)

lemma PATTERNS_distinct: "distinct (map fst PATTERNS)"
  by (simp add: PATTERNS_def)

lemma stub_extract_fields:
  "distinct (map fst (er_fields (stub_extract decode content)))"
  "(n, f) \<in> set (er_fields (stub_extract decode content)) \<Longrightarrow>
     n \<in> fst ` set PATTERNS \<and> grounded (decode_text decode content) n f"
  "(n, p) \<in> set PATTERNS \<Longrightarrow> n \<notin> fst ` set (er_fields (stub_extract decode content)) \<longleftrightarrow>
     re_search p (decode_text decode content) 0 = None"
proof -
  let ?t = "decode_text decode content"
  have fields: "er_fields (stub_extract decode content) = List.map_filter (find_field ?t) PATTERNS"
    by (simp add: stub_extract_def Let_def)
  have key: "fst y = fst x" if "x \<in> set PATTERNS" "find_field ?t x = Some y" for x y
    using find_field_cases [of "fst x" "snd x" ?t] that by auto
  show "distinct (map fst (er_fields (stub_extract decode content)))"
    unfolding fields by (rule distinct_map_filter [OF PATTERNS_distinct key])
  show "n \<in> fst ` set PATTERNS \<and> grounded ?t n f" if "(n, f) \<in> set (er_fields (stub_extract decode content))"
  proof -
    from that obtain k p where kp: "(k, p) \<in> set PATTERNS" "find_field ?t (k, p) = Some (n, f)"
      by (auto simp: fields map_filter_set)
    with find_field_cases [OF kp(1), of ?t] show ?thesis by force
  qed
  show "n \<notin> fst ` set (er_fields (stub_extract decode content)) \<longleftrightarrow> re_search p ?t 0 = None" if np: "(n, p) \<in> set PATTERNS"
  proof -
    have unique: "q = p" if "(n, q) \<in> set PATTERNS" for q
      using that np PATTERNS_distinct by (metis eq_key_imp_eq_value)
    show ?thesis
    proof
      assume "n \<notin> fst ` set (er_fields (stub_extract decode content))"
      then have "find_field ?t (n, p) \<noteq> Some (n, f)" for f using np by (force simp: fields map_filter_set)
      with find_field_cases [OF np, of ?t] show "re_search p ?t 0 = None" by blast
    next
      assume none: "re_search p ?t 0 = None"
      show "n \<notin> fst ` set (er_fields (stub_extract decode content))"
      proof
        assume "n \<in> fst ` set (er_fields (stub_extract decode content))"
        then obtain x f where x: "x \<in> set PATTERNS" "find_field ?t x = Some (n, f)" by (force simp: fields map_filter_set)
        with key have "fst x = n" by fastforce
        then have "x = (n, p)" using x(1) unique [of "snd x"] by (metis prod.collapse)
        with x(2) none show False by (simp add: find_field_def)
      qed
    qed
  qed
qed

section \<open>The format of policy numbers\<close>

definition policy_shape :: "(char \<Rightarrow> bool) \<Rightarrow> string \<Rightarrow> bool" where
  "policy_shape letter v \<longleftrightarrow> (\<exists>ls ds. v = ls @ ''-'' @ ds \<and> 2 \<le> length ls \<and> length ls \<le> 3 \<and> list_all letter ls \<and>
     6 \<le> length ds \<and> length ds \<le> 10 \<and> list_all c_digit ds)"

lemma ends_Rep_slice:
  assumes "i \<le> length s"
  shows "j \<in> ends (Rep m n p) s i \<longleftrightarrow> i \<le> j \<and> j \<le> length s \<and> m \<le> j - i \<and>
    (case n of None \<Rightarrow> True | Some k \<Rightarrow> j - i \<le> k) \<and> list_all p (py_slice s i j)"
proof -
  have "(\<forall>k < l. p (s ! (i + k))) \<longleftrightarrow> list_all p (py_slice s i (i + l))" if "i + l \<le> length s" for l
    using that by (auto simp: list_all_length py_slice_def)
  then have *: "j \<in> ends (Rep m n p) s i \<longleftrightarrow> (\<exists>l. j = i + l \<and> m \<le> l \<and> (case n of None \<Rightarrow> True | Some k \<Rightarrow> l \<le> k) \<and>
      i + l \<le> length s \<and> list_all p (py_slice s i (i + l)))"
    unfolding ends_Rep [OF assms] mem_Collect_eq by (intro ex_cong1) auto
  show ?thesis
  proof
    assume "j \<in> ends (Rep m n p) s i"
    then show "i \<le> j \<and> j \<le> length s \<and> m \<le> j - i \<and> (case n of None \<Rightarrow> True | Some k \<Rightarrow> j - i \<le> k) \<and>
      list_all p (py_slice s i j)" unfolding * by (elim exE) (simp split: option.splits)
  next
    assume "i \<le> j \<and> j \<le> length s \<and> m \<le> j - i \<and> (case n of None \<Rightarrow> True | Some k \<Rightarrow> j - i \<le> k) \<and>
      list_all p (py_slice s i j)"
    then show "j \<in> ends (Rep m n p) s i" unfolding * by (intro exI [of _ "j - i"]) simp
  qed
qed

lemma slice_split: "i \<le> k \<Longrightarrow> k \<le> j \<Longrightarrow> py_slice s i j = py_slice s i k @ py_slice s k j"
  by (simp add: py_slice_def) (metis (no_types, opaque_lifting) diff_diff_cancel diff_le_self drop_drop le_add_diff_inverse2 take_add
      Nat.add_diff_assoc2 le_add_diff_inverse)

lemma length_py_slice: "i \<le> j \<Longrightarrow> j \<le> length s \<Longrightarrow> length (py_slice s i j) = j - i"
  by (simp add: py_slice_def)

lemma slice_nth: "i < length s \<Longrightarrow> py_slice s i (Suc i) = [s ! i]"
  by (simp add: py_slice_def take_Suc_conv_app_nth)

lemma ends_policy_format:
  assumes "i \<le> length s"
  shows "j \<in> ends (policy_format letter) s i \<longleftrightarrow> i \<le> j \<and> j \<le> length s \<and> policy_shape letter (py_slice s i j)"
proof
  assume "j \<in> ends (policy_format letter) s i"
  then obtain k where k: "k \<in> ends (Rep 2 (Some 3) letter) s i" "k < length s" "s ! k = CHR ''-''"
    and j: "j \<in> ends (Rep 6 (Some 10) c_digit) s (Suc k)" by (auto simp: policy_format_def split: if_splits)
  have k': "i \<le> k" "2 \<le> k - i" "k - i \<le> 3" "list_all letter (py_slice s i k)" using k(1) ends_Rep_slice [OF assms] by auto
  have j': "Suc k \<le> j" "j \<le> length s" "6 \<le> j - Suc k" "j - Suc k \<le> 10" "list_all c_digit (py_slice s (Suc k) j)"
    using j ends_Rep_slice [of "Suc k" s] k(2) by auto
  have "py_slice s i j = py_slice s i k @ ''-'' @ py_slice s (Suc k) j"
    using slice_split [of i k j s] slice_split [of k "Suc k" j s] slice_nth [OF k(2)] k' j' k(3) by simp
  with k' j' k(2) show "i \<le> j \<and> j \<le> length s \<and> policy_shape letter (py_slice s i j)"
    unfolding policy_shape_def by (intro conjI exI [of _ "py_slice s i k"] exI [of _ "py_slice s (Suc k) j"]) (simp_all add: length_py_slice)
next
  assume R: "i \<le> j \<and> j \<le> length s \<and> policy_shape letter (py_slice s i j)"
  then obtain ls ds where v: "py_slice s i j = ls @ ''-'' @ ds" and ls: "2 \<le> length ls" "length ls \<le> 3" "list_all letter ls"
    and ds: "6 \<le> length ds" "length ds \<le> 10" "list_all c_digit ds" unfolding policy_shape_def by blast
  define k where "k = i + length ls"
  have len: "j = k + 1 + length ds" using arg_cong [OF v, of length] R by (simp add: length_py_slice k_def)
  have "py_slice s i j = py_slice s i k @ py_slice s k (Suc k) @ py_slice s (Suc k) j"
    using slice_split [of i k j s] slice_split [of k "Suc k" j s] len by (simp add: k_def)
  moreover have "length (py_slice s i k) = length ls" "length (py_slice s k (Suc k)) = 1"
    using len R by (simp_all add: length_py_slice k_def)
  ultimately have parts: "py_slice s i k = ls" "py_slice s k (Suc k) = ''-''" "py_slice s (Suc k) j = ds"
    using v by (auto simp: append_eq_append_conv length_Suc_conv)
  have kl: "k < length s" using len R by simp
  then have "s ! k = CHR ''-''" using parts(2) slice_nth by fastforce
  moreover have "k \<in> ends (Rep 2 (Some 3) letter) s i"
    using ls parts(1) kl ends_Rep_slice [OF assms, of k 2 "Some 3" letter] by (simp add: k_def)
  moreover have "j \<in> ends (Rep 6 (Some 10) c_digit) s (Suc k)"
    using ds parts(3) len R kl ends_Rep_slice [of "Suc k" s j 6 "Some 10" c_digit] by simp
  ultimately show "j \<in> ends (policy_format letter) s i"
    using kl by (auto simp: policy_format_def intro!: bexI [of _ k])
qed

end
