(* ===== verification/Ai.thy ===== *)
theory Ai
  imports Extractors
begin

text \<open>
  \<open>src/insuranceops/ai\<close>: the interfaces of the providers, the deterministic mock providers,
  summarization, the ingestion pipeline and the metadata of AI executions. A provider is a
  record of its operations; any of them may raise.
\<close>

section \<open>Text\<close>

text \<open>\<open>sub in s\<close>, \<open>s.split()\<close> and \<open>f'{x:.2f}'\<close>.\<close>

definition py_in :: "string \<Rightarrow> string \<Rightarrow> bool" where
  "py_in sub s \<longleftrightarrow> list_ex (\<lambda>i. take (length sub) (drop i s) = sub) [0..<Suc (length s)]"

function py_words :: "string \<Rightarrow> string list" where
  "py_words s =
     (let t = dropWhile is_space s in
      if t = [] then [] else takeWhile (\<lambda>c. \<not> is_space c) t # py_words (dropWhile (\<lambda>c. \<not> is_space c) t))"
  by pat_completeness auto
termination
proof (relation "measure length", simp)
  fix s t :: string
  assume t: "t = dropWhile is_space s" "t \<noteq> []"
  then have "\<not> is_space (hd t)" using hd_dropWhile [of is_space s] by simp
  with t(2) have "length (dropWhile (\<lambda>c. \<not> is_space c) t) < length t"
    by (cases t) (simp_all add: length_dropWhile_le less_Suc_eq_le)
  moreover have "length t \<le> length s" unfolding t by (rule length_dropWhile_le)
  ultimately show "(dropWhile (\<lambda>c. \<not> is_space c) t, s) \<in> measure length" by simp
qed

declare py_words.simps [simp del]

definition fmt2 :: "rat \<Rightarrow> string" where
  "fmt2 x = (let q = round_half_even (\<bar>x\<bar> * 100) in
     (if x < 0 then ''-'' else []) @ int_str (q div 100) @ ''.'' @ dec_pad 2 (q mod 100))"

text \<open>\<open>round(x, n)\<close>\<close>

definition py_round :: "rat \<Rightarrow> nat \<Rightarrow> rat" where
  "py_round x n = of_int (round_half_even (x * 10 ^ n)) / 10 ^ n"

abbreviation nl :: string where
  "nl \<equiv> [CHR 0x0A]"

section \<open>Providers\<close>

record ProviderResponse =
  rsp_content :: string
  rsp_model :: string
  rsp_prompt_version :: string
  rsp_usage :: "(string \<times> int) list"
  rsp_latency_ms :: rat
  rsp_provider_name :: string
  rsp_raw_response :: "dict option"

record OCRPage =
  pg_page_number :: int
  pg_text :: string
  pg_confidence :: rat
  pg_word_count :: int

record OCRResult =
  ocr_pages :: "OCRPage list"
  ocr_full_text :: string
  ocr_total_pages :: int
  ocr_provider_name :: string
  ocr_latency_ms :: rat

text \<open>\<open>generate(prompt, model, temperature, max_tokens)\<close> and \<open>extract_text(content, content_type, metadata)\<close>\<close>

record 'r AIProvider =
  ai_name :: string
  ai_generate :: "string \<Rightarrow> string option \<Rightarrow> rat \<Rightarrow> int \<Rightarrow> ('r, ProviderResponse) sexec"

record 'r OCRProvider =
  ocr_name :: string
  ocr_extract_text :: "bytes \<Rightarrow> string \<Rightarrow> dict \<Rightarrow> ('r, OCRResult) sexec"

section \<open>The mock providers\<close>

definition hex_prefix :: "nat \<Rightarrow> bytes \<Rightarrow> string" where
  "hex_prefix n b = take n (bytes_hex (sha256 b))"

definition mock_content :: "string \<Rightarrow> string" where
  "mock_content prompt =
     (let h = ''[mock-hash:'' @ hex_prefix 16 (utf8 prompt) @ '']''; p = py_lower prompt in
      if py_in ''summar'' p
      then ''Summary: This document contains insurance claim information. Key findings have been extracted and validated. '' @ h
      else if py_in ''classif'' p then ''Classification: standard_claim [confidence:0.92] '' @ h
      else if py_in ''review'' p
      then ''Review recommendation: APPROVE. All extracted fields match expected patterns. '' @ h
      else ''Generated response for prompt. '' @ h)"

definition mock_generate :: "string \<Rightarrow> string option \<Rightarrow> rat \<Rightarrow> int \<Rightarrow> ('r, ProviderResponse) sexec" where
  "mock_generate prompt model temperature max_tokens =
     bindE perf_counter (\<lambda>start.
     let content = mock_content prompt in
     bindE perf_counter (\<lambda>stop.
     returnE \<lparr>rsp_content = content, rsp_model = or_default model ''mock-model-v1'', rsp_prompt_version = ''mock-v1.0'',
       rsp_usage = [(''prompt_tokens'', int (length (py_words prompt))),
                    (''completion_tokens'', int (length (py_words content)))],
       rsp_latency_ms = (stop - start) * 1000, rsp_provider_name = ''mock_ai'',
       rsp_raw_response = Some [(''mock'', JBool True), (''prompt_hash'', JStr (hex_prefix 16 (utf8 prompt)))]\<rparr>))"

definition mock_ai :: "'r AIProvider" where
  "mock_ai = \<lparr>ai_name = ''mock_ai'', ai_generate = mock_generate\<rparr>"

definition mock_ocr_text :: "bytes \<Rightarrow> string \<Rightarrow> string" where
  "mock_ocr_text content content_type =
     (let h = hex_prefix 8 content in
      ''[Mock OCR extraction from '' @ content_type @ '']'' @ nl
      @ ''Document hash: '' @ h @ nl
      @ ''Claim Number: CLM-MOCK-'' @ py_upper_hex (take 6 h) @ nl
      @ ''Policy Number: POL-'' @ py_upper_hex (take 8 (drop 2 h)) @ nl
      @ ''Claimant: Mock Claimant'' @ nl
      @ ''Date of Loss: 01/01/2025'' @ nl
      @ ''Claim Type: auto'' @ nl)"

definition mock_extract_text ::
  "(bytes \<Rightarrow> string) \<Rightarrow> bytes \<Rightarrow> string \<Rightarrow> dict \<Rightarrow> ('r, OCRResult) sexec" where
  "mock_extract_text decode content content_type metadata =
     bindE perf_counter (\<lambda>start.
     let is_text = (take 5 content_type = ''text/'');
         text = (if is_text then decode_text decode content else mock_ocr_text content content_type);
         pages = [\<lparr>pg_page_number = 1, pg_text = text, pg_confidence = (if is_text then 1 else 88 / 100),
                   pg_word_count = int (length (py_words text))\<rparr>];
         full_text = py_join nl (map pg_text pages) in
     bindE perf_counter (\<lambda>stop.
     returnE \<lparr>ocr_pages = pages, ocr_full_text = full_text, ocr_total_pages = int (length pages),
       ocr_provider_name = ''mock_ocr'', ocr_latency_ms = (stop - start) * 1000\<rparr>))"

definition mock_ocr :: "(bytes \<Rightarrow> string) \<Rightarrow> 'r OCRProvider" where
  "mock_ocr decode = \<lparr>ocr_name = ''mock_ocr'', ocr_extract_text = mock_extract_text decode\<rparr>"

section \<open>Summarization\<close>

record SummaryResult =
  sum_summary_text :: string
  sum_summary_type :: string
  sum_provider_response :: ProviderResponse
  sum_latency_ms :: rat

record SummarizationConfig =
  cfg_enabled :: bool
  cfg_max_input_chars :: int
  cfg_temperature :: rat
  cfg_max_tokens :: int
  cfg_prompt_version :: string

definition default_summarization :: SummarizationConfig where
  "default_summarization = \<lparr>cfg_enabled = True, cfg_max_input_chars = 4000, cfg_temperature = 0,
     cfg_max_tokens = 512, cfg_prompt_version = ''v1.0''\<rparr>"

definition disabled_result :: "string \<Rightarrow> SummaryResult" where
  "disabled_result summary_type =
     \<lparr>sum_summary_text = [], sum_summary_type = summary_type,
      sum_provider_response = \<lparr>rsp_content = [], rsp_model = ''disabled'', rsp_prompt_version = ''disabled'', rsp_usage = [],
        rsp_latency_ms = 0, rsp_provider_name = ''none'', rsp_raw_response = None\<rparr>,
      sum_latency_ms = 0\<rparr>"

text \<open>\<open>s[:k]\<close>, also for a negative bound.\<close>

definition py_prefix :: "int \<Rightarrow> string \<Rightarrow> string" where
  "py_prefix k s = take (nat (if k < 0 then int (length s) + k else k)) s"

definition truncate_prompt :: "SummarizationConfig \<Rightarrow> string \<Rightarrow> string" where
  "truncate_prompt config prompt =
     (if int (length prompt) > cfg_max_input_chars config
      then py_prefix (cfg_max_input_chars config) prompt @ nl @ ''[truncated]'' else prompt)"

definition execute_summary ::
  "'r AIProvider \<Rightarrow> SummarizationConfig \<Rightarrow> string \<Rightarrow> string \<Rightarrow> ('r, SummaryResult) sexec" where
  "execute_summary ai_provider config prompt0 summary_type =
     bindE perf_counter (\<lambda>start.
     let prompt = truncate_prompt config prompt0 in
     catchE
       (bindE (ai_generate ai_provider prompt None (cfg_temperature config) (cfg_max_tokens config)) (\<lambda>response.
        bindE perf_counter (\<lambda>stop.
        returnE \<lparr>sum_summary_text = rsp_content response, sum_summary_type = summary_type,
          sum_provider_response = response, sum_latency_ms = (stop - start) * 1000\<rparr>)))
       (\<lambda>_. bindE perf_counter (\<lambda>stop.
        returnE \<lparr>sum_summary_text = [], sum_summary_type = summary_type,
          sum_provider_response = \<lparr>rsp_content = [], rsp_model = ''error'', rsp_prompt_version = cfg_prompt_version config,
            rsp_usage = [], rsp_latency_ms = (stop - start) * 1000, rsp_provider_name = ai_name ai_provider,
            rsp_raw_response = None\<rparr>,
          sum_latency_ms = (stop - start) * 1000\<rparr>)))"

text \<open>\<open>s or default\<close> on text.\<close>

definition or_text :: "string \<Rightarrow> string \<Rightarrow> string" where
  "or_text s d = (if s \<noteq> [] then s else d)"

definition inline_fields :: "(rat \<Rightarrow> string) \<Rightarrow> dict \<Rightarrow> string" where
  "inline_fields fr d = py_join '', '' (map (\<lambda>(k, v). k @ ''='' @ py_str fr v) d)"

definition workflow_summary_prompt :: "string \<Rightarrow> string \<Rightarrow> string \<Rightarrow> int \<Rightarrow> string \<Rightarrow> string \<Rightarrow> string" where
  "workflow_summary_prompt workflow_name workflow_version state steps_completed duration fs =
     ''Summarize this insurance workflow execution for an operations dashboard.'' @ nl @ nl
     @ ''Workflow: '' @ workflow_name @ '' (version: '' @ workflow_version @ '')'' @ nl
     @ ''State: '' @ state @ nl
     @ ''Steps completed: '' @ int_str steps_completed @ nl
     @ ''Duration: '' @ duration @ nl
     @ ''Extracted fields: '' @ fs @ nl @ nl
     @ ''Provide a 2-3 sentence operational summary suitable for a queue dashboard.'' @ nl"

definition summarize_workflow ::
  "'r AIProvider \<Rightarrow> SummarizationConfig \<Rightarrow> string \<Rightarrow> string \<Rightarrow> string \<Rightarrow> int \<Rightarrow> string \<Rightarrow> dict \<Rightarrow> ('r, SummaryResult) sexec" where
  "summarize_workflow ai_provider config workflow_name workflow_version state steps_completed duration extracted_fields =
     (if \<not> cfg_enabled config then returnE (disabled_result ''workflow'')
      else bindE (readE w_float_repr) (\<lambda>fr.
        execute_summary ai_provider config
          (workflow_summary_prompt workflow_name workflow_version state steps_completed duration
            (or_text (inline_fields fr extracted_fields) ''(none)'')) ''workflow''))"

definition claim_summary_prompt :: "string \<Rightarrow> string \<Rightarrow> string \<Rightarrow> string" where
  "claim_summary_prompt claim_fields content_type confidence =
     ''Summarize this insurance claim intake for operator review.'' @ nl @ nl
     @ ''Claim details:'' @ nl @ claim_fields @ nl @ nl
     @ ''Document type: '' @ content_type @ nl
     @ ''Extraction confidence: '' @ confidence @ nl @ nl
     @ ''Provide a structured summary with: claim type, key parties, amounts if present, and any flags for review.'' @ nl"

definition summarize_claim ::
  "'r AIProvider \<Rightarrow> SummarizationConfig \<Rightarrow> dict \<Rightarrow> string \<Rightarrow> rat \<Rightarrow> ('r, SummaryResult) sexec" where
  "summarize_claim ai_provider config claim_fields content_type confidence =
     (if \<not> cfg_enabled config then returnE (disabled_result ''claim'')
      else bindE (readE w_float_repr) (\<lambda>fr.
        let fields_str = py_join nl (map (\<lambda>(k, v). ''  '' @ k @ '': '' @ py_str fr v) claim_fields) in
        execute_summary ai_provider config
          (claim_summary_prompt (or_text fields_str ''(no fields extracted)'') content_type (fmt2 confidence)) ''claim''))"

definition escalation_summary_prompt :: "string \<Rightarrow> string \<Rightarrow> string \<Rightarrow> string \<Rightarrow> string \<Rightarrow> string" where
  "escalation_summary_prompt reason_code reason_detail step_name workflow_name fs =
     ''Provide context for a human reviewer handling this escalation.'' @ nl @ nl
     @ ''Escalation reason: '' @ reason_code @ nl
     @ ''Reason detail: '' @ reason_detail @ nl
     @ ''Step that failed: '' @ step_name @ nl
     @ ''Workflow: '' @ workflow_name @ nl
     @ ''Extracted fields: '' @ fs @ nl @ nl
     @ ''Summarize why this was escalated and what the reviewer should focus on.'' @ nl"

definition summarize_escalation ::
  "'r AIProvider \<Rightarrow> SummarizationConfig \<Rightarrow> string \<Rightarrow> string option \<Rightarrow> string \<Rightarrow> string \<Rightarrow> dict \<Rightarrow> ('r, SummaryResult) sexec" where
  "summarize_escalation ai_provider config reason_code reason_detail step_name workflow_name extracted_fields =
     (if \<not> cfg_enabled config then returnE (disabled_result ''escalation'')
      else bindE (readE w_float_repr) (\<lambda>fr.
        execute_summary ai_provider config
          (escalation_summary_prompt reason_code (or_default reason_detail ''(no detail)'') step_name workflow_name
            (or_text (inline_fields fr extracted_fields) ''(none)'')) ''escalation''))"

section \<open>Execution metadata\<close>

record AIExecutionMetadata =
  ex_execution_id :: uuid
  ex_workflow_run_id :: uuid
  ex_step_name :: string
  ex_operation_type :: string
  ex_provider_name :: string
  ex_model :: string
  ex_prompt_version :: string
  ex_input_hash :: string
  ex_output_hash :: string
  ex_confidence :: "rat option"
  ex_latency_ms :: rat
  ex_token_usage :: "(string \<times> int) list"
  ex_started_at :: time
  ex_completed_at :: "time option"
  ex_success :: bool
  ex_error_code :: "string option"
  ex_error_detail :: "string option"

text \<open>\<open>if self.error_code:\<close> and the like: text that is there and not empty.\<close>

definition opt_entry :: "string \<Rightarrow> string option \<Rightarrow> dict" where
  "opt_entry k v = (if or_default v [] \<noteq> [] then [(k, JStr (or_default v []))] else [])"

definition to_audit_payload :: "AIExecutionMetadata \<Rightarrow> dict" where
  "to_audit_payload e =
     [(''execution_id'', JStr (uuid_str (ex_execution_id e))), (''operation_type'', JStr (ex_operation_type e)),
      (''provider_name'', JStr (ex_provider_name e)), (''model'', JStr (ex_model e)),
      (''prompt_version'', JStr (ex_prompt_version e)), (''latency_ms'', JFloat (py_round (ex_latency_ms e) 1)),
      (''success'', JBool (ex_success e))]
     @ (case ex_confidence e of None \<Rightarrow> [] | Some c \<Rightarrow> [(''confidence'', JFloat (py_round c 4))])
     @ (if ex_token_usage e \<noteq> [] then [(''token_usage'', JObj (map (map_prod id JInt) (ex_token_usage e)))] else [])
     @ opt_entry ''input_hash'' (Some (ex_input_hash e)) @ opt_entry ''output_hash'' (Some (ex_output_hash e))
     @ opt_entry ''error_code'' (ex_error_code e) @ opt_entry ''error_detail'' (ex_error_detail e)"

record AIStepMetadata =
  md_step_attempt_id :: uuid
  md_executions :: "AIExecutionMetadata list"
  md_total_latency_ms :: rat
  md_total_tokens :: int
  md_min_confidence :: "rat option"
  md_requires_review :: bool

text \<open>The least confidence is shown when it is neither missing nor zero.\<close>

definition to_output_ref :: "AIStepMetadata \<Rightarrow> dict" where
  "to_output_ref m =
     [(''ai_metadata'', JObj
       [(''execution_count'', JInt (int (length (md_executions m)))),
        (''total_latency_ms'', JFloat (py_round (md_total_latency_ms m) 1)),
        (''total_tokens'', JInt (md_total_tokens m)),
        (''min_confidence'', case md_min_confidence m of None \<Rightarrow> JNull
           | Some c \<Rightarrow> if c \<noteq> 0 then JFloat (py_round c 4) else JNull),
        (''requires_review'', JBool (md_requires_review m)),
        (''executions'', JArr (map (JObj \<circ> to_audit_payload) (md_executions m)))])]"

text \<open>\<open>min(xs)\<close>, with a default for the empty sequence.\<close>

definition min_or :: "'a::linorder \<Rightarrow> 'a list \<Rightarrow> 'a" where
  "min_or d xs = (case xs of [] \<Rightarrow> d | x # ys \<Rightarrow> fold min ys x)"

definition aggregate_step_metadata :: "uuid \<Rightarrow> AIExecutionMetadata list \<Rightarrow> AIStepMetadata" where
  "aggregate_step_metadata step_attempt_id executions =
     (let confidences = List.map_filter ex_confidence executions in
      \<lparr>md_step_attempt_id = step_attempt_id, md_executions = executions,
       md_total_latency_ms = sum_list (map ex_latency_ms executions),
       md_total_tokens = sum_list (map (\<lambda>e. sum_list (map snd (ex_token_usage e))) executions),
       md_min_confidence = (if confidences \<noteq> [] then Some (min_or 0 confidences) else None),
       md_requires_review =
         (list_ex (\<lambda>e. case ex_confidence e of None \<Rightarrow> False | Some c \<Rightarrow> c < 7 / 10) executions \<or>
          list_ex (\<lambda>e. \<not> ex_success e) executions)\<rparr>)"

section \<open>The ingestion pipeline\<close>

definition OCR_REQUIRED_TYPES :: "string list" where
  "OCR_REQUIRED_TYPES = [''application/pdf'', ''image/png'', ''image/jpeg'', ''image/tiff'']"

record IngestionResult =
  ing_extraction :: ExtractionResult
  ing_ocr_result :: "OCRResult option"
  ing_ai_enhancement :: "ProviderResponse option"
  ing_content_hash :: string
  ing_pipeline_latency_ms :: rat
  ing_requires_review :: bool

definition field_line :: "(rat \<Rightarrow> string) \<Rightarrow> string \<Rightarrow> ExtractionField \<Rightarrow> string" where
  "field_line fr name f =
     ''  - '' @ name @ '': '' @ py_str fr (ef_value f) @ '' (confidence: '' @ fmt2 (ef_confidence f) @ '')''"

definition build_enhancement_prompt ::
  "(rat \<Rightarrow> string) \<Rightarrow> string \<Rightarrow> ExtractionResult \<Rightarrow> ExtractionField list \<Rightarrow> string" where
  "build_enhancement_prompt fr text extraction low_confidence_fields =
     ''You are an insurance document extraction assistant.'' @ nl
     @ ''Given the following document text, verify and improve the extracted fields.'' @ nl @ nl
     @ ''Document text (first 2000 chars):'' @ nl @ take 2000 text @ nl @ nl
     @ ''Currently extracted fields:'' @ nl
     @ py_join nl (map (\<lambda>(name, f). field_line fr name f) (er_fields extraction)) @ nl @ nl
     @ ''Low-confidence fields needing verification:'' @ nl
     @ or_text (py_join nl (map (\<lambda>f. field_line fr (py_str fr (ef_name f)) f) low_confidence_fields)) ''(none)'' @ nl @ nl
     @ ''Expected fields: claim_number, policy_number, claimant_name, date_of_loss, claim_type, description.'' @ nl @ nl
     @ ''Return corrections or confirmations for each field.''"

definition low_fields :: "rat \<Rightarrow> ExtractionResult \<Rightarrow> ExtractionField list" where
  "low_fields threshold extraction = filter (\<lambda>f. ef_confidence f < threshold) (map snd (er_fields extraction))"

definition min_confidence :: "ExtractionResult \<Rightarrow> rat" where
  "min_confidence extraction = min_or 0 (map (ef_confidence \<circ> snd) (er_fields extraction))"

definition run_ingestion_pipeline ::
  "(bytes \<Rightarrow> string) \<Rightarrow> bytes \<Rightarrow> string \<Rightarrow> dict \<Rightarrow> 'r OCRProvider \<Rightarrow> 'r AIProvider option \<Rightarrow> rat \<Rightarrow> bool \<Rightarrow>
   ('r, IngestionResult) sexec" where
  "run_ingestion_pipeline decode content content_type metadata ocr_provider ai_provider confidence_threshold
     enable_ai_enhancement =
     bindE perf_counter (\<lambda>start.
     let content_hash = bytes_hex (sha256 content) in
     bindE (if content_type \<in> set OCR_REQUIRED_TYPES
            then bindE (ocr_extract_text ocr_provider content content_type metadata) (\<lambda>r. returnE (Some r))
            else returnE None) (\<lambda>ocr_result.
     let text_content = (case ocr_result of Some r \<Rightarrow> utf8 (ocr_full_text r) | None \<Rightarrow> content);
         extraction = stub_extract decode text_content;
         low_confidence_fields = low_fields confidence_threshold extraction in
     bindE (readE w_float_repr) (\<lambda>fr.
     bindE (case ai_provider of
         Some ai \<Rightarrow>
           if enable_ai_enhancement \<and> (low_confidence_fields \<noteq> [] \<or> length (er_fields extraction) < 3)
           then bindE (ai_generate ai
                  (build_enhancement_prompt fr (decode_text decode text_content) extraction low_confidence_fields)
                  None 0 512) (\<lambda>r. returnE (Some r))
           else returnE None
       | None \<Rightarrow> returnE None) (\<lambda>ai_enhancement.
     let requires_review = (min_confidence extraction < confidence_threshold \<or> length (er_fields extraction) < 3) in
     bindE perf_counter (\<lambda>stop.
     returnE \<lparr>ing_extraction = extraction, ing_ocr_result = ocr_result, ing_ai_enhancement = ai_enhancement,
       ing_content_hash = content_hash, ing_pipeline_latency_ms = (stop - start) * 1000,
       ing_requires_review = requires_review\<rparr>)))))"

section \<open>What the providers' callers rely on\<close>

lemma execute_summary_returns:
  "\<exists>r w'. execute_summary ai config prompt ty w = (Inr r, w') \<and> sum_summary_type r = ty"
proof -
  let ?g = "ai_generate ai (truncate_prompt config prompt) None (cfg_temperature config) (cfg_max_tokens config)"
  obtain x w1 where g: "?g (w\<lparr>w_perf_n := Suc (w_perf_n w)\<rparr>) = (x, w1)" by fastforce
  then show ?thesis
    by (cases x) (simp_all add: execute_summary_def perf_counter_def Let_def bindE_def catchE_def returnE_def)
qed

lemma truncate_prompt_length:
  "0 \<le> cfg_max_input_chars config \<Longrightarrow> int (length (truncate_prompt config p)) \<le> cfg_max_input_chars config + 12"
  by (auto simp: truncate_prompt_def py_prefix_def)

text \<open>The mark comes on top of the limit: a prompt that is cut is sent with twelve characters more.\<close>

lemma truncate_prompt_size:
  "0 \<le> cfg_max_input_chars config \<Longrightarrow> int (length (truncate_prompt config p)) =
     (if int (length p) > cfg_max_input_chars config then cfg_max_input_chars config + 12 else int (length p))"
  by (auto simp: truncate_prompt_def py_prefix_def)

lemma min_or_Min: "xs \<noteq> [] \<Longrightarrow> min_or d xs = Min (set xs)"
  by (cases xs) (simp_all add: min_or_def Min.set_eq_fold del: set_simps list.set)

end
