(* ===== verification/Validation.thy ===== *)
theory Validation
  imports Extractors
begin

text \<open>
  \<open>src/insuranceops/workflows/validators\<close> and \<open>src/insuranceops/ai/review.py\<close>: the rules an
  extraction has to satisfy, and the decision whether a human has to look at it.
\<close>

section \<open>Dates\<close>

text \<open>
  \<open>datetime.strptime\<close> for the directives of the eight formats: \<open>%m\<close>, \<open>%d\<close>, \<open>%Y\<close> and \<open>%y\<close>, as groups
  1, 2, 3 and 4. The whole text has to match, and the date has to exist.
\<close>

definition dir_m :: re where
  "dir_m = Grp 1 (alts [Cat (lit ''1'') (Cls (\<lambda>c. c \<in> set ''012'')),
     Cat (lit ''0'') (Cls (\<lambda>c. c \<in> set ''123456789'')), Cls (\<lambda>c. c \<in> set ''123456789'')])"

definition dir_d :: re where
  "dir_d = Grp 2 (alts [Cat (lit ''3'') (Cls (\<lambda>c. c \<in> set ''01'')), Cat (Cls (\<lambda>c. c \<in> set ''12'')) (Cls c_digit),
     Cat (lit ''0'') (Cls (\<lambda>c. c \<in> set ''123456789'')), Cls (\<lambda>c. c \<in> set ''123456789''),
     Cat (lit '' '') (Cls (\<lambda>c. c \<in> set ''123456789''))])"

definition dir_Y :: re where
  "dir_Y = Grp 3 (Rep 4 (Some 4) c_digit)"

definition dir_y :: re where
  "dir_y = Grp 4 (Rep 2 (Some 2) c_digit)"

definition days_in_month :: "int \<Rightarrow> int \<Rightarrow> int" where
  "days_in_month y m =
     (if m = 2 then (if 4 dvd y \<and> (\<not> 100 dvd y \<or> 400 dvd y) then 29 else 28)
      else if m \<in> {4, 6, 9, 11} then 30 else 31)"

text \<open>\<open>int(s)\<close> of a group: digits, with the blank of a padded day in front.\<close>

definition group_int :: "string \<Rightarrow> re_Match \<Rightarrow> nat \<Rightarrow> int option" where
  "group_int s m g = (case m_span m g of None \<Rightarrow> None | Some (a, b) \<Rightarrow> int_parse (py_slice s a b))"

definition date_exists :: "string \<Rightarrow> re_Match \<Rightarrow> bool" where
  "date_exists s m =
     (case (group_int s m 1, group_int s m 2) of
        (Some mon, Some day) \<Rightarrow>
          (case (group_int s m 3, group_int s m 4) of
             (Some y, _) \<Rightarrow> 1 \<le> y \<and> day \<le> days_in_month y mon
           | (None, Some y) \<Rightarrow> day \<le> days_in_month (if y \<le> 68 then 2000 + y else 1900 + y) mon
           | (None, None) \<Rightarrow> False)
      | _ \<Rightarrow> False)"

definition strptime_ok :: "re \<Rightarrow> string \<Rightarrow> bool" where
  "strptime_ok format s = (case re_match format s of
     None \<Rightarrow> False | Some m \<Rightarrow> m_end m = length s \<and> date_exists s m)"

definition DATE_FORMATS :: "re list" where
  "DATE_FORMATS =
     [seq [dir_m, lit ''/'', dir_d, lit ''/'', dir_Y], seq [dir_m, lit ''-'', dir_d, lit ''-'', dir_Y],
      seq [dir_d, lit ''/'', dir_m, lit ''/'', dir_Y], seq [dir_d, lit ''-'', dir_m, lit ''-'', dir_Y],
      seq [dir_m, lit ''/'', dir_d, lit ''/'', dir_y], seq [dir_m, lit ''-'', dir_d, lit ''-'', dir_y],
      seq [dir_d, lit ''/'', dir_m, lit ''/'', dir_y], seq [dir_d, lit ''-'', dir_m, lit ''-'', dir_y]]"

definition parse_date :: "string \<Rightarrow> bool" where
  "parse_date v = list_ex (\<lambda>fmt. strptime_ok fmt v) DATE_FORMATS"

section \<open>The rules\<close>

record ValidationReason =
  vr_code :: string
  vr_field_name :: "string option"
  vr_message :: string
  vr_detail :: dict

record ValidationOutcome =
  vo_status :: string
  vo_reasons :: "ValidationReason list"
  vo_overrides_requested :: "(string \<times> string) list"

record ReferenceData =
  ref_snapshot_id :: "uuid option"
  ref_data :: dict

definition POLICY_NUMBER_PATTERN :: re where
  "POLICY_NUMBER_PATTERN = Cat (policy_format c_upper) (At at_dollar)"

definition missing_field :: "string \<Rightarrow> string \<Rightarrow> string \<Rightarrow> ValidationOutcome" where
  "missing_field code field_name message =
     \<lparr>vo_status = ''fail_terminal'',
      vo_reasons = [\<lparr>vr_code = code, vr_field_name = Some field_name, vr_message = message, vr_detail = []\<rparr>],
      vo_overrides_requested = []\<rparr>"

definition policy_reason :: "string \<Rightarrow> ValidationReason" where
  "policy_reason v =
     \<lparr>vr_code = ''policy_number_format_invalid'', vr_field_name = Some ''policy_number'',
      vr_message = ''Policy number '' @ [CHR 0x27] @ v @ [CHR 0x27] @ '' does not match the expected format [A-Z]{2,3}-'' @ [CHR 0x5C]
        @ ''d{6,10}.'',
      vr_detail = [(''value'', JStr v)]\<rparr>"

definition date_reason :: "string \<Rightarrow> ValidationReason" where
  "date_reason v =
     \<lparr>vr_code = ''date_of_loss_invalid'', vr_field_name = Some ''date_of_loss'',
      vr_message = ''Date of loss '' @ [CHR 0x27] @ v @ [CHR 0x27] @ '' could not be parsed as a valid date.'',
      vr_detail = [(''value'', JStr v)]\<rparr>"

definition correctable_reasons :: "(rat \<Rightarrow> string) \<Rightarrow> (string \<times> ExtractionField) list \<Rightarrow> ExtractionField \<Rightarrow> ValidationReason list" where
  "correctable_reasons fr fs policy =
     (let policy_value = py_str fr (ef_value policy) in
      (if re_match POLICY_NUMBER_PATTERN policy_value = None then [policy_reason policy_value] else []) @
      (case map_of fs ''date_of_loss'' of
         None \<Rightarrow> []
       | Some d \<Rightarrow> let date_value = py_str fr (ef_value d) in
                  if parse_date date_value then [] else [date_reason date_value]))"

definition validate :: "(rat \<Rightarrow> string) \<Rightarrow> ExtractionResult \<Rightarrow> ReferenceData \<Rightarrow> ValidationOutcome" where
  "validate fr result ref =
     (case map_of (er_fields result) ''claim_number'' of
        None \<Rightarrow> missing_field ''claim_number_missing'' ''claim_number''
                 ''Claim number is required but was not found in the document.''
      | Some _ \<Rightarrow>
     (case map_of (er_fields result) ''policy_number'' of
        None \<Rightarrow> missing_field ''policy_number_missing'' ''policy_number''
                 ''Policy number is required but was not found in the document.''
      | Some policy \<Rightarrow>
     (let reasons = correctable_reasons fr (er_fields result) policy in
      if reasons \<noteq> []
      then \<lparr>vo_status = ''fail_correctable'', vo_reasons = reasons,
            vo_overrides_requested = List.map_filter (\<lambda>r. map_option (\<lambda>f. (f, vr_code r)) (vr_field_name r)) reasons\<rparr>
      else \<lparr>vo_status = ''pass'', vo_reasons = [], vo_overrides_requested = []\<rparr>)))"

section \<open>Review routing\<close>

datatype ReviewReason =
  LOW_CONFIDENCE | MISSING_FIELDS | CONFLICTING_FIELDS | OCR_QUALITY | AI_ENHANCEMENT_FAILED | POLICY_RULE

fun review_reason_value :: "ReviewReason \<Rightarrow> string" where
  "review_reason_value LOW_CONFIDENCE = ''low_confidence''"
| "review_reason_value MISSING_FIELDS = ''missing_fields''"
| "review_reason_value CONFLICTING_FIELDS = ''conflicting_fields''"
| "review_reason_value OCR_QUALITY = ''ocr_quality''"
| "review_reason_value AI_ENHANCEMENT_FAILED = ''ai_enhancement_failed''"
| "review_reason_value POLICY_RULE = ''policy_rule''"

datatype ReviewDecision = APPROVE | REJECT | REPROCESS

record ReviewThresholds =
  th_auto_approve_min :: rat
  th_review_required_below :: rat
  th_reject_below :: rat
  th_min_required_fields :: int

definition default_thresholds :: ReviewThresholds where
  "default_thresholds = \<lparr>th_auto_approve_min = 9 / 10, th_review_required_below = 7 / 10,
     th_reject_below = 3 / 10, th_min_required_fields = 3\<rparr>"

record ReviewRouting =
  rt_requires_review :: bool
  rt_reasons :: "ReviewReason list"
  rt_overall_confidence :: rat
  rt_field_confidences :: "(string \<times> rat) list"
  rt_suggested_action :: string

definition review_reasons ::
  "(string \<times> rat) list \<Rightarrow> ReviewThresholds \<Rightarrow> rat option \<Rightarrow> bool \<Rightarrow> ReviewReason list" where
  "review_reasons field_confidences th ocr_confidence ai_enhancement_succeeded =
     (if int (length field_confidences) < th_min_required_fields th then [MISSING_FIELDS] else []) @
     (if filter (\<lambda>(name, conf). conf < th_review_required_below th) field_confidences \<noteq> [] then [LOW_CONFIDENCE] else []) @
     (case ocr_confidence of None \<Rightarrow> [] | Some c \<Rightarrow> if c < th_review_required_below th then [OCR_QUALITY] else []) @
     (if \<not> ai_enhancement_succeeded then [AI_ENHANCEMENT_FAILED] else [])"

definition overall_confidence :: "(string \<times> rat) list \<Rightarrow> rat" where
  "overall_confidence field_confidences =
     (if field_confidences \<noteq> []
      then sum_list (map snd field_confidences) / of_nat (length field_confidences) else 0)"

definition evaluate_review_routing ::
  "(string \<times> rat) list \<Rightarrow> ReviewThresholds \<Rightarrow> rat option \<Rightarrow> bool \<Rightarrow> ReviewRouting" where
  "evaluate_review_routing field_confidences th ocr_confidence ai_enhancement_succeeded =
     (let reasons = review_reasons field_confidences th ocr_confidence ai_enhancement_succeeded;
          overall = overall_confidence field_confidences in
      if overall < th_reject_below th
      then \<lparr>rt_requires_review = True, rt_reasons = (if reasons \<noteq> [] then reasons else [LOW_CONFIDENCE]),
            rt_overall_confidence = overall, rt_field_confidences = field_confidences,
            rt_suggested_action = ''reject''\<rparr>
      else
        let requires_review = (0 < length reasons \<or> overall < th_auto_approve_min th) in
        \<lparr>rt_requires_review = requires_review, rt_reasons = reasons, rt_overall_confidence = overall,
         rt_field_confidences = field_confidences,
         rt_suggested_action =
           (if requires_review
            then (if overall \<ge> th_auto_approve_min th * (9 / 10) then ''likely_approve''
                  else if overall < th_reject_below th * (3 / 2) then ''likely_reject''
                  else ''manual_review'')
            else [])\<rparr>)"

record ReviewItem =
  ri_review_id :: uuid
  ri_workflow_run_id :: uuid
  ri_step_name :: string
  ri_routing :: ReviewRouting
  ri_status :: string
  ri_decision :: "ReviewDecision option"
  ri_reviewer_actor :: "string option"
  ri_created_at :: time
  ri_completed_at :: "time option"
  ri_notes :: string

definition apply_review_decision :: "ReviewItem \<Rightarrow> ReviewDecision \<Rightarrow> string \<Rightarrow> string \<Rightarrow> ('z, ReviewItem) wexec" where
  "apply_review_decision item decision actor nts =
     (if ri_status item = ''completed''
      then raiseE (ValueError (''Review '' @ uuid_str (ri_review_id item) @ '' is already completed''))
      else bindE now_utc (\<lambda>now.
        returnE (item\<lparr>ri_status := ''completed'', ri_decision := Some decision, ri_reviewer_actor := Some actor,
          ri_completed_at := Some now, ri_notes := nts\<rparr>)))"

section \<open>What the rules accept\<close>

lemma policy_pattern_iff:
  "re_match POLICY_NUMBER_PATTERN v \<noteq> None \<longleftrightarrow>
     policy_shape c_upper v \<or> (\<exists>u. v = u @ [CHR 0x0A] \<and> policy_shape c_upper u)"
proof -
  have "re_match POLICY_NUMBER_PATTERN v \<noteq> None \<longleftrightarrow> (\<exists>j \<in> ends (policy_format c_upper) v 0. at_dollar v j)"
    unfolding re_match_iff POLICY_NUMBER_PATTERN_def by auto
  also have "\<dots> \<longleftrightarrow> (\<exists>j \<le> length v. policy_shape c_upper (take j v) \<and> at_dollar v j)"
    by (auto simp: ends_policy_format py_slice_def)
  also have "\<dots> \<longleftrightarrow> policy_shape c_upper v \<or> (\<exists>u. v = u @ [CHR 0x0A] \<and> policy_shape c_upper u)"
  proof
    assume "\<exists>j \<le> length v. policy_shape c_upper (take j v) \<and> at_dollar v j"
    then obtain j where j: "j \<le> length v" "policy_shape c_upper (take j v)" "at_dollar v j" by blast
    show "policy_shape c_upper v \<or> (\<exists>u. v = u @ [CHR 0x0A] \<and> policy_shape c_upper u)"
    proof (cases "j = length v")
      case False
      with j(3) have l: "Suc j = length v" "v ! j = CHR 0x0A" by (auto simp: at_dollar_def)
      then have "v = take j v @ [CHR 0x0A]" using take_Suc_conv_app_nth [of j v] by simp
      with j(2) show ?thesis by metis
    qed (use j in simp)
  next
    assume "policy_shape c_upper v \<or> (\<exists>u. v = u @ [CHR 0x0A] \<and> policy_shape c_upper u)"
    then show "\<exists>j \<le> length v. policy_shape c_upper (take j v) \<and> at_dollar v j"
    proof
      assume "policy_shape c_upper v"
      then show ?thesis by (intro exI [of _ "length v"]) (simp add: at_dollar_def)
    next
      assume "\<exists>u. v = u @ [CHR 0x0A] \<and> policy_shape c_upper u"
      then obtain u where "v = u @ [CHR 0x0A]" "policy_shape c_upper u" by blast
      then show ?thesis by (intro exI [of _ "length u"]) (simp add: at_dollar_def nth_append)
    qed
  qed
  finally show ?thesis .
qed

definition policy_ok :: "string \<Rightarrow> bool" where
  "policy_ok v \<longleftrightarrow> policy_shape c_upper v \<or> (\<exists>u. v = u @ [CHR 0x0A] \<and> policy_shape c_upper u)"

lemma correctable_reasons_codes:
  "map vr_code (correctable_reasons fr fs policy) =
     (if policy_ok (py_str fr (ef_value policy)) then [] else [''policy_number_format_invalid'']) @
     (case map_of fs ''date_of_loss'' of None \<Rightarrow> []
      | Some d \<Rightarrow> if parse_date (py_str fr (ef_value d)) then [] else [''date_of_loss_invalid''])"
  using policy_pattern_iff [of "py_str fr (ef_value policy)"]
  by (auto simp: correctable_reasons_def Let_def policy_ok_def policy_reason_def date_reason_def split: option.split)

lemma validate_cases:
  obtains (claim) "map_of (er_fields e) ''claim_number'' = None" "vo_status (validate fr e ref) = ''fail_terminal''"
      "map vr_code (vo_reasons (validate fr e ref)) = [''claim_number_missing'']"
  | (policy) c where "map_of (er_fields e) ''claim_number'' = Some c" "map_of (er_fields e) ''policy_number'' = None"
      "vo_status (validate fr e ref) = ''fail_terminal''"
      "map vr_code (vo_reasons (validate fr e ref)) = [''policy_number_missing'']"
  | (both) c p where "map_of (er_fields e) ''claim_number'' = Some c" "map_of (er_fields e) ''policy_number'' = Some p"
      "vo_reasons (validate fr e ref) = correctable_reasons fr (er_fields e) p"
      "vo_status (validate fr e ref) = (if correctable_reasons fr (er_fields e) p = [] then ''pass'' else ''fail_correctable'')"
proof (cases "map_of (er_fields e) ''claim_number''")
  case None
  then show thesis by (intro claim) (simp_all add: validate_def missing_field_def)
next
  case (Some c)
  show thesis
  proof (cases "map_of (er_fields e) ''policy_number''")
    case None
    with Some show thesis by (intro policy) (simp_all add: validate_def missing_field_def)
  next
    case p: (Some p)
    with Some show thesis by (intro both [of c p]) (cases "correctable_reasons fr (er_fields e) p = []"; simp add: validate_def Let_def)+
  qed
qed

text \<open>Every extracted policy number has the format, but for the case of its letters.\<close>

lemma policy_shape_trim: "policy_shape letter v \<Longrightarrow> (\<And>c. letter c \<Longrightarrow> \<not> is_space c) \<Longrightarrow> strip_by is_space v = v"
proof -
  assume "policy_shape letter v" and letter: "\<And>c. letter c \<Longrightarrow> \<not> is_space c"
  then obtain ls ds where v: "v = ls @ ''-'' @ ds" "2 \<le> length ls" "list_all letter ls" "6 \<le> length ds" "list_all c_digit ds"
    unfolding policy_shape_def by blast
  then have "ls \<noteq> []" "ds \<noteq> []" by auto
  then have "\<not> is_space (hd v)" "c_digit (last v)" using v letter by (auto simp: list_all_iff)
  moreover have "\<not> is_space c" if "c_digit c" for c using that by (simp add: c_digit_def is_space_def Let_def)
  ultimately show ?thesis using v by (intro strip_by_id) auto
qed

lemma letter_not_space: "c_letter c \<Longrightarrow> \<not> is_space c"
  by (auto simp: c_letter_def is_space_def Let_def)

primrec groups :: "re \<Rightarrow> nat set" where
  "groups Eps = {}"
| "groups (Cls p) = {}"
| "groups (Rep m n p) = {}"
| "groups (Lazy p) = {}"
| "groups (Cat a b) = groups a \<union> groups b"
| "groups (Alt a b) = groups a \<union> groups b"
| "groups (Grp g a) = insert g (groups a)"
| "groups (At f) = {}"
| "groups (Look a) = {}"

lemma runs_groups: "(j, c) \<in> set (runs r s i) \<Longrightarrow> fst ` set c \<subseteq> groups r"
proof (induction r arbitrary: i j c)
  case (Cat a b)
  from Cat.prems obtain k d d' where a: "(k, d) \<in> set (runs a s i)" and b: "(j, d') \<in> set (runs b s k)" and c: "c = d @ d'"
    by auto
  from Cat.IH(1) [OF a] Cat.IH(2) [OF b] show ?case unfolding c by auto
next
  case (Alt a b)
  from Alt.prems have "(j, c) \<in> set (runs a s i) \<or> (j, c) \<in> set (runs b s i)" by simp
  with Alt.IH show ?case by fastforce
next
  case (Grp g a)
  from Grp.prems obtain d where a: "(j, d) \<in> set (runs a s i)" and c: "c = d @ [(g, i, j)]" by auto
  from Grp.IH [OF a] show ?case unfolding c by auto
next
  case (Look a)
  from Look.prems show ?case by (simp split: if_splits)
qed (auto simp: Let_def split: if_splits option.splits)

lemma capture_ends:
  assumes "(j, c) \<in> set (runs (seq [a, b, Grp 1 r]) s i)" "map_of c 1 = Some (x, y)"
    and "1 \<notin> groups a \<union> groups b \<union> groups r" "i \<le> length s"
  shows "x \<le> length s \<and> y \<in> ends r s x"
proof -
  from assms(1) obtain k1 c1 k2 c2 c3 where a: "(k1, c1) \<in> set (runs a s i)" and b: "(k2, c2) \<in> set (runs b s k1)"
    and r: "(j, c3) \<in> set (runs r s k2)" and c: "c = c1 @ c2 @ c3 @ [(1, k2, j)]" by auto
  have "map_of c1 1 = None" "map_of c2 1 = None" "map_of c3 1 = None"
    unfolding map_of_eq_None_iff using runs_groups [OF a] runs_groups [OF b] runs_groups [OF r] assms(3) by blast+
  then have "map_of c 1 = Some (k2, j)" by (simp add: c map_add_def)
  moreover have "k2 \<le> length s" using runs_bounds [OF assms(4) a] runs_bounds [OF _ b] by blast
  moreover have "j \<in> ends r s k2" using r by (force simp: ends_def)
  ultimately show ?thesis using assms(2) by simp
qed

lemma extracted_policy_number:
  assumes "(''policy_number'', f) \<in> set (er_fields (stub_extract decode content))"
  shows "\<exists>v. ef_value f = JStr v \<and> policy_shape c_letter v"
proof -
  let ?t = "decode_text decode content"
  from assms obtain n p where np: "(n, p) \<in> set PATTERNS" and f: "find_field ?t (n, p) = Some (''policy_number'', f)"
    by (auto simp: stub_extract_def Let_def map_filter_set)
  have n: "n = ''policy_number''" using f by (auto simp: find_field_def split: option.splits)
  then have p: "p = policy_number_pattern" using np by (auto simp: PATTERNS_def)
  from f obtain m where m: "re_search p ?t 0 = Some m" and mf: "match_field ?t ''policy_number'' m = Some f"
    by (auto simp: find_field_def split: option.splits)
  from mf obtain x y where xy: "map_of (m_caps m) 1 = Some (x, y)"
    and v: "ef_value f = JStr (strip_by is_space (py_slice ?t x y))"
    by (auto simp: match_field_def m_span_def split: option.splits)
  have "(m_end m, m_caps m) \<in> set (runs p ?t (m_start m))"
    using re_searchE(3,4) [OF m] hd_in_set by fastforce
  then have "x \<le> length ?t \<and> y \<in> ends (policy_format c_letter) ?t x"
    unfolding p policy_number_pattern_def
    by (rule capture_ends [OF _ xy _ re_searchE(2) [OF m]])
      (simp add: number_suffix_def policy_format_def)
  then have "policy_shape c_letter (py_slice ?t x y)" using ends_policy_format by blast
  with v policy_shape_trim [OF this letter_not_space] show ?thesis by simp
qed

section \<open>Routing\<close>

lemma review_reasons_default:
  "review_reasons cs default_thresholds None True = [] \<longleftrightarrow> 3 \<le> length cs \<and> list_all (\<lambda>(n, c). 7 / 10 \<le> c) cs"
  by (simp add: review_reasons_def default_thresholds_def filter_empty_conv list_all_iff case_prod_beta not_less)

lemma auto_approval_iff:
  "\<not> rt_requires_review (evaluate_review_routing cs default_thresholds None True) \<longleftrightarrow>
     3 \<le> length cs \<and> list_all (\<lambda>(n, c). 7 / 10 \<le> c) cs \<and> 9 / 10 \<le> overall_confidence cs"
  using review_reasons_default [of cs]
  by (auto simp: evaluate_review_routing_def Let_def default_thresholds_def not_less)

lemma overall_mono:
  assumes "list_all2 (\<lambda>(n, c) (n', c'). n = n' \<and> c \<le> c') cs ds"
  shows "overall_confidence cs \<le> overall_confidence ds"
proof -
  have "sum_list (map snd cs) \<le> sum_list (map snd ds)" using assms by (induction rule: list_all2_induct) auto
  with list_all2_lengthD [OF assms] show ?thesis by (auto simp: overall_confidence_def divide_right_mono)
qed

lemma review_mono:
  assumes "list_all2 (\<lambda>(n, c) (n', c'). n = n' \<and> c \<le> c') cs ds"
    and "rt_requires_review (evaluate_review_routing ds th oc ok)"
  shows "rt_requires_review (evaluate_review_routing cs th oc ok)"
proof -
  have low: "filter (\<lambda>(n, c). c < x) ds \<noteq> [] \<Longrightarrow> filter (\<lambda>(n, c). c < x) cs \<noteq> []" for x
    using assms(1) by (induction rule: list_all2_induct) (auto split: if_splits)
  have "review_reasons ds th oc ok \<noteq> [] \<Longrightarrow> review_reasons cs th oc ok \<noteq> []"
    using low list_all2_lengthD [OF assms(1)] by (auto simp: review_reasons_def split: if_splits option.splits)
  with assms(2) overall_mono [OF assms(1)] show ?thesis
    by (auto simp: evaluate_review_routing_def Let_def split: if_splits)
qed

section \<open>Dates written out\<close>

lemma parse_date_examples: "parse_date ''01/15/2025''" "parse_date ''2-29-24''" "\<not> parse_date ''02/30/2025''" "\<not> parse_date ''hello''" "parse_date ''31/12/99''" "\<not> parse_date ''01/01/2025x''"
  by code_simp+

end
