(* ===== verification/Steps.thy ===== *)
theory Steps
  imports Ai Validation Payloads
begin

text \<open>
  \<open>src/insuranceops/workflows/steps\<close>: the five step handlers and the table in which the worker
  finds them. A handler reads the database and the payload store and returns a \<open>StepResult\<close>.
\<close>

section \<open>Documents and JSON values\<close>

text \<open>
  \<open>doc_repo.get_by_id\<close> on an element of \<open>document_ids\<close>: what is no identifier matches no row when it is
  \<open>None\<close> and is refused by the driver otherwise.
\<close>

definition find_document :: "doc_ref \<Rightarrow> ('z, DocumentModel option) wexec" where
  "find_document r = (case r of
     DocId u \<Rightarrow> document_get_by_id u
   | DocRaw v \<Rightarrow> if v = JNull then returnE None else raiseE (DataError ''invalid input for query argument''))"

definition doc_ref_str :: "(rat \<Rightarrow> string) \<Rightarrow> doc_ref \<Rightarrow> string" where
  "doc_ref_str fr r = (case r of DocId u \<Rightarrow> uuid_str u | DocRaw v \<Rightarrow> py_str fr v)"

text \<open>\<open>for x in v\<close> and \<open>d[k]\<close>\<close>

definition iter_json :: "json \<Rightarrow> exn + json list" where
  "iter_json v = (case v of
     JArr vs \<Rightarrow> Inr vs
   | JObj d \<Rightarrow> Inr (map (JStr \<circ> fst) d)
   | JStr s \<Rightarrow> Inr (map (\<lambda>c. JStr [c]) s)
   | _ \<Rightarrow> Inl (TypeError ''object is not iterable''))"

definition getitem :: "dict \<Rightarrow> string \<Rightarrow> exn + json" where
  "getitem d k = (case map_of d k of None \<Rightarrow> Inl (KeyError k) | Some v \<Rightarrow> Inr v)"

definition step_failure :: "string \<Rightarrow> string \<Rightarrow> string \<Rightarrow> StepResult" where
  "step_failure status code detail =
     \<lparr>sr_status = status, sr_output = None, sr_error_code = Some code, sr_error_detail = Some detail\<rparr>"

definition step_success :: "dict \<Rightarrow> StepResult" where
  "step_success output =
     \<lparr>sr_status = ''succeeded'', sr_output = Some output, sr_error_code = None, sr_error_detail = None\<rparr>"

section \<open>Ingest and route\<close>

definition ingest_handle :: "'r handler" where
  "ingest_handle ctx =
     bindE (readE w_float_repr) (\<lambda>fr.
     bindE (foldE (ctx_document_ids ctx) (\<lambda>doc_id missing.
       bindE (find_document doc_id) (\<lambda>doc.
       returnE (if doc = None then missing @ [doc_ref_str fr doc_id] else missing))) []) (\<lambda>missing_ids.
     if missing_ids \<noteq> []
     then returnE (step_failure ''failed_terminal'' ''DOCUMENTS_NOT_FOUND'' (''Documents not found: '' @ py_join '', '' missing_ids))
     else returnE (step_success [(''document_count'', JInt (int (length (ctx_document_ids ctx))))])))"

definition route_handle :: "'r handler" where
  "route_handle ctx = returnE (step_success [(''routed'', JBool True), (''destination'', JStr ''passthrough'')])"

section \<open>Extract\<close>

definition OCR_CONTENT_TYPES :: "string list" where
  "OCR_CONTENT_TYPES = [''application/pdf'', ''image/png'', ''image/jpeg'', ''image/tiff'']"

definition execution ::
  "StepContext \<Rightarrow> uuid \<Rightarrow> string \<Rightarrow> string \<Rightarrow> string \<Rightarrow> string \<Rightarrow> rat \<Rightarrow> time \<Rightarrow> AIExecutionMetadata" where
  "execution ctx execution_id operation_type provider_name model prompt_version latency_ms started_at =
     \<lparr>ex_execution_id = execution_id, ex_workflow_run_id = ctx_workflow_run_id ctx, ex_step_name = ctx_step_name ctx,
      ex_operation_type = operation_type, ex_provider_name = provider_name, ex_model = model,
      ex_prompt_version = prompt_version, ex_input_hash = [], ex_output_hash = [], ex_confidence = None,
      ex_latency_ms = latency_ms, ex_token_usage = [], ex_started_at = started_at, ex_completed_at = None,
      ex_success = True, ex_error_code = None, ex_error_detail = None\<rparr>"

text \<open>The OCR stage of a document: on a failure the raw bytes are used.\<close>

definition ocr_stage ::
  "'r OCRProvider \<Rightarrow> StepContext \<Rightarrow> bytes \<Rightarrow> string \<Rightarrow> ('r, bytes \<times> AIExecutionMetadata list) sexec" where
  "ocr_stage ocr_provider ctx content content_type =
     (if content_type \<in> set OCR_CONTENT_TYPES
      then
        bindE perf_counter (\<lambda>start.
        catchE
          (bindE (ocr_extract_text ocr_provider content content_type []) (\<lambda>r.
           bindE uuid4 (\<lambda>eid.
           bindE perf_counter (\<lambda>stop.
           bindE now_utc (\<lambda>started.
           returnE (utf8 (ocr_full_text r),
             [(execution ctx eid ''ocr'' (ocr_name ocr_provider) ''ocr'' ''n/a'' ((stop - start) * 1000) started)
              \<lparr>ex_input_hash := hex_prefix 16 content, ex_confidence := Some (min_or 1 (map pg_confidence (ocr_pages r)))\<rparr>]))))))
          (\<lambda>_. returnE (content, [])))
      else returnE (content, []))"

definition extraction_execution :: "StepContext \<Rightarrow> bytes \<Rightarrow> ExtractionResult \<Rightarrow> ('r, AIExecutionMetadata) sexec" where
  "extraction_execution ctx content result =
     bindE uuid4 (\<lambda>eid.
     bindE now_utc (\<lambda>started.
     returnE ((execution ctx eid ''extraction'' ''stub_extractor'' ''stub_extractor'' ''1.0.0'' 0 started)
       \<lparr>ex_input_hash := hex_prefix 16 content,
        ex_output_hash := hex_prefix 16 (utf8 (list_repr (sort (map fst (er_fields result))))),
        ex_confidence := Some (min_confidence result)\<rparr>)))"

text \<open>The optional check by a model: its failure is ignored.\<close>

definition enhancement_stage ::
  "'r AIProvider \<Rightarrow> StepContext \<Rightarrow> ExtractionResult \<Rightarrow> ('r, AIExecutionMetadata list) sexec" where
  "enhancement_stage ai_provider ctx result =
     (if min_confidence result < 8 / 10 \<or> length (er_fields result) < 3
      then
        bindE perf_counter (\<lambda>start.
        catchE
          (bindE (ai_generate ai_provider
             (''Verify extraction from insurance document. Fields: '' @ list_repr (map fst (er_fields result))
              @ ''. Min confidence: '' @ fmt2 (min_confidence result)) None 0 256) (\<lambda>response.
           bindE uuid4 (\<lambda>eid.
           bindE perf_counter (\<lambda>stop.
           bindE now_utc (\<lambda>started.
           returnE [(execution ctx eid ''ai_enhancement'' (ai_name ai_provider) (rsp_model response)
               (rsp_prompt_version response) ((stop - start) * 1000) started)
             \<lparr>ex_token_usage := rsp_usage response\<rparr>])))))
          (\<lambda>_. returnE []))
      else returnE [])"

definition provenance_json :: "Provenance \<Rightarrow> json" where
  "provenance_json p = JObj [(''page'', prov_page p), (''offset_start'', prov_offset_start p),
     (''offset_end'', prov_offset_end p), (''text_snippet'', prov_text_snippet p)]"

definition field_json :: "ExtractionField \<Rightarrow> json" where
  "field_json f = JObj [(''name'', ef_name f), (''value'', ef_value f), (''confidence'', JFloat (ef_confidence f)),
     (''provenance'', JArr (map provenance_json (ef_provenance f)))]"

definition merge_fields :: "ExtractionResult \<Rightarrow> dict \<Rightarrow> dict" where
  "merge_fields result all_fields = fold (\<lambda>(name, f) d. dict_set d name (field_json f)) (er_fields result) all_fields"

text \<open>One turn of the loop over the documents: an early return, or what is accumulated.\<close>

definition extract_document ::
  "(bytes \<Rightarrow> string) \<Rightarrow> string \<Rightarrow> 'r OCRProvider \<Rightarrow> 'r AIProvider \<Rightarrow> StepContext \<Rightarrow> doc_ref \<Rightarrow>
   dict \<times> AIExecutionMetadata list \<Rightarrow> ('r, StepResult + dict \<times> AIExecutionMetadata list) sexec" where
  "extract_document decode base ocr_provider ai_provider ctx doc_id = (\<lambda>(all_fields, executions).
     bindE (readE w_float_repr) (\<lambda>fr.
     bindE (find_document doc_id) (\<lambda>found.
     case found of
       None \<Rightarrow> returnE (Inl (step_failure ''failed_terminal'' ''DOCUMENT_NOT_FOUND''
                 (''Document '' @ doc_ref_str fr doc_id @ '' not found during extraction.'')))
     | Some doc \<Rightarrow>
     bindE (catchE (bindE (payload_read base (doc_payload_ref doc)) (\<lambda>b. returnE (Inr b)))
       (\<lambda>e. case e of
          FileNotFoundError _ \<Rightarrow> returnE (Inl (step_failure ''failed_retryable'' ''PAYLOAD_NOT_FOUND''
            (''Payload not found for document '' @ doc_ref_str fr doc_id @ '' (ref: '' @ doc_payload_ref doc @ '').'')))
        | OSError msg \<Rightarrow> returnE (Inl (step_failure ''failed_retryable'' ''PAYLOAD_READ_ERROR''
            (''Error reading payload for document '' @ doc_ref_str fr doc_id @ '': '' @ msg)))
        | _ \<Rightarrow> raiseE e)) (\<lambda>loaded.
     case loaded of
       Inl failure \<Rightarrow> returnE (Inl failure)
     | Inr content \<Rightarrow>
     bindE (ocr_stage ocr_provider ctx content (doc_content_type doc)) (\<lambda>(effective_content, ocr_runs).
     let result = stub_extract decode effective_content in
     bindE (extraction_execution ctx effective_content result) (\<lambda>extraction_run.
     bindE (enhancement_stage ai_provider ctx result) (\<lambda>enhancement_runs.
     returnE (Inr (merge_fields result all_fields,
       executions @ ocr_runs @ [extraction_run] @ enhancement_runs)))))))))"

fun extract_documents ::
  "(bytes \<Rightarrow> string) \<Rightarrow> string \<Rightarrow> 'r OCRProvider \<Rightarrow> 'r AIProvider \<Rightarrow> StepContext \<Rightarrow> doc_ref list \<Rightarrow>
   dict \<times> AIExecutionMetadata list \<Rightarrow> ('r, StepResult + dict \<times> AIExecutionMetadata list) sexec" where
  "extract_documents decode base ocr_provider ai_provider ctx [] acc = returnE (Inr acc)"
| "extract_documents decode base ocr_provider ai_provider ctx (doc_id # rest) acc =
     bindE (extract_document decode base ocr_provider ai_provider ctx doc_id acc) (\<lambda>v.
     case v of
       Inl failure \<Rightarrow> returnE (Inl failure)
     | Inr acc' \<Rightarrow> extract_documents decode base ocr_provider ai_provider ctx rest acc')"

definition extract_handle ::
  "(bytes \<Rightarrow> string) \<Rightarrow> string \<Rightarrow> 'r OCRProvider \<Rightarrow> 'r AIProvider \<Rightarrow> 'r handler" where
  "extract_handle decode base ocr_provider ai_provider ctx =
     bindE (extract_documents decode base ocr_provider ai_provider ctx (ctx_document_ids ctx) ([], [])) (\<lambda>v.
     case v of
       Inl failure \<Rightarrow> returnE failure
     | Inr (all_fields, executions) \<Rightarrow>
         returnE (step_success
           ([(''fields'', JObj all_fields), (''extractor_name'', JStr ''stub_extractor''),
             (''extractor_version'', JStr ''1.0.0'')]
            @ to_output_ref (aggregate_step_metadata (ctx_step_attempt_id ctx) executions))))"

section \<open>Validate\<close>

definition reconstruct_provenance :: "json \<Rightarrow> ('w, Provenance) exec" where
  "reconstruct_provenance v =
     bindE (as_dict v) (\<lambda>p.
     returnE \<lparr>prov_page = dict_get_or p ''page'' JNull, prov_offset_start = dict_get_or p ''offset_start'' JNull,
       prov_offset_end = dict_get_or p ''offset_end'' JNull, prov_text_snippet = dict_get_or p ''text_snippet'' JNull\<rparr>)"

definition reconstruct_field :: "(rat \<Rightarrow> string) \<Rightarrow> json \<Rightarrow> ('w, ExtractionField) exec" where
  "reconstruct_field fr v =
     bindE (as_dict v) (\<lambda>field_data.
     bindE (liftE (iter_json (dict_get_or field_data ''provenance'' (JArr [])))) (\<lambda>ps.
     bindE (foldE ps (\<lambda>p acc. bindE (reconstruct_provenance p) (\<lambda>q. returnE (acc @ [q]))) []) (\<lambda>provenance_list.
     bindE (liftE (getitem field_data ''name'')) (\<lambda>name.
     bindE (liftE (getitem field_data ''value'')) (\<lambda>val.
     bindE (liftE (getitem field_data ''confidence'')) (\<lambda>confidence.
     liftE (extraction_field fr name val confidence provenance_list)))))))"

definition reconstruct_extraction_result :: "(rat \<Rightarrow> string) \<Rightarrow> json \<Rightarrow> ('w, ExtractionResult) exec" where
  "reconstruct_extraction_result fr extract_output =
     bindE (as_dict extract_output) (\<lambda>output.
     bindE (as_dict (dict_get_or output ''fields'' (JObj []))) (\<lambda>raw_fields.
     bindE (foldE raw_fields (\<lambda>(field_name, field_data) fs.
       bindE (reconstruct_field fr field_data) (\<lambda>f. returnE (AList.update field_name f fs))) []) (\<lambda>fs.
     returnE \<lparr>er_fields = fs, er_extractor_name = dict_get_or output ''extractor_name'' (JStr ''unknown''),
       er_extractor_version = dict_get_or output ''extractor_version'' (JStr ''unknown''), er_raw_text = None\<rparr>)))"

definition reason_json :: "ValidationReason \<Rightarrow> json" where
  "reason_json r = JObj [(''code'', JStr (vr_code r)), (''field'', jstr_opt (vr_field_name r)),
     (''message'', JStr (vr_message r)), (''detail'', JObj (vr_detail r))]"

definition validator_entries :: dict where
  "validator_entries = [(''validator_name'', JStr ''rule_based_validator''), (''validator_version'', JStr ''1.0.0'')]"

text \<open>The branch for extractions that passed.\<close>

definition route_for_review :: "ExtractionResult \<Rightarrow> StepResult" where
  "route_for_review result =
     (let routing = evaluate_review_routing (map (map_prod id ef_confidence) (er_fields result)) default_thresholds None True in
      if rt_requires_review routing
      then \<lparr>sr_status = ''escalate'',
        sr_output = Some ([(''validation_status'', JStr ''pass_with_review''),
          (''review_routing'', JObj [(''requires_review'', JBool True),
             (''reasons'', JArr (map (JStr \<circ> review_reason_value) (rt_reasons routing))),
             (''overall_confidence'', JFloat (rt_overall_confidence routing)),
             (''suggested_action'', JStr (rt_suggested_action routing))])] @ validator_entries),
        sr_error_code = Some ''REVIEW_REQUIRED'',
        sr_error_detail = Some (''Extraction passed validation but requires human review: ''
          @ py_join '', '' (map review_reason_value (rt_reasons routing)))\<rparr>
      else step_success ([(''validation_status'', JStr ''pass''),
          (''review_routing'', JObj [(''requires_review'', JBool False),
             (''overall_confidence'', JFloat (rt_overall_confidence routing))])] @ validator_entries))"

definition validation_result :: "(rat \<Rightarrow> string) \<Rightarrow> ExtractionResult \<Rightarrow> StepResult" where
  "validation_result fr result =
     (let outcome = validate fr result \<lparr>ref_snapshot_id = None, ref_data = []\<rparr>;
          codes = py_join '', '' (map vr_code (vo_reasons outcome)) in
      if vo_status outcome = ''pass'' then route_for_review result
      else if vo_status outcome = ''fail_correctable''
      then \<lparr>sr_status = ''escalate'',
        sr_output = Some ([(''validation_status'', JStr ''fail_correctable''),
          (''reasons'', JArr (map reason_json (vo_reasons outcome))),
          (''overrides_requested'', JObj (map (map_prod id JStr) (vo_overrides_requested outcome)))] @ validator_entries),
        sr_error_code = Some ''VALIDATION_FAIL_CORRECTABLE'',
        sr_error_detail = Some (''Validation failed with '' @ int_str (int (length (vo_reasons outcome)))
          @ '' correctable issue(s): '' @ codes)\<rparr>
      else \<lparr>sr_status = ''failed_terminal'',
        sr_output = Some ([(''validation_status'', JStr ''fail_terminal''),
          (''reasons'', JArr (map reason_json (vo_reasons outcome)))] @ validator_entries),
        sr_error_code = Some ''VALIDATION_FAIL_TERMINAL'',
        sr_error_detail = Some (''Validation failed terminally: '' @ codes)\<rparr>)"

definition validate_handle :: "'r handler" where
  "validate_handle ctx =
     (case dict_get_or (ctx_previous_outputs ctx) ''extract'' JNull of
        JNull \<Rightarrow> returnE (step_failure ''failed_terminal'' ''MISSING_EXTRACT_OUTPUT''
                  ''No extract step output found in previous_outputs.'')
      | extract_output \<Rightarrow>
          bindE (readE w_float_repr) (\<lambda>fr.
          bindE (reconstruct_extraction_result fr extract_output) (\<lambda>result.
          returnE (validation_result fr result))))"

section \<open>Complete\<close>

text \<open>\<open>{name: data.get('value', '') for name, data in raw_fields.items()}\<close>\<close>

definition field_values :: "json \<Rightarrow> ('w, dict) exec" where
  "field_values extract_output =
     (case extract_output of
        JObj output \<Rightarrow>
          if output = [] then returnE []
          else
            bindE (as_dict (dict_get_or output ''fields'' (JObj []))) (\<lambda>raw_fields.
            foldE raw_fields (\<lambda>(name, data) vs.
              bindE (as_dict data) (\<lambda>d. returnE (dict_set vs name (dict_get_or d ''value'' (JStr []))))) [])
      | _ \<Rightarrow> returnE [])"

definition complete_handle :: "'r AIProvider \<Rightarrow> 'r handler" where
  "complete_handle ai_provider ctx =
     bindE (field_values (dict_get_or (ctx_previous_outputs ctx) ''extract'' JNull)) (\<lambda>extracted_fields.
     bindE (readE w_float_repr) (\<lambda>fr.
     bindE (catchE
       (bindE (summarize_workflow ai_provider default_summarization (py_str fr (ctx_workflow_name ctx)) ''v1'' ''completed''
          (int (length (ctx_previous_outputs ctx)) + 1) ''completed'' extracted_fields) (\<lambda>r.
        returnE (sum_summary_text r)))
       (\<lambda>_. returnE [])) (\<lambda>summary_text.
     returnE (step_success [(''completed'', JBool True), (''summary'', JStr summary_text),
       (''fields_extracted'', JInt (int (length extracted_fields)))]))))"

section \<open>The handler table\<close>

definition HANDLER_MAP :: "(bytes \<Rightarrow> string) \<Rightarrow> (string \<times> 'r handler) list" where
  "HANDLER_MAP decode =
     [(''ingest'', ingest_handle),
      (''extract'', extract_handle decode ''/data/payloads'' (mock_ocr decode) mock_ai),
      (''validate'', validate_handle), (''route'', route_handle), (''complete'', complete_handle mock_ai)]"

definition get_handler :: "(bytes \<Rightarrow> string) \<Rightarrow> 'r handler_map" where
  "get_handler decode handler_name = map_of (HANDLER_MAP decode) handler_name"

section \<open>Handlers only read\<close>

text \<open>All that a handler does to the world is to draw from its clocks and identifiers.\<close>

lemma keeps_one_or_none [keeps_intros]: "keeps I (scalar_one_or_none rows)"
  by (simp add: scalar_one_or_none_def keeps_def split: list.split)

lemma keeps_payload_read [keeps_intros]: "keeps I (payload_read base ref)"
  unfolding payload_read_def by (intro keeps_intros)

lemma keeps_reconstruct [keeps_intros]: "keeps I (reconstruct_extraction_result fr v)"
  unfolding reconstruct_extraction_result_def reconstruct_field_def reconstruct_provenance_def case_prod_beta
  by (intro keeps_intros)

lemma keeps_field_values [keeps_intros]: "keeps I (field_values v)"
  unfolding field_values_def case_prod_beta by (cases v) (auto intro!: keeps_intros)

lemma keeps_find_document [keeps_intros]: "keeps I (find_document r)"
  unfolding find_document_def document_get_by_id_def read_db_def
  by (cases r) (auto intro!: keeps_intros)

locale draws_kept =
  fixes I :: "'r sysworld \<Rightarrow> bool"
  assumes perf_counter_keeps [keeps_intros]: "keeps I perf_counter"
    and uuid4_keeps [keeps_intros]: "keeps I uuid4"
    and now_utc_keeps [keeps_intros]: "keeps I now_utc"
begin

lemma mock_keeps [keeps_intros]:
  "keeps I (ai_generate mock_ai p m t k)" "keeps I (ocr_extract_text (mock_ocr decode) b ct md)"
  by (auto simp: mock_ai_def mock_ocr_def mock_generate_def mock_extract_text_def Let_def intro!: keeps_intros)

lemma extract_documents_keeps [keeps_intros]:
  "keeps I (extract_documents decode base (mock_ocr decode) mock_ai ctx ids acc)"
proof (induction ids arbitrary: acc)
  case (Cons i ids)
  have "keeps I (extract_document decode base (mock_ocr decode) mock_ai ctx i acc)"
    unfolding extract_document_def ocr_stage_def extraction_execution_def enhancement_stage_def Let_def case_prod_beta
    by (intro keeps_intros; simp split: exn.split add: keeps_intros)
  with Cons.IH show ?case by (auto intro!: keeps_intros)
qed (simp add: keeps_intros)

lemma summarize_workflow_keeps [keeps_intros]: "keeps I (summarize_workflow mock_ai config a b c d e f)"
  unfolding summarize_workflow_def execute_summary_def Let_def by (intro keeps_intros)

lemma handler_keeps: "get_handler decode n = Some h \<Longrightarrow> keeps I (h ctx)"
proof -
  have "keeps I (ingest_handle ctx)" "keeps I (route_handle ctx)"
    "keeps I (extract_handle decode base (mock_ocr decode) mock_ai ctx)"
    "keeps I (complete_handle mock_ai ctx)" for base
    unfolding ingest_handle_def route_handle_def extract_handle_def complete_handle_def by (intro keeps_intros)+
  moreover have "keeps I (validate_handle ctx)"
    unfolding validate_handle_def by (auto split: json.split intro!: keeps_intros)
  ultimately show "get_handler decode n = Some h \<Longrightarrow> keeps I (h ctx)"
    by (auto simp: get_handler_def HANDLER_MAP_def split: if_splits)
qed

end

text \<open>What \<open>read_only\<close> asks of a handler: the world \<open>w0\<close> it started in is still there, but for the draws.\<close>

definition unchanged :: "'r sysworld \<Rightarrow> 'r sysworld \<Rightarrow> bool" where
  "unchanged w0 w \<longleftrightarrow> w_db w = w_db w0 \<and> w_files w = w_files w0 \<and> w_redis w = w_redis w0 \<and> advances w0 w"

interpretation only_draws: draws_kept "unchanged w0" for w0
  by unfold_locales (simp_all add: keeps_def unchanged_def advances_def perf_counter_def uuid4_def now_utc_def)

theorem handlers_read_only: "read_only (get_handler decode)"
  unfolding read_only_def
proof (intro allI impI)
  fix n h ctx and w w' :: "'a sysworld" and r
  assume h: "get_handler decode n = Some h" and run: "h ctx w = (r, w')"
  have "unchanged w w" by (simp add: unchanged_def)
  from keepsD [OF only_draws.handler_keeps [OF h] this run]
  show "w_db w' = w_db w \<and> w_files w' = w_files w \<and> w_redis w' = w_redis w \<and> advances w w'"
    by (simp add: unchanged_def)
qed

section \<open>From extraction to validation\<close>

lemma foldE_pure:
  "(\<And>x acc w. x \<in> set xs \<Longrightarrow> body x acc w = (Inr (g x acc), w)) \<Longrightarrow> foldE xs body a w = (Inr (fold g xs a), w)"
proof (induction xs arbitrary: a)
  case (Cons x xs)
  then have "body x a w = (Inr (g x a), w)" by simp
  with Cons show ?case by simp
qed simp

lemma fold_snoc_map: "fold (\<lambda>x acc. acc @ [h x]) xs acc = acc @ map h xs"
  by (induction xs arbitrary: acc) simp_all

lemma fold_update_fresh:
  "distinct (map fst fs) \<Longrightarrow> fst ` set fs \<inter> fst ` set acc = {} \<Longrightarrow>
     fold (\<lambda>(k, v) d. AList.update k v d) fs acc = acc @ fs"
proof (induction fs arbitrary: acc)
  case (Cons x fs)
  obtain k v where x: "x = (k, v)" by (cases x)
  have "k \<notin> fst ` set acc" using Cons.prems(2) x by auto
  then have "AList.update k v acc = acc @ [(k, v)]" by (induction acc) auto
  moreover have "fold (\<lambda>(k, v) d. AList.update k v d) fs (acc @ [(k, v)]) = (acc @ [(k, v)]) @ fs"
    using Cons.prems x by (intro Cons.IH) auto
  ultimately show ?case using x by simp
qed simp

lemma reconstruct_provenance_json:
  "reconstruct_provenance (provenance_json p) w = (Inr p, w)"
  by (simp add: reconstruct_provenance_def provenance_json_def as_dict_def dict_get_or_def)

lemma reconstruct_field_json:
  assumes "0 \<le> ef_confidence f" "ef_confidence f \<le> 1"
  shows "reconstruct_field fr (field_json f) w = (Inr f, w)"
proof -
  have "foldE (map provenance_json (ef_provenance f))
      (\<lambda>p acc. bindE (reconstruct_provenance p) (\<lambda>q. returnE (acc @ [q]))) [] w = (Inr (ef_provenance f), w)"
  proof -
    have "foldE (map provenance_json (ef_provenance f))
      (\<lambda>p acc. bindE (reconstruct_provenance p) (\<lambda>q. returnE (acc @ [q]))) [] w =
      (Inr (fold (\<lambda>p acc. acc @ [inv provenance_json p]) (map provenance_json (ef_provenance f)) []), w)"
    proof (rule foldE_pure)
      fix x acc w assume "x \<in> set (map provenance_json (ef_provenance f))"
      then obtain p where p: "x = provenance_json p" by auto
      have "inj provenance_json" by (rule injI) (simp add: provenance_json_def)
      with p show "bindE (reconstruct_provenance x) (\<lambda>q. returnE (acc @ [q])) w = (Inr (acc @ [inv provenance_json x]), w)"
        by (simp add: reconstruct_provenance_json)
    qed
    moreover have "inj provenance_json" by (rule injI) (simp add: provenance_json_def)
    ultimately show ?thesis by (simp add: fold_snoc_map fold_map o_def)
  qed
  with assms show ?thesis
    by (simp add: reconstruct_field_def field_json_def as_dict_def dict_get_or_def iter_json_def liftE_def getitem_def
        extraction_field_def json_number_def)
qed

definition extract_output :: "(string \<times> ExtractionField) list \<Rightarrow> dict \<Rightarrow> dict" where
  "extract_output fs rest =
     [(''fields'', JObj (map (map_prod id field_json) fs)), (''extractor_name'', JStr ''stub_extractor''),
      (''extractor_version'', JStr ''1.0.0'')] @ rest"

lemma reconstruct_extract_output:
  assumes "distinct (map fst fs)" "\<And>n f. (n, f) \<in> set fs \<Longrightarrow> 0 \<le> ef_confidence f \<and> ef_confidence f \<le> 1"
  shows "reconstruct_extraction_result fr (JObj (extract_output fs rest)) w =
    (Inr \<lparr>er_fields = fs, er_extractor_name = JStr ''stub_extractor'', er_extractor_version = JStr ''1.0.0'', er_raw_text = None\<rparr>, w)"
proof -
  define body where "body = (\<lambda>(field_name, field_data) fs.
       bindE (reconstruct_field fr field_data) (\<lambda>f. returnE (AList.update field_name f fs)) :: ('a, (string \<times> ExtractionField) list) exec)"
  have "foldE (map (map_prod id field_json) gs) body acc w = (Inr (fold (\<lambda>(k, v) d. AList.update k v d) gs acc), w)"
    if "set gs \<subseteq> set fs" for gs acc
    using that
  proof (induction gs arbitrary: acc)
    case (Cons x gs)
    obtain n f where x: "x = (n, f)" by (cases x)
    with Cons.prems assms(2) have "0 \<le> ef_confidence f" "ef_confidence f \<le> 1" by auto
    with Cons x show ?case by (simp add: body_def reconstruct_field_json bindE_assoc)
  qed simp
  from this [of fs "[]"] fold_update_fresh [OF assms(1), of "[]"]
  have "foldE (map (map_prod id field_json) fs) body [] w = (Inr fs, w)" by simp
  then show ?thesis
    by (simp add: reconstruct_extraction_result_def extract_output_def as_dict_def dict_get_or_def body_def)
qed

section \<open>What the extract step produces\<close>

text \<open>The bytes the extractor sees of a document, with the mock OCR.\<close>

definition effective_content :: "bytes \<Rightarrow> string \<Rightarrow> bytes" where
  "effective_content content content_type =
     (if content_type \<in> set OCR_CONTENT_TYPES then utf8 (mock_ocr_text content content_type) else content)"

definition fields_json :: "(string \<times> ExtractionField) list \<Rightarrow> dict" where
  "fields_json fs = map (map_prod id field_json) fs"

definition update_all :: "('k \<times> 'v) list \<Rightarrow> ('k \<times> 'v) list \<Rightarrow> ('k \<times> 'v) list" where
  "update_all xs fs = fold (\<lambda>(k, v) fs. AList.update k v fs) xs fs"

lemma update_map: "AList.update k (g v) (map (map_prod id g) fs) = map (map_prod id g) (AList.update k v fs)"
  by (induction fs) auto

lemma merge_fields_map: "merge_fields r (fields_json fs) = fields_json (update_all (er_fields r) fs)"
proof -
  have "fold (\<lambda>(name, f) d. dict_set d name (field_json f)) xs (fields_json fs) = fields_json (update_all xs fs)" for xs
    by (induction xs arbitrary: fs) (auto simp: dict_set_def update_map update_all_def fields_json_def)
  then show ?thesis by (simp add: merge_fields_def)
qed

lemma update_all_Nil [simp]: "update_all [] fs = fs"
  by (simp add: update_all_def)

lemma update_all_append [simp]: "update_all (xs @ ys) fs = update_all ys (update_all xs fs)"
  by (simp add: update_all_def)

lemma find_document_run:
  assumes "distinct (map doc_document_id (documents (w_db w)))" "d \<in> set (documents (w_db w))"
  shows "find_document (DocId (doc_document_id d)) w = (Inr (Some d), w)"
  using filter_eq_distinct_key [OF assms]
  by (simp add: find_document_def document_get_by_id_def read_db_def scalar_one_or_none_def)

lemma ocr_stage_run:
  "\<exists>runs w'. ocr_stage (mock_ocr decode) ctx content ct w = (Inr (effective_content content ct, runs), w') \<and> unchanged w w'"
proof -
  have "unchanged w (snd (ocr_stage (mock_ocr decode) ctx content ct w))"
  proof -
    have "keeps (unchanged w) (ocr_stage (mock_ocr decode) ctx content ct)"
      unfolding ocr_stage_def by (intro keeps_intros)
    moreover have "unchanged w w" by (simp add: unchanged_def)
    ultimately show ?thesis by (simp add: keeps_def)
  qed
  moreover have "\<exists>runs. fst (ocr_stage (mock_ocr decode) ctx content ct w) = Inr (effective_content content ct, runs)"
  proof (cases "ct \<in> set OCR_CONTENT_TYPES")
    case True
    then have "take 5 ct \<noteq> ''text/''" by (auto simp: OCR_CONTENT_TYPES_def)
    with True show ?thesis
      by (simp add: ocr_stage_def effective_content_def mock_ocr_def mock_extract_text_def perf_counter_def uuid4_def now_utc_def
          bindE_def catchE_def returnE_def Let_def)
  qed (simp add: ocr_stage_def effective_content_def)
  ultimately show ?thesis by (metis prod.collapse)
qed

text \<open>A provider of either kind may fail or return as it likes, but has no access to the program's data.\<close>

definition harmless :: "'r AIProvider \<Rightarrow> bool" where
  "harmless ai \<longleftrightarrow> (\<forall>w0 p m t k. keeps (unchanged w0) (ai_generate ai p m t k))"

lemma harmless_mock: "harmless mock_ai"
  by (simp add: harmless_def keeps_intros)

lemma enhancement_run:
  assumes "harmless ai"
  shows "\<exists>runs w'. enhancement_stage ai ctx r w = (Inr runs, w') \<and> unchanged w w'"
proof -
  have "keeps (unchanged w) (enhancement_stage ai ctx r)"
    using assms unfolding enhancement_stage_def harmless_def by (intro keeps_intros) blast
  then have "unchanged w (snd (enhancement_stage ai ctx r w))" by (simp add: keeps_def unchanged_def)
  moreover have "\<exists>runs. fst (enhancement_stage ai ctx r w) = Inr runs"
    by (auto simp: enhancement_stage_def perf_counter_def uuid4_def now_utc_def bindE_def catchE_def returnE_def
        split: prod.split sum.split)
  ultimately show ?thesis by (metis prod.collapse)
qed

lemma unchanged_trans: "unchanged w0 w1 \<Longrightarrow> unchanged w1 w2 \<Longrightarrow> unchanged w0 w2"
  by (auto simp: unchanged_def advances_def)

definition stored :: "string \<Rightarrow> 'r sysworld \<Rightarrow> DocumentModel \<Rightarrow> bytes \<Rightarrow> bool" where
  "stored base w d b \<longleftrightarrow> d \<in> set (documents (w_db w)) \<and> w_files w (ref_to_path base (doc_payload_ref d)) = Some b"

definition doc_result :: "(bytes \<Rightarrow> string) \<Rightarrow> DocumentModel \<times> bytes \<Rightarrow> ExtractionResult" where
  "doc_result decode = (\<lambda>(d, b). stub_extract decode (effective_content b (doc_content_type d)))"

lemma extract_document_run:
  assumes "harmless ai" "distinct (map doc_document_id (documents (w_db w)))" "stored base w d b"
  shows "\<exists>ex' w'. extract_document decode base (mock_ocr decode) ai ctx (DocId (doc_document_id d))
      (fields_json fs, ex) w =
    (Inr (Inr (fields_json (update_all (er_fields (doc_result decode (d, b))) fs), ex')), w')
    \<and> unchanged w w'"
proof -
  let ?r = "doc_result decode (d, b)"
  obtain runs w1 where ocr: "ocr_stage (mock_ocr decode) ctx b (doc_content_type d) w = (Inr (effective_content b (doc_content_type d), runs), w1)"
    and u1: "unchanged w w1" using ocr_stage_run by blast
  obtain run w2 where ex: "extraction_execution ctx (effective_content b (doc_content_type d)) ?r w1 = (Inr run, w2)" and u2: "unchanged w1 w2"
    by (simp add: extraction_execution_def uuid4_def now_utc_def bindE_def returnE_def unchanged_def advances_def)
  obtain runs2 w3 where en: "enhancement_stage ai ctx ?r w2 = (Inr runs2, w3)" and u3: "unchanged w2 w3"
    using enhancement_run [OF assms(1)] by blast
  have read: "payload_read base (doc_payload_ref d) w = (Inr b, w)"
    using assms(3) by (simp add: payload_read_def stored_def)
  have "d \<in> set (documents (w_db w))" using assms(3) by (simp add: stored_def)
  from find_document_run [OF assms(2) this] read ocr ex en
  show ?thesis using unchanged_trans [OF unchanged_trans [OF u1 u2] u3]
    by (simp add: extract_document_def doc_result_def bindE_def catchE_def returnE_def readE_def Let_def merge_fields_map)
qed

lemma extract_documents_run:
  assumes "harmless ai" "distinct (map doc_document_id (documents (w_db w)))" "\<And>d b. (d, b) \<in> set ds \<Longrightarrow> stored base w d b"
  shows "\<exists>ex' w'. extract_documents decode base (mock_ocr decode) ai ctx (map (\<lambda>(d, b). DocId (doc_document_id d)) ds)
      (fields_json fs, ex) w =
    (Inr (Inr (fields_json
      (update_all (concat (map (er_fields \<circ> doc_result decode) ds)) fs), ex')), w')
    \<and> unchanged w w'"
  using assms(2,3)
proof (induction ds arbitrary: w fs ex)
  case (Cons x ds)
  obtain d b where x: "x = (d, b)" by (cases x)
  from Cons.prems(2) x have "stored base w d b" by simp
  from extract_document_run [OF assms(1) Cons.prems(1) this, of decode ctx fs ex] obtain ex1 w1 where
    1: "extract_document decode base (mock_ocr decode) ai ctx (DocId (doc_document_id d)) (fields_json fs, ex) w =
    (Inr (Inr (fields_json (update_all (er_fields (doc_result decode (d, b))) fs), ex1)), w1)"
    and u1: "unchanged w w1" by blast
  have "distinct (map doc_document_id (documents (w_db w1)))" "stored base w1 d b" if "(d, b) \<in> set ds" for d b
    using u1 Cons.prems that by (auto simp: unchanged_def stored_def)
  moreover have "distinct (map doc_document_id (documents (w_db w1)))" using u1 Cons.prems(1) by (simp add: unchanged_def)
  ultimately obtain ex2 w2 where
    2: "extract_documents decode base (mock_ocr decode) ai ctx (map (\<lambda>(d, b). DocId (doc_document_id d)) ds)
      (fields_json (update_all (er_fields (doc_result decode (d, b))) fs), ex1) w1 =
    (Inr (Inr (fields_json
      (update_all (concat (map (er_fields \<circ> doc_result decode) ds))
        (update_all (er_fields (doc_result decode (d, b))) fs)), ex2)), w2)"
    and u2: "unchanged w1 w2" using Cons.IH [of w1] by blast
  from 1 2 unchanged_trans [OF u1 u2] show ?case by (simp add: x o_def)
qed (simp add: unchanged_def)

definition document_fields :: "(bytes \<Rightarrow> string) \<Rightarrow> (DocumentModel \<times> bytes) list \<Rightarrow> (string \<times> ExtractionField) list" where
  "document_fields decode ds = update_all (concat (map (er_fields \<circ> doc_result decode) ds)) []"

lemma extract_handle_run:
  assumes "harmless ai" "distinct (map doc_document_id (documents (w_db w)))" "\<And>d b. (d, b) \<in> set ds \<Longrightarrow> stored base w d b"
    and "ctx_document_ids ctx = map (\<lambda>(d, b). DocId (doc_document_id d)) ds"
  shows "\<exists>rest w'. extract_handle decode base (mock_ocr decode) ai ctx w =
    (Inr (step_success (extract_output (document_fields decode ds) rest)), w') \<and> unchanged w w'"
proof -
  from extract_documents_run [OF assms(1,2,3), where ds = ds and decode = decode and ctx = ctx and fs = "[]" and ex = "[]"] obtain ex w' where
    "extract_documents decode base (mock_ocr decode) ai ctx (ctx_document_ids ctx) ([], []) w =
      (Inr (Inr (fields_json (document_fields decode ds), ex)), w')" "unchanged w w'"
    unfolding assms(4) document_fields_def by (auto simp: fields_json_def [of "[]"])
  then show ?thesis
    by (intro exI [of _ "to_output_ref (aggregate_step_metadata (ctx_step_attempt_id ctx) ex)"] exI [of _ w'])
      (simp add: extract_handle_def extract_output_def fields_json_def)
qed

lemma update_all_props:
  "distinct (map fst fs) \<Longrightarrow> distinct (map fst (update_all xs fs))"
  "fst ` set (update_all xs fs) = fst ` set xs \<union> fst ` set fs"
  "set (update_all xs fs) \<subseteq> set xs \<union> set fs"
proof -
  have upd: "set (AList.update k v fs) \<subseteq> insert (k, v) (set fs)" for k v and fs :: "('c \<times> 'd) list"
    by (induction fs) auto
  show "distinct (map fst fs) \<Longrightarrow> distinct (map fst (update_all xs fs))"
    unfolding update_all_def by (induction xs arbitrary: fs) (auto simp: distinct_update)
  show "fst ` set (update_all xs fs) = fst ` set xs \<union> fst ` set fs"
    unfolding update_all_def by (induction xs arbitrary: fs) (simp_all add: dom_update case_prod_beta)
  show "set (update_all xs fs) \<subseteq> set xs \<union> set fs"
  proof (induction xs arbitrary: fs)
    case (Cons x xs)
    obtain k v where "x = (k, v)" by (cases x)
    with Cons.IH [of "AList.update k v fs"] upd [of k v fs] show ?case by (auto simp: update_all_def)
  qed (simp add: update_all_def)
qed

lemma document_fields_props:
  shows document_fields_distinct: "distinct (map fst (document_fields decode ds))"
    and document_fields_from: "(n, f) \<in> set (document_fields decode ds) \<Longrightarrow>
      \<exists>(d, b) \<in> set ds. grounded (decode_text decode (effective_content b (doc_content_type d))) n f"
    and document_fields_names: "n \<in> fst ` set (document_fields decode ds) \<longleftrightarrow>
      (\<exists>(d, b) \<in> set ds. n \<in> fst ` set (er_fields (stub_extract decode (effective_content b (doc_content_type d)))))"
proof -
  let ?xs = "concat (map (er_fields \<circ> doc_result decode) ds)"
  show "distinct (map fst (document_fields decode ds))"
    by (simp add: document_fields_def update_all_props(1))
  show "n \<in> fst ` set (document_fields decode ds) \<longleftrightarrow>
      (\<exists>(d, b) \<in> set ds. n \<in> fst ` set (er_fields (stub_extract decode (effective_content b (doc_content_type d)))))"
    unfolding document_fields_def update_all_props(2) by (force simp: doc_result_def)
  assume "(n, f) \<in> set (document_fields decode ds)"
  then have "(n, f) \<in> set ?xs" using update_all_props(3) [of ?xs "[]"] by (auto simp: document_fields_def)
  then obtain d b where db: "(d, b) \<in> set ds" "(n, f) \<in> set (er_fields (stub_extract decode (effective_content b (doc_content_type d))))"
    by (auto simp: doc_result_def)
  with stub_extract_fields(2) [OF db(2)]
  show "\<exists>(d, b) \<in> set ds. grounded (decode_text decode (effective_content b (doc_content_type d))) n f" by blast
qed

section \<open>What the validate step decides about it\<close>

lemma validate_handle_run:
  assumes "map_of (ctx_previous_outputs ctx) ''extract'' = Some (JObj (extract_output fs rest))"
    and "distinct (map fst fs)" "\<And>n f. (n, f) \<in> set fs \<Longrightarrow> 0 \<le> ef_confidence f \<and> ef_confidence f \<le> 1"
  shows "validate_handle ctx w = (Inr (validation_result (w_float_repr w) \<lparr>er_fields = fs,
    er_extractor_name = JStr ''stub_extractor'', er_extractor_version = JStr ''1.0.0'', er_raw_text = None\<rparr>), w)"
  by (simp add: validate_handle_def dict_get_or_def assms(1) reconstruct_extract_output [OF assms(2,3)])

lemma overall_constant:
  assumes "cs \<noteq> []" "\<And>n c. (n, c) \<in> set cs \<Longrightarrow> c = k"
  shows "overall_confidence cs = k"
proof -
  have "map snd cs = replicate (length cs) k" using assms(2) by (intro replicate_eqI) auto
  then have "sum_list (map snd cs) = of_nat (length cs) * k" by (simp add: sum_list_replicate)
  with assms(1) show ?thesis by (simp add: overall_confidence_def)
qed

lemma review_of_extracted:
  assumes "\<And>n f. (n, f) \<in> set fs \<Longrightarrow> ef_confidence f = CONFIDENCE"
  shows "rt_requires_review (evaluate_review_routing (map (map_prod id ef_confidence) fs) default_thresholds None True)
    \<longleftrightarrow> length fs < 3"
proof -
  let ?cs = "map (map_prod id ef_confidence) fs"
  have c: "c = CONFIDENCE" if "(n, c) \<in> set ?cs" for n c using that assms by auto
  have "7 / 10 \<le> CONFIDENCE" by (simp add: CONFIDENCE_def)
  then have "list_all (\<lambda>(n, c). 7 / 10 \<le> c) ?cs" unfolding list_all_iff using c by blast
  moreover have "9 / 10 \<le> overall_confidence ?cs" if "fs \<noteq> []"
    using overall_constant [of ?cs CONFIDENCE] c that by (simp add: CONFIDENCE_def)
  ultimately show ?thesis using auto_approval_iff [of ?cs] by (cases "fs = []") auto
qed

text \<open>The decision on the fields of the extractor, written out.\<close>

definition decision :: "(rat \<Rightarrow> string) \<Rightarrow> (string \<times> ExtractionField) list \<Rightarrow> string" where
  "decision fr fs =
     (case (map_of fs ''claim_number'', map_of fs ''policy_number'') of
        (Some _, Some p) \<Rightarrow>
          if \<not> policy_ok (py_str fr (ef_value p)) \<or>
             (\<exists>d. map_of fs ''date_of_loss'' = Some d \<and> \<not> parse_date (py_str fr (ef_value d))) \<or> length fs < 3
          then ''escalate'' else ''succeeded''
      | _ \<Rightarrow> ''failed_terminal'')"

lemma validation_result_status:
  assumes "\<And>n f. (n, f) \<in> set fs \<Longrightarrow> ef_confidence f = CONFIDENCE"
  shows "sr_status (validation_result fr \<lparr>er_fields = fs, er_extractor_name = a, er_extractor_version = b, er_raw_text = t\<rparr>)
    = decision fr fs"
proof -
  let ?e = "\<lparr>er_fields = fs, er_extractor_name = a, er_extractor_version = b, er_raw_text = t\<rparr>"
  let ?ref = "\<lparr>ref_snapshot_id = None, ref_data = []\<rparr>"
  have route: "sr_status (route_for_review ?e) = (if length fs < 3 then ''escalate'' else ''succeeded'')"
    using review_of_extracted [OF assms] by (simp add: route_for_review_def Let_def step_success_def)
  show ?thesis
  proof (rule validate_cases [of ?e fr ?ref])
    fix c p
    assume r: "map_of (er_fields ?e) ''claim_number'' = Some c" "map_of (er_fields ?e) ''policy_number'' = Some p"
      "vo_reasons (validate fr ?e ?ref) = correctable_reasons fr (er_fields ?e) p"
      "vo_status (validate fr ?e ?ref) = (if correctable_reasons fr (er_fields ?e) p = [] then ''pass'' else ''fail_correctable'')"
    have "correctable_reasons fr fs p = [] \<longleftrightarrow> map vr_code (correctable_reasons fr fs p) = []" by simp
    also have "\<dots> \<longleftrightarrow> policy_ok (py_str fr (ef_value p)) \<and>
        (\<forall>d. map_of fs ''date_of_loss'' = Some d \<longrightarrow> parse_date (py_str fr (ef_value d)))"
      unfolding correctable_reasons_codes by (auto split: option.split)
    finally show ?thesis using r route by (auto simp: validation_result_def Let_def decision_def)
  qed (auto simp: validation_result_def Let_def decision_def split: option.split)
qed

end
