(* ===== verification/Claim_Intake.thy ===== *)
theory Claim_Intake
  imports Steps
begin

text \<open>
  The claim intake workflow from end to end: what the optical character recognition of the mock
  provider yields as a policy number, and how the steps \<open>ingest\<close>, \<open>extract\<close>, \<open>validate\<close> and \<open>complete\<close>
  fit together.
\<close>

section \<open>Positions as suffixes\<close>

primrec shiftable :: "re \<Rightarrow> bool" where
  "shiftable Eps = True"
| "shiftable (Cls p) = True"
| "shiftable (Rep m n p) = True"
| "shiftable (Lazy p) = True"
| "shiftable (Cat a b) \<longleftrightarrow> shiftable a \<and> shiftable b"
| "shiftable (Alt a b) \<longleftrightarrow> shiftable a \<and> shiftable b"
| "shiftable (Grp g a) = shiftable a"
| "shiftable (At f) = False"
| "shiftable (Look a) = shiftable a"

lemma reach_drop: "reach p s (k + i) = reach p (drop k s) i"
  by (simp add: reach_def add.commute)

lemma ends_image:
  "ends (Rep m n p) s i = (+) i ` {m..(case n of None \<Rightarrow> reach p s i | Some k \<Rightarrow> min k (reach p s i))}"
  "ends (Lazy p) s i = (+) i ` {0..reach p s i}"
  by (auto simp: ends_def Let_def image_iff less_Suc_eq_le simp del: upt_Suc image_add_atLeastAtMost split: option.split)

lemma ends_drop: "k \<le> length s \<Longrightarrow> shiftable r \<Longrightarrow> ends r s (k + i) = (+) k ` ends r (drop k s) i"
proof (induction r arbitrary: i)
  case (Rep m n p)
  show ?case unfolding ends_image reach_drop image_image by (intro image_cong refl add.assoc)
next
  case (Lazy p)
  show ?case unfolding ends_image reach_drop image_image by (intro image_cong refl add.assoc)
next
  case (Cat a b)
  then show ?case by (simp add: image_UN)
next
  case (Cls p)
  then show ?case by (simp add: less_diff_conv add.commute)
next
  case (Alt a b)
  then show ?case by (simp add: image_Un)
next
  case (Grp g a)
  then show ?case by simp
next
  case (Look a)
  then show ?case by simp
qed simp_all

primrec none_from :: "re \<Rightarrow> string \<Rightarrow> bool" where
  "none_from r [] \<longleftrightarrow> ends r [] 0 = {}"
| "none_from r (c # s) \<longleftrightarrow> ends r (c # s) 0 = {} \<and> none_from r s"

lemma none_from_drop: "none_from r s \<longleftrightarrow> (\<forall>k \<le> length s. ends r (drop k s) 0 = {})"
proof (induction s)
  case (Cons c s)
  have "(\<forall>k \<le> length (c # s). ends r (drop k (c # s)) 0 = {}) \<longleftrightarrow>
      ends r (c # s) 0 = {} \<and> (\<forall>k \<le> length s. ends r (drop (Suc k) (c # s)) 0 = {})"
  proof (intro iffI conjI allI impI)
    fix k assume "ends r (c # s) 0 = {} \<and> (\<forall>k \<le> length s. ends r (drop (Suc k) (c # s)) 0 = {})" "k \<le> length (c # s)"
    then show "ends r (drop k (c # s)) 0 = {}" by (cases k) auto
  next
    fix k assume a: "\<forall>k \<le> length (c # s). ends r (drop k (c # s)) 0 = {}" and "k \<le> length s"
    then show "ends r (drop (Suc k) (c # s)) 0 = {}" using spec [OF a, of "Suc k"] by simp
  qed (use spec in force)
  with Cons show ?case by simp
qed simp

lemma re_search_none_from: "shiftable r \<Longrightarrow> re_search r s 0 = None \<longleftrightarrow> none_from r s"
  using ends_drop [of _ s r 0] by (auto simp: re_search_iff none_from_drop)

section \<open>Policy numbers of scanned documents\<close>

lemma shiftable_policy: "shiftable policy_number_pattern"
  by (simp add: policy_number_pattern_def number_suffix_def policy_format_def)

lemma c_same_upper [simp]:
  "c_same (CHR ''P'') = c_same (CHR ''p'')" "c_same (CHR ''O'') = c_same (CHR ''o'')" "c_same (CHR ''L'') = c_same (CHR ''l'')"
proof -
  have "char_lower (CHR ''P'') = char_lower (CHR ''p'')" "char_lower (CHR ''O'') = char_lower (CHR ''o'')"
    "char_lower (CHR ''L'') = char_lower (CHR ''l'')" by code_simp+
  then show "c_same (CHR ''P'') = c_same (CHR ''p'')" "c_same (CHR ''O'') = c_same (CHR ''o'')" "c_same (CHR ''L'') = c_same (CHR ''l'')"
    by (simp_all add: fun_eq_iff c_same_def)
qed

lemma policy_start:
  "\<not> c_same (CHR ''p'') c \<Longrightarrow> ends policy_number_pattern (c # s) 0 = {}"
  "\<not> c_same (CHR ''o'') d \<Longrightarrow> ends policy_number_pattern (c # d # s) 0 = {}"
  "ends policy_number_pattern [] 0 = {}"
  by (simp_all add: policy_number_pattern_def)

lemma policy_step [simp]:
  "none_from policy_number_pattern [] "
  "\<not> c_same (CHR ''p'') c \<Longrightarrow> none_from policy_number_pattern (c # s) = none_from policy_number_pattern s"
  "\<not> c_same (CHR ''o'') d \<Longrightarrow> none_from policy_number_pattern (c # d # s) = none_from policy_number_pattern (d # s)"
  by (simp_all add: policy_start)

lemma policy_format_at:
  assumes "x \<le> length s"
  shows "ends (policy_format letter) s x \<noteq> {} \<longleftrightarrow>
    (\<exists>l \<in> {2, 3}. x + l + 7 \<le> length s \<and> (\<forall>k < l. letter (s ! (x + k))) \<and> s ! (x + l) = CHR ''-'' \<and>
       (\<forall>k < 6. c_digit (s ! (x + l + 1 + k))))"
proof -
  have rep: "(\<exists>j. j \<in> ends (Rep 6 (Some 10) c_digit) s y) \<longleftrightarrow> y + 6 \<le> length s \<and> (\<forall>k < 6. c_digit (s ! (y + k)))"
    if "y \<le> length s" for y
    unfolding ends_Rep [OF that] by (auto intro!: exI [of _ "y + 6"] exI [of _ 6])
  have "ends (policy_format letter) s x \<noteq> {} \<longleftrightarrow>
    (\<exists>k \<in> ends (Rep 2 (Some 3) letter) s x. k < length s \<and> s ! k = CHR ''-'' \<and> (\<exists>j. j \<in> ends (Rep 6 (Some 10) c_digit) s (Suc k)))"
    by (auto simp: policy_format_def split: if_splits)
  also have "\<dots> \<longleftrightarrow> (\<exists>k \<in> ends (Rep 2 (Some 3) letter) s x. k < length s \<and> s ! k = CHR ''-'' \<and>
      Suc k + 6 \<le> length s \<and> (\<forall>i < 6. c_digit (s ! (Suc k + i))))"
    by (intro bex_cong conj_cong refl rep) simp
  also have "\<dots> \<longleftrightarrow> (\<exists>l \<in> {2, 3}. x + l + 7 \<le> length s \<and> (\<forall>k < l. letter (s ! (x + k))) \<and> s ! (x + l) = CHR ''-'' \<and>
       (\<forall>k < 6. c_digit (s ! (x + l + 1 + k))))"
    unfolding ends_Rep [OF assms]
  proof (intro iffI)
    assume "\<exists>k \<in> {x + j |j. 2 \<le> j \<and> (case Some 3 of None \<Rightarrow> True | Some k \<Rightarrow> j \<le> k) \<and> x + j \<le> length s \<and>
        (\<forall>k < j. letter (s ! (x + k)))}. k < length s \<and> s ! k = CHR ''-'' \<and> Suc k + 6 \<le> length s \<and>
        (\<forall>i < 6. c_digit (s ! (Suc k + i)))"
    then obtain j where "2 \<le> j" "j \<le> 3" "\<forall>k < j. letter (s ! (x + k))" "s ! (x + j) = CHR ''-''" "Suc (x + j) + 6 \<le> length s"
      "\<forall>i < 6. c_digit (s ! (Suc (x + j) + i))" by auto
    then show "\<exists>l \<in> {2, 3}. x + l + 7 \<le> length s \<and> (\<forall>k < l. letter (s ! (x + k))) \<and> s ! (x + l) = CHR ''-'' \<and>
       (\<forall>k < 6. c_digit (s ! (x + l + 1 + k)))" by (intro bexI [of _ j]) auto
  next
    assume "\<exists>l \<in> {2, 3}. x + l + 7 \<le> length s \<and> (\<forall>k < l. letter (s ! (x + k))) \<and> s ! (x + l) = CHR ''-'' \<and>
       (\<forall>k < 6. c_digit (s ! (x + l + 1 + k)))"
    then obtain l where "l \<in> {2, 3}" "x + l + 7 \<le> length s" "\<forall>k < l. letter (s ! (x + k))" "s ! (x + l) = CHR ''-''"
       "\<forall>k < 6. c_digit (s ! (x + l + 1 + k))" by blast
    then show "\<exists>k \<in> {x + j |j. 2 \<le> j \<and> (case Some 3 of None \<Rightarrow> True | Some k \<Rightarrow> j \<le> k) \<and> x + j \<le> length s \<and>
        (\<forall>k < j. letter (s ! (x + k)))}. k < length s \<and> s ! k = CHR ''-'' \<and> Suc k + 6 \<le> length s \<and>
        (\<forall>i < 6. c_digit (s ! (Suc k + i)))" by (intro bexI [of _ "x + l"]) auto
  qed
  finally show ?thesis .
qed

lemma policy_ends_at:
  "ends policy_number_pattern s 0 \<noteq> {} \<longleftrightarrow>
     (\<exists>y \<in> ends (Alt (seq [lit_i ''policy'', spaces, number_suffix]) (lit_i ''POL'')) s 0.
      \<exists>x \<in> ends (Rep 0 None (c_sep ''#:-'')) s y. ends (policy_format c_letter) s x \<noteq> {})"
  by (auto simp: policy_number_pattern_def simp del: lit_i.simps)

definition lower_code :: "nat \<Rightarrow> nat" where
  "lower_code n = (if (65 \<le> n \<and> n \<le> 90) \<or> (192 \<le> n \<and> n \<le> 222 \<and> n \<noteq> 215) then n + 32 else n)"

lemma c_same_code: "c_same c d \<longleftrightarrow> lower_code (of_char c) = lower_code (of_char d)"
proof -
  have l: "char_lower c = char_of (lower_code (of_char c))" for c by (simp add: char_lower_def lower_code_def Let_def)
  have "lower_code (of_char c) < 256" for c :: char using nat_of_char_less_256 [of c] by (auto simp: lower_code_def)
  then have "of_char (char_lower c) = lower_code (of_char c)" for c :: char by (simp add: l of_char_of)
  then show ?thesis unfolding c_same_def by (metis of_char_eq_iff)
qed

lemma prefix_ends:
  "ends (Alt (seq [lit_i ''policy'', spaces, number_suffix]) (lit_i ''POL'')) (''Policy Number: POL-'' @ us) 0 = {3, 6, 7, 13}"
  "ends (Alt (seq [lit_i ''policy'', spaces, number_suffix]) (lit_i ''POL'')) (''POL-'' @ us) 0 = {3}"
  by (simp_all add: number_suffix_def ends_image reach_def c_same_code lower_code_def is_space_def atLeast0AtMost atMost_Suc
      insert_commute numeral_eq_Suc del: image_add_atLeastAtMost)

lemma separator_ends:
  "ends (Rep 0 None (c_sep ''#:-'')) (''Policy Number: POL-'' @ us) 3 = {3}"
  "ends (Rep 0 None (c_sep ''#:-'')) (''Policy Number: POL-'' @ us) 6 = {6, 7}"
  "ends (Rep 0 None (c_sep ''#:-'')) (''Policy Number: POL-'' @ us) 7 = {7}"
  "ends (Rep 0 None (c_sep ''#:-'')) (''Policy Number: POL-'' @ us) 13 = {13, 14, 15}"
  "u \<notin> set ''#:-'' \<Longrightarrow> \<not> is_space u \<Longrightarrow> ends (Rep 0 None (c_sep ''#:-'')) (''POL-'' @ u # us) 3 = {3, 4}"
  by (simp_all add: ends_image reach_def c_sep_def is_space_def atLeast0AtMost atMost_Suc insert_commute numeral_eq_Suc
      del: image_add_atLeastAtMost)

lemma policy_label:
  assumes "length us = 6"
  shows "ends policy_number_pattern (''Policy Number: POL-'' @ us @ t) 0 \<noteq> {} \<longleftrightarrow> list_all c_digit us"
proof -
  let ?s = "''Policy Number: POL-'' @ us @ t"
  from assms obtain a b c d e f where us: "us = [a, b, c, d, e, f]"
    by (auto simp: length_Suc_conv numeral_eq_Suc)
  have letters: "c_letter (CHR ''P'')" "c_letter (CHR ''O'')" "c_letter (CHR ''L'')" by code_simp+
  have "ends policy_number_pattern ?s 0 \<noteq> {} \<longleftrightarrow> (\<exists>x \<in> {3, 6, 7, 13, 14, 15}. ends (policy_format c_letter) ?s x \<noteq> {})"
    unfolding policy_ends_at prefix_ends by (simp only: bex_simps separator_ends) blast
  also have "\<dots> \<longleftrightarrow> ends (policy_format c_letter) ?s 15 \<noteq> {}"
  proof -
    have "ends (policy_format c_letter) ?s x = {}" if "x \<in> {3, 6, 7, 13, 14}" for x
    proof -
      have "x \<le> length ?s" using that by auto
      moreover have "?s ! (x + 2) \<noteq> CHR ''-''" "?s ! (x + 3) \<noteq> CHR ''-''" using that by auto
      ultimately show ?thesis using policy_format_at [of x ?s c_letter] by auto
    qed
    then show ?thesis by blast
  qed
  also have "\<dots> \<longleftrightarrow> list_all c_digit us"
  proof -
    have "15 \<le> length ?s" by simp
    from policy_format_at [OF this, of c_letter] letters show ?thesis
      by (simp add: us All_less_Suc numeral_eq_Suc) (simp only: conj_assoc conj_commute conj_left_commute)
  qed
  finally show ?thesis .
qed

lemma policy_prefix:
  assumes "length us = 6" "\<And>u. u \<in> set us \<Longrightarrow> u \<notin> set ''#:-'' \<and> \<not> is_space u"
  shows "ends policy_number_pattern (''POL-'' @ us @ t) 0 = {}"
proof -
  from assms(1) obtain a b c d e f where us: "us = [a, b, c, d, e, f]"
    by (auto simp: length_Suc_conv numeral_eq_Suc)
  let ?s = "''POL-'' @ a # [b, c, d, e, f] @ t"
  have "ends policy_number_pattern ?s 0 \<noteq> {} \<longleftrightarrow> (\<exists>x \<in> {3, 4}. ends (policy_format c_letter) ?s x \<noteq> {})"
    using assms(2) [of a] unfolding us policy_ends_at prefix_ends by (simp only: bex_simps separator_ends list.set_intros simp_thms)
  moreover have "ends (policy_format c_letter) ?s x = {}" if "x \<in> {3, 4}" for x
  proof -
    have "x \<le> length ?s" using that by auto
    moreover have "?s ! (x + 2) \<noteq> CHR ''-''" "?s ! (x + 3) \<noteq> CHR ''-''"
      using that assms(2) [of b] assms(2) [of c] assms(2) [of d] by (auto simp: us)
    ultimately show ?thesis using policy_format_at [of x ?s c_letter] by auto
  qed
  ultimately show ?thesis by (auto simp: us)
qed

lemma is_hex_set: "is_hex c \<longleftrightarrow> c \<in> set ''0123456789abcdef''"
proof -
  have "set (map hex_digit [0..15]) = set ''0123456789abcdef''" by code_simp
  moreover have "{0..<16} = set [0..15 :: int]" by auto
  ultimately show ?thesis by (simp only: is_hex_def set_map)
qed

definition upper_hex :: "char \<Rightarrow> char" where
  "upper_hex c = hd (py_upper_hex [c])"

lemma py_upper_hex_map: "py_upper_hex s = map upper_hex s"
  by (simp add: py_upper_hex_def upper_hex_def)

lemma hex_facts:
  assumes "is_hex c"
  shows "\<not> c_same (CHR ''p'') c" "\<not> c_same (CHR ''p'') (upper_hex c)" "upper_hex c \<notin> set ''#:-''" "\<not> is_space (upper_hex c)"
    "c_digit (upper_hex c) \<longleftrightarrow> c_digit c"
proof -
  have "list_all (\<lambda>c. \<not> c_same (CHR ''p'') c \<and> \<not> c_same (CHR ''p'') (upper_hex c) \<and> upper_hex c \<notin> set ''#:-'' \<and>
      \<not> is_space (upper_hex c) \<and> (c_digit (upper_hex c) = c_digit c)) ''0123456789abcdef''" by code_simp
  note this [unfolded list_all_iff, THEN bspec, OF assms [unfolded is_hex_set]]
  then show "\<not> c_same (CHR ''p'') c" "\<not> c_same (CHR ''p'') (upper_hex c)" "upper_hex c \<notin> set ''#:-''" "\<not> is_space (upper_hex c)"
    "c_digit (upper_hex c) \<longleftrightarrow> c_digit c" by blast+
qed

lemma bytes_hex_is_hex: "c \<in> set (bytes_hex b) \<Longrightarrow> is_hex c"
  by (auto simp: bytes_hex_def dest: hex_pad_is_hex)

lemma length_bytes_hex: "length (bytes_hex b) = 2 * length b"
  by (induction b) (simp_all add: bytes_hex_def)

lemma hex_prefix_facts:
  "length (hex_prefix 8 b) = 8" "c \<in> set (hex_prefix k b) \<Longrightarrow> is_hex c"
  by (auto simp: hex_prefix_def length_bytes_hex dest!: in_set_takeD bytes_hex_is_hex)

lemma none_from_skip:
  "(\<And>c. c \<in> set xs \<Longrightarrow> \<not> c_same (CHR ''p'') c) \<Longrightarrow>
     none_from policy_number_pattern (xs @ s) = none_from policy_number_pattern s"
  by (induction xs) (simp_all add: policy_start(1))

lemma none_from_label:
  assumes "length us = 6" "\<And>u. u \<in> set us \<Longrightarrow> u \<notin> set ''#:-'' \<and> \<not> is_space u \<and> \<not> c_same (CHR ''p'') u"
  shows "none_from policy_number_pattern (''Policy Number: POL-'' @ us @ t) \<longleftrightarrow>
    \<not> list_all c_digit us \<and> none_from policy_number_pattern t"
proof -
  have "none_from policy_number_pattern (''Policy Number: POL-'' @ us @ t) \<longleftrightarrow>
      ends policy_number_pattern (''Policy Number: POL-'' @ us @ t) 0 = {} \<and> none_from policy_number_pattern (''olicy Number: POL-'' @ us @ t)"
    by simp
  also have "none_from policy_number_pattern (''olicy Number: POL-'' @ us @ t) \<longleftrightarrow> none_from policy_number_pattern (''POL-'' @ us @ t)"
    by (simp add: c_same_code lower_code_def del: none_from.simps)
  also have "\<dots> \<longleftrightarrow> ends policy_number_pattern (''POL-'' @ us @ t) 0 = {} \<and> none_from policy_number_pattern (''OL-'' @ us @ t)"
    by simp
  also have "none_from policy_number_pattern (''OL-'' @ us @ t) \<longleftrightarrow> none_from policy_number_pattern t"
    using none_from_skip [of us t] assms(2) by (simp add: c_same_code lower_code_def del: none_from.simps)
  finally show ?thesis using policy_label [OF assms(1), of t] policy_prefix [of us t] assms by auto
qed

text \<open>
  The text the mock OCR makes of a scanned document has a policy number for the extractor only if
  six characters of the hash, which are hexadecimal, all happen to be decimal digits.
\<close>

definition policy_digits :: "bytes \<Rightarrow> string" where
  "policy_digits content = take 6 (drop 2 (hex_prefix 8 content))"

lemma mock_text_policy:
  assumes "ct \<in> set OCR_CONTENT_TYPES"
  shows "re_search policy_number_pattern (mock_ocr_text content ct) 0 = None \<longleftrightarrow> \<not> list_all c_digit (policy_digits content)"
proof -
  let ?h = "hex_prefix 8 content"
  let ?us = "map upper_hex (policy_digits content)"
  have us: "take 8 (drop 2 ?h) = policy_digits content" using hex_prefix_facts(1) [of content] by (simp add: policy_digits_def)
  have len: "length ?us = 6" using hex_prefix_facts(1) [of content] by (simp add: policy_digits_def)
  have hex: "is_hex c" if "c \<in> set (policy_digits content)" for c
    using that hex_prefix_facts(2) [of c 8 content] by (auto simp: policy_digits_def dest!: in_set_takeD in_set_dropD)
  have "re_search policy_number_pattern (mock_ocr_text content ct) 0 = None \<longleftrightarrow>
      none_from policy_number_pattern (mock_ocr_text content ct)"
    by (rule re_search_none_from [OF shiftable_policy])
  also have "\<dots> \<longleftrightarrow> none_from policy_number_pattern (?h @ nl @ ''Claim Number: CLM-MOCK-'' @ map upper_hex (take 6 ?h) @ nl @
      ''Policy Number: POL-'' @ ?us @ nl @ ''Claimant: Mock Claimant'' @ nl @ ''Date of Loss: 01/01/2025'' @ nl @ ''Claim Type: auto'' @ nl)"
    using assms unfolding mock_ocr_text_def Let_def py_upper_hex_map us
    by (auto simp: OCR_CONTENT_TYPES_def c_same_code lower_code_def simp del: none_from.simps)
  also have "\<dots> \<longleftrightarrow> none_from policy_number_pattern (nl @ ''Claim Number: CLM-MOCK-'' @ map upper_hex (take 6 ?h) @ nl @
      ''Policy Number: POL-'' @ ?us @ nl @ ''Claimant: Mock Claimant'' @ nl @ ''Date of Loss: 01/01/2025'' @ nl @ ''Claim Type: auto'' @ nl)"
    by (rule none_from_skip) (rule hex_facts(1) [OF hex_prefix_facts(2)])
  also have "\<dots> \<longleftrightarrow> none_from policy_number_pattern (map upper_hex (take 6 ?h) @ nl @
      ''Policy Number: POL-'' @ ?us @ nl @ ''Claimant: Mock Claimant'' @ nl @ ''Date of Loss: 01/01/2025'' @ nl @ ''Claim Type: auto'' @ nl)"
    by (simp add: c_same_code lower_code_def del: none_from.simps)
  also have "\<dots> \<longleftrightarrow> none_from policy_number_pattern (nl @
      ''Policy Number: POL-'' @ ?us @ nl @ ''Claimant: Mock Claimant'' @ nl @ ''Date of Loss: 01/01/2025'' @ nl @ ''Claim Type: auto'' @ nl)"
    by (rule none_from_skip) (auto dest!: in_set_takeD intro!: hex_facts(2) hex_prefix_facts(2))
  also have "\<dots> \<longleftrightarrow> none_from policy_number_pattern (
      ''Policy Number: POL-'' @ ?us @ nl @ ''Claimant: Mock Claimant'' @ nl @ ''Date of Loss: 01/01/2025'' @ nl @ ''Claim Type: auto'' @ nl)"
    using none_from_skip [of nl] by (simp add: c_same_code lower_code_def del: none_from.simps append.append_Cons)
  also have "\<dots> \<longleftrightarrow> \<not> list_all c_digit ?us \<and>
      none_from policy_number_pattern (nl @ ''Claimant: Mock Claimant'' @ nl @ ''Date of Loss: 01/01/2025'' @ nl @ ''Claim Type: auto'' @ nl)"
    using hex hex_facts by (intro none_from_label [OF len]) auto
  finally have main: "re_search policy_number_pattern (mock_ocr_text content ct) 0 = None \<longleftrightarrow> \<not> list_all c_digit ?us \<and>
      none_from policy_number_pattern (nl @ ''Claimant: Mock Claimant'' @ nl @ ''Date of Loss: 01/01/2025'' @ nl @ ''Claim Type: auto'' @ nl)" .
  have tail: "none_from policy_number_pattern (nl @ ''Claimant: Mock Claimant'' @ nl @ ''Date of Loss: 01/01/2025'' @ nl @ ''Claim Type: auto'' @ nl)"
    by (simp add: c_same_code lower_code_def del: none_from.simps)
  have digits: "list_all c_digit ?us \<longleftrightarrow> list_all c_digit (policy_digits content)"
    using hex hex_facts(5) by (auto simp: list_all_iff)
  show ?thesis unfolding main digits using tail by blast
qed

section \<open>The claim intake steps together\<close>

lemma document_fields_confidence:
  "(n, f) \<in> set (document_fields decode ds) \<Longrightarrow> ef_confidence f = CONFIDENCE"
  using document_fields_from by (fastforce simp: grounded_def)

text \<open>Extraction succeeds on stored documents, and the validation of its output is the decision on its fields.\<close>

lemma extract_then_validate:
  assumes "harmless ai" "world_wf w" "\<And>d b. (d, b) \<in> set ds \<Longrightarrow> stored base w d b"
    and "ctx_document_ids ctx = map (\<lambda>(d, b). DocId (doc_document_id d)) ds"
  obtains out w' where "extract_handle decode base (mock_ocr decode) ai ctx w = (Inr (step_success out), w')"
    "unchanged w w'"
    "\<And>ctx' w''. map_of (ctx_previous_outputs ctx') ''extract'' = Some (JObj out) \<Longrightarrow>
      \<exists>r. validate_handle ctx' w'' = (Inr r, w'') \<and> sr_status r = decision (w_float_repr w'') (document_fields decode ds)"
proof -
  have "distinct (map doc_document_id (documents (w_db w)))"
    using assms(2) by (simp add: db_wf_defs)
  from extract_handle_run [OF assms(1) this assms(3,4), of decode] obtain rest w' where
    run: "extract_handle decode base (mock_ocr decode) ai ctx w =
      (Inr (step_success (extract_output (document_fields decode ds) rest)), w')" "unchanged w w'" by blast
  have conf: "0 \<le> ef_confidence f \<and> ef_confidence f \<le> 1" if "(n, f) \<in> set (document_fields decode ds)" for n f
    using document_fields_confidence [OF that] by (simp add: CONFIDENCE_def)
  show thesis
  proof (rule that [OF run])
    fix ctx' :: StepContext and w'' :: "'x sysworld"
    assume prev: "map_of (ctx_previous_outputs ctx') ''extract'' = Some (JObj (extract_output (document_fields decode ds) rest))"
    have "validate_handle ctx' w'' = (Inr (validation_result (w_float_repr w'') (\<lparr>er_fields = document_fields decode ds,
        er_extractor_name = JStr ''stub_extractor'', er_extractor_version = JStr ''1.0.0'', er_raw_text = None\<rparr>)), w'')"
      by (rule validate_handle_run) (rule prev, rule document_fields_distinct, rule conf, assumption)
    moreover have "sr_status (validation_result (w_float_repr w'') (\<lparr>er_fields = document_fields decode ds,
        er_extractor_name = JStr ''stub_extractor'', er_extractor_version = JStr ''1.0.0'', er_raw_text = None\<rparr>)) =
      decision (w_float_repr w'') (document_fields decode ds)"
      using validation_result_status document_fields_confidence by blast
    ultimately show "\<exists>r. validate_handle ctx' w'' = (Inr r, w'') \<and> sr_status r = decision (w_float_repr w'') (document_fields decode ds)"
      by blast
  qed
qed

lemma scanned_decision:
  assumes "\<And>d b. (d, b) \<in> set ds \<Longrightarrow> doc_content_type d \<in> set OCR_CONTENT_TYPES \<and> \<not> list_all c_digit (policy_digits b)"
  shows "decision fr (document_fields decode ds) = ''failed_terminal''"
proof -
  have "''policy_number'' \<notin> fst ` set (er_fields (stub_extract decode (effective_content b (doc_content_type d))))"
    if "(d, b) \<in> set ds" for d b
  proof -
    have "(''policy_number'', policy_number_pattern) \<in> set PATTERNS" by (simp add: PATTERNS_def)
    moreover have "decode_text decode (effective_content b (doc_content_type d)) = mock_ocr_text b (doc_content_type d)"
      using assms [OF that] by (simp add: effective_content_def decode_text_def)
    ultimately show ?thesis
      using stub_extract_fields(3) mock_text_policy assms [OF that] by metis
  qed
  then have "map_of (document_fields decode ds) ''policy_number'' = None"
    unfolding map_of_eq_None_iff document_fields_names by blast
  then show ?thesis by (simp add: decision_def split: option.split)
qed

text \<open>Ingest: which documents are missing.\<close>

definition missing_docs :: "db \<Rightarrow> uuid list \<Rightarrow> uuid list" where
  "missing_docs d us = filter (\<lambda>u. u \<notin> doc_document_id ` set (documents d)) us"

lemma ingest_run:
  assumes "world_wf w" "ctx_document_ids ctx = map DocId us"
  shows "ingest_handle ctx w = (Inr (if missing_docs (w_db w) us = [] then step_success [(''document_count'', JInt (int (length us)))]
    else step_failure ''failed_terminal'' ''DOCUMENTS_NOT_FOUND''
      (''Documents not found: '' @ py_join '', '' (map uuid_str (missing_docs (w_db w) us)))), w)"
proof -
  have d: "distinct (map doc_document_id (documents (w_db w)))" using assms(1) by (simp add: db_wf_defs)
  have find: "\<exists>x. find_document (DocId u) w = (Inr x, w) \<and> (x = None \<longleftrightarrow> u \<notin> doc_document_id ` set (documents (w_db w)))" for u
  proof (cases "u \<in> doc_document_id ` set (documents (w_db w))")
    case True
    then obtain m where "m \<in> set (documents (w_db w))" "doc_document_id m = u" by auto
    with find_document_run [OF d this(1)] True show ?thesis by auto
  next
    case False
    then have "filter (\<lambda>x. doc_document_id x = u) (documents (w_db w)) = []" by (auto simp: filter_empty_conv)
    with False show ?thesis
      by (simp add: find_document_def document_get_by_id_def read_db_def scalar_one_or_none_def)
  qed
  have "foldE (map DocId us) (\<lambda>doc_id missing. bindE (find_document doc_id) (\<lambda>doc.
       returnE (if doc = None then missing @ [doc_ref_str (w_float_repr w) doc_id] else missing))) acc w =
     (Inr (acc @ map uuid_str (missing_docs (w_db w) us)), w)" for acc
  proof (induction us arbitrary: acc)
    case (Cons u us)
    from find [of u] obtain x where x: "find_document (DocId u) w = (Inr x, w)"
      "x = None \<longleftrightarrow> u \<notin> doc_document_id ` set (documents (w_db w))" by blast
    with Cons [of "if x = None then acc @ [uuid_str u] else acc"] show ?case
      by (auto simp: missing_docs_def doc_ref_str_def)
  qed (simp add: missing_docs_def)
  then show ?thesis by (simp add: ingest_handle_def assms(2))
qed

text \<open>Complete: whatever the provider does.\<close>

lemma summarize_workflow_returns:
  "\<exists>r w'. summarize_workflow ai config a b c d e f w = (Inr r, w')"
  using execute_summary_returns by (auto simp: summarize_workflow_def) blast

lemma complete_run:
  assumes "field_values (dict_get_or (ctx_previous_outputs ctx) ''extract'' JNull) w = (Inr fs, w)"
  shows "\<exists>summary w'. complete_handle ai ctx w = (Inr (step_success [(''completed'', JBool True), (''summary'', JStr summary),
    (''fields_extracted'', JInt (int (length fs)))]), w')"
proof -
  obtain r w' where "summarize_workflow ai default_summarization (py_str (w_float_repr w) (ctx_workflow_name ctx)) ''v1'' ''completed''
      (int (length (ctx_previous_outputs ctx)) + 1) ''completed'' fs w = (Inr r, w')"
    using summarize_workflow_returns by blast
  with assms have "complete_handle ai ctx w = (Inr (step_success [(''completed'', JBool True), (''summary'', JStr (sum_summary_text r)),
    (''fields_extracted'', JInt (int (length fs)))]), w')"
    by (simp add: complete_handle_def)
  then show ?thesis by blast
qed

text \<open>The label \<open>Claim Number: \<close> is always found.\<close>

lemma claim_label: "ends claim_number_pattern (''Claim Number: CLM-MOCK-'' @ post) 0 \<noteq> {}"
proof -
  let ?t = "''Claim Number: CLM-MOCK-'' @ post"
  have 1: "5 \<in> ends (lit_i ''claim'') ?t 0" "12 \<in> ends (lit_i ''number'') ?t 6"
    by (simp_all add: c_same_code lower_code_def)
  have 2: "6 \<in> ends spaces ?t 5" "14 \<in> ends (Rep 1 None (c_sep ''#:-'')) ?t 12"
    by (simp_all add: ends_image reach_def c_sep_def is_space_def Let_def image_iff)
  have 3: "15 \<in> ends (Cls (\<lambda>c. c_letter c \<or> c_digit c)) ?t 14" by (simp add: c_letter_def Let_def)
  have 4: "15 \<in> ends (Rep 0 None p) ?t 15" for p by (simp add: ends_image image_iff)
  have "12 \<in> ends number_suffix ?t 6" using 1(2) unfolding number_suffix_def alts.simps ends_simps by blast
  then have "12 \<in> ends (seq [lit_i ''claim'', spaces, number_suffix]) ?t 0"
    unfolding seq.simps ends_Cat [of "lit_i ''claim''"] ends_Cat [of spaces] using 1(1) 2(1) by blast
  then have "12 \<in> ends (Alt (seq [lit_i ''claim'', spaces, number_suffix]) (lit_i ''CLM'')) ?t 0" by (simp only: ends_simps) blast
  moreover have "15 \<in> ends (Grp 1 (Cat (Cls (\<lambda>c. c_letter c \<or> c_digit c)) (Rep 0 None (\<lambda>c. c_word c \<or> c = CHR ''-'')))) ?t 14"
    unfolding ends_simps(4) ends_Cat [of "Cls _"] using 3 4 by blast
  ultimately show ?thesis
    unfolding claim_number_pattern_def seq.simps(3) [of "Alt _ _"] seq.simps(3) [of "Rep 1 None _"] seq.simps(2)
      ends_Cat [of "Alt _ _"] ends_Cat [of "Rep 1 None _"] using 2(2) by blast
qed

lemma mock_text_claim: "re_search claim_number_pattern (mock_ocr_text content ct) 0 \<noteq> None"
proof -
  let ?h = "hex_prefix 8 content"
  define pre where "pre = ''[Mock OCR extraction from '' @ ct @ '']'' @ nl @ ''Document hash: '' @ ?h @ nl"
  define post where "post = py_upper_hex (take 6 ?h) @ nl @ ''Policy Number: POL-'' @ py_upper_hex (take 8 (drop 2 ?h)) @ nl
      @ ''Claimant: Mock Claimant'' @ nl @ ''Date of Loss: 01/01/2025'' @ nl @ ''Claim Type: auto'' @ nl"
  let ?s = "pre @ ''Claim Number: CLM-MOCK-'' @ post"
  have t: "mock_ocr_text content ct = ?s" by (simp add: mock_ocr_text_def Let_def pre_def post_def)
  have "shiftable claim_number_pattern" by (simp add: claim_number_pattern_def number_suffix_def)
  from ends_drop [OF _ this, of "length pre" ?s 0] have "ends claim_number_pattern ?s (length pre) \<noteq> {}"
    using claim_label [of post] by simp
  moreover have "length pre \<le> length ?s" by simp
  ultimately show ?thesis unfolding t using re_search_iff [of claim_number_pattern ?s 0] by (metis le0)
qed

text \<open>A scan is turned down exactly when the digest of its bytes has a letter in the wrong place.\<close>

lemma scanned_decision_iff:
  assumes "doc_content_type d \<in> set OCR_CONTENT_TYPES"
  shows "decision fr (document_fields decode [(d, b)]) = ''failed_terminal'' \<longleftrightarrow> \<not> list_all c_digit (policy_digits b)"
proof -
  let ?fs = "document_fields decode [(d, b)]"
  have ocr_text: "decode_text decode (effective_content b (doc_content_type d)) = mock_ocr_text b (doc_content_type d)"
    using assms by (simp add: effective_content_def decode_text_def)
  have present: "map_of ?fs n = None \<longleftrightarrow> re_search p (mock_ocr_text b (doc_content_type d)) 0 = None" if "(n, p) \<in> set PATTERNS" for n p
  proof -
    have "map_of ?fs n = None \<longleftrightarrow> n \<notin> fst ` set (er_fields (stub_extract decode (effective_content b (doc_content_type d))))"
      unfolding map_of_eq_None_iff document_fields_names by simp
    then show ?thesis using stub_extract_fields(3) [OF that] ocr_text by simp
  qed
  have "map_of ?fs ''claim_number'' \<noteq> None"
    using present [of "''claim_number''" claim_number_pattern] mock_text_claim by (simp add: PATTERNS_def)
  moreover have "map_of ?fs ''policy_number'' = None \<longleftrightarrow> \<not> list_all c_digit (policy_digits b)"
    using present [of "''policy_number''" policy_number_pattern] mock_text_policy [OF assms] by (simp add: PATTERNS_def)
  ultimately show ?thesis by (auto simp: decision_def split: option.splits)
qed

lemma policy_digits_take: "policy_digits b = take 6 (drop 2 (bytes_hex (sha256 b)))"
  by (simp add: policy_digits_def hex_prefix_def drop_take)

text \<open>What a provider is given is bounded: two providers that agree on short prompts are as good as each other.\<close>

definition agree_below :: "int \<Rightarrow> 'r AIProvider \<Rightarrow> 'r AIProvider \<Rightarrow> bool" where
  "agree_below n ai ai' \<longleftrightarrow> ai_name ai = ai_name ai' \<and>
     (\<forall>p m t k. int (length p) \<le> n \<longrightarrow> ai_generate ai p m t k = ai_generate ai' p m t k)"

lemma execute_summary_bounded:
  assumes "0 \<le> cfg_max_input_chars config" "agree_below (cfg_max_input_chars config + 12) ai ai'"
  shows "execute_summary ai config p ty = execute_summary ai' config p ty"
  using assms(2) truncate_prompt_length [OF assms(1), of p] by (simp add: execute_summary_def agree_below_def)

lemma complete_bounded:
  assumes "agree_below 4012 ai ai'"
  shows "complete_handle ai ctx w = complete_handle ai' ctx w"
proof -
  have "summarize_workflow ai default_summarization = summarize_workflow ai' default_summarization"
    using execute_summary_bounded [of default_summarization ai ai'] assms
    by (intro ext) (simp add: summarize_workflow_def default_summarization_def)
  then show ?thesis by (simp add: complete_handle_def)
qed

end
