(* ===== verification/System.thy ===== *)
theory System
  imports Api Claim_Intake
begin

text \<open>
  The program as a whole: any interleaving of requests to the API, turns of the background
  loops, turns of workers, verifications of audit chains and transactions of the orchestrator.
  What the parts are given from outside is one record. The workers run the program's own step
  handlers (\<open>get_handler\<close>).
\<close>

section \<open>Steps of the system\<close>

record 'r env =
  env_redis :: "'r redis_api"
  env_registry :: WorkflowRegistry
  env_settings :: Settings
  env_decode :: "bytes \<Rightarrow> string"
  env_loads :: "bytes \<Rightarrow> exn + json"
  env_to_float :: "string \<Rightarrow> rat option"
  env_text_param :: "dict \<Rightarrow> exn + json"
  env_parse :: "string \<Rightarrow> time option"
  env_shuffle :: "uuid list \<Rightarrow> uuid list"

datatype sys_op =
    SysApi "string option" api_op
  | SysRelay bool
  | SysScheduler bool
  | SysReaper int
  | SysWorker string time
  | SysVerify nat
  | SysBatch "int option" "string option"
  | SysOrchestrator orch_op

fun sys_step :: "'r env \<Rightarrow> sys_op \<Rightarrow> ('r, unit) sexec" where
  "sys_step E (SysApi cred op) =
     exec_api (env_redis E) (env_registry E) (env_settings E) (env_parse E) cred op"
| "sys_step E (SysRelay acquired) = dropE (guarded (relay_batch (env_redis E) acquired))"
| "sys_step E (SysScheduler acquired) = dropE (guarded (scheduler_cycle (env_redis E) acquired))"
| "sys_step E (SysReaper timeout) =
     dropE (guarded (reap_stuck_tasks (env_redis E) (env_loads E) (env_to_float E) timeout))"
| "sys_step E (SysWorker worker hb) =
     dropE (worker_turn (env_redis E) (get_handler (env_decode E)) (env_loads E) (env_text_param E) worker hb)"
| "sys_step E (SysVerify n) = dropE (verify_sample (env_shuffle E) n)"
| "sys_step E (SysBatch n st) = dropE (verify_batch n st)"
| "sys_step E (SysOrchestrator op) = exec_orch (env_registry E) op"

fun run_system :: "'r env \<Rightarrow> sys_op list \<Rightarrow> 'r sysworld \<Rightarrow> 'r sysworld" where
  "run_system E [] w = w"
| "run_system E (op # ops) w = run_system E ops (snd (sys_step E op w))"

lemma run_system_keeps:
  "(\<And>op. op \<in> set ops \<Longrightarrow> keeps I (sys_step E op)) \<Longrightarrow> I w \<Longrightarrow> I (run_system E ops w)"
  by (induction ops arbitrary: w) (auto simp: keeps_def)

section \<open>Invariants of the system\<close>

lemma keeps_dropE [keeps_intros]: "keeps I m \<Longrightarrow> keeps I (dropE m)"
  unfolding dropE_def by (intro keeps_intros)

lemma safe_dropE [safe_intros]: "safe I m \<Longrightarrow> safe I (dropE m)"
  unfolding dropE_def by (intro safe_intros)

lemma keeps_guarded [keeps_intros]: "keeps I m \<Longrightarrow> keeps I (guarded m)"
  unfolding guarded_def by (intro keeps_intros)

lemma safe_guarded [safe_intros]: "safe I m \<Longrightarrow> safe I (guarded m)"
  unfolding guarded_def by (intro safe_intros)

lemma verify_frame:
  assumes "keeps I (metric ''audit_chain_mismatches_total'' [])" "\<And>m :: ('r, VerificationResult) sexec. keeps I m \<Longrightarrow> keeps I (session_scope m)"
  shows "keeps I (verify_sample shuffle n :: ('r, int \<times> int) sexec)"
    "keeps I (verify_batch sz st :: ('r, (uuid \<times> VerificationResult) list) sexec)"
proof -
  have "keeps I (verify_chain i :: ('r, VerificationResult) sexec)" for i
    unfolding verify_chain_def audit_list_by_workflow_run_def by (intro keeps_intros assms(1))
  then show "keeps I (verify_sample shuffle n :: ('r, int \<times> int) sexec)"
    "keeps I (verify_batch sz st :: ('r, (uuid \<times> VerificationResult) list) sexec)"
    unfolding verify_sample_def verify_batch_def sample_terminal_runs_def
    by (intro keeps_intros assms(2); assumption)+
qed

lemma scheduler_wf [keeps_intros]: "keeps world_wf (scheduler_cycle R acquired)"
  unfolding scheduler_cycle_def by (intro keeps_intros)

lemma sys_step_wf: "keeps world_wf (sys_step E op)"
  by (cases op) (simp_all, (intro keeps_intros worker_wf handlers_read_only exec_orch_wf verify_frame; assumption?)+)

context sys_invariant
begin

lemma scheduler_safe [safe_intros]: "safe I (scheduler_cycle R acquired)"
  unfolding scheduler_cycle_def by (intro safe_intros)

lemma sys_step_safe: "safe I (sys_step E op)"
  by (cases op) (simp_all, (intro safe_intros worker_safe handlers_read_only; assumption?)+)

lemma run_system_safe:
  assumes "I w"
  shows "I (run_system E ops w)"
  using assms by (auto intro: run_system_keeps safe_keeps sys_step_safe)

end

context row_contract
begin

lemma session_dbI: "keeps (\<lambda>w :: 'r sysworld. P (w_db w)) m \<Longrightarrow> keeps (\<lambda>w. P (w_db w)) (session_scope m)"
  by (rule session_keeps)

lemma sys_step_keeps: "keeps (\<lambda>w :: 'r sysworld. P (w_db w)) (sys_step E op)"
proof (cases op)
  case (SysApi cred aop)
  then show ?thesis by (auto intro!: keepsI dest: exec_api_keeps)
next
  case (SysOrchestrator oop)
  have "P (w_db w')" if "P (w_db w)" "exec_orch (env_registry E) oop w = (r, w')" for w w' :: "'r sysworld" and r
    using that orch_body_keeps [of w "env_registry E" oop]
    by (auto simp: exec_orch_def session_scope_def split: prod.splits sum.splits)
  with SysOrchestrator show ?thesis by (auto intro!: keepsI)
next
  case (SysReaper t)
  then show ?thesis by (auto intro!: keeps_intros reaper_keeps)
next
  case (SysRelay a)
  then show ?thesis by (auto intro!: keeps_intros relay_keeps)
next
  case (SysScheduler a)
  then show ?thesis by (auto intro!: keeps_dropE scheduler_keeps)
next
  case (SysWorker k hb)
  then show ?thesis by (auto intro!: keeps_intros turn_keeps handlers_read_only)
qed (auto intro!: keeps_intros verify_frame draws_keep session_dbI)

lemma run_system_keeps_db:
  assumes "P (w_db w)"
  shows "P (w_db (run_system E ops w))"
  using run_system_keeps [of ops "\<lambda>w. P (w_db w)" E w] sys_step_keeps assms by blast

end

section \<open>Payloads\<close>

lemma rows_files_docs [keeps_intros]:
  "keeps (\<lambda>w. files_docs w = x) (update_attempt i f)" "keeps (\<lambda>w. files_docs w = x) (update_step i g)"
  "keeps (\<lambda>w. files_docs w = x) (outbox_mark_enqueued k t)" "keeps (\<lambda>w. files_docs w = x) (outbox_increment_attempts k e)"
  unfolding update_attempt_def update_step_def outbox_mark_enqueued_def outbox_increment_attempts_def Let_def
  by (intro keeps_intros write_files_docs checked_files_docs; simp)+

lemma session_files_docs [keeps_intros]:
  assumes "keeps (\<lambda>w. files_docs w = x) m"
  shows "keeps (\<lambda>w. files_docs w = x) (session_scope m)"
  using assms by (force simp: keeps_def session_scope_def split: prod.splits sum.splits)

lemma write_outcome_files_docs [keeps_intros]:
  "keeps (\<lambda>w. files_docs w = x) (write_outcome text_param worker wn sn r s a oc now)"
  unfolding write_outcome_def Let_def by (intro keeps_intros)

lemma loops_files_docs [keeps_intros]:
  "keeps (\<lambda>w. files_docs w = x) (relay_batch R acquired)" "keeps (\<lambda>w. files_docs w = x) (scheduler_cycle R acquired)"
  "keeps (\<lambda>w. files_docs w = x) (reap_stuck_tasks R loads to_float timeout)"
  unfolding relay_batch_def relay_entry_def scheduler_cycle_def reap_stuck_tasks_def reap_key_def
    reap_item_def reap_to_dlq_def queue_defs Let_def outbox_get_pending_def
  by (intro keeps_intros mature_loop_keeps)+

lemma worker_files_docs:
  assumes "read_only handlers"
  shows "keeps (\<lambda>w. files_docs w = x) (worker_turn R handlers loads text_param worker hb)"
proof -
  have "keeps (\<lambda>w. files_docs w = x) (run_handler handlers n ctx)" for n ctx
    by (rule keepsI) (auto dest: run_handler_frame [OF assms])
  then show ?thesis
    unfolding worker_turn_def discard_task_def process_task_def task_transaction_def run_attempt_def
      execute_step_handler_def load_previous_outputs_def latest_output_def Let_def queue_defs
      attempt_get_by_id_def step_get_by_id_def run_get_by_id_def step_get_by_run_and_name_def
    by (intro keeps_intros)
qed

text \<open>The orchestrator has no access to either.\<close>

lemma uniform_files_docs [keeps_intros]: "keeps (\<lambda>w. files_docs w = x) (uniform a b)"
  by (simp add: keeps_def uniform_def)

lemma repos_files_docs [keeps_intros]:
  "keeps (\<lambda>w. files_docs w = x) (run_create rn)"
  "keeps (\<lambda>w. files_docs w = x) (attempt_create att)" "keeps (\<lambda>w. files_docs w = x) (outbox_create obx)"
  "keeps (\<lambda>w. files_docs w = x) (escalation_create esc)" "keeps (\<lambda>w. files_docs w = x) (attempt_list_by_step i)"
  "keeps (\<lambda>w. files_docs w = x) (step_get_by_id i)" "keeps (\<lambda>w. files_docs w = x) (step_get_by_run_and_name i nm)"
  "keeps (\<lambda>w. files_docs w = x) (step_list_by_workflow_run i)" "keeps (\<lambda>w. files_docs w = x) (compute_backoff_delay p n)"
  unfolding run_create_def attempt_create_def outbox_create_def escalation_create_def attempt_list_by_step_def
    step_get_by_id_def step_get_by_run_and_name_def step_list_by_workflow_run_def compute_backoff_delay_def
  by (intro keeps_intros)+

lemma outcomes_files_docs [keeps_intros]:
  "keeps (\<lambda>w. files_docs w = x) (handle_succeeded reg run run_steps step now)"
  "keeps (\<lambda>w. files_docs w = x) (open_escalation code run step res now)"
  unfolding handle_succeeded_def get_document_ids_def open_escalation_def by (intro keeps_intros)+

lemma failures_files_docs [keeps_intros]:
  "keeps (\<lambda>w. files_docs w = x) (handle_failed_terminal run step res now)"
  unfolding handle_failed_terminal_def by (intro keeps_intros)

lemma retries_files_docs [keeps_intros]:
  "keeps (\<lambda>w. files_docs w = x) (handle_failed_retryable reg run step res now)"
  unfolding handle_failed_retryable_def get_document_ids_def by (intro keeps_intros)

lemma operations_files_docs [keeps_intros]:
  "keeps (\<lambda>w. files_docs w = x) (start_workflow_run reg name version docs actor corr deadline)"
  "keeps (\<lambda>w. files_docs w = x) (advance_workflow reg i name res)"
  "keeps (\<lambda>w. files_docs w = x) (resume_after_escalation reg i payload actor)"
  "keeps (\<lambda>w. files_docs w = x) (cancel_workflow i actor reason)"
  unfolding start_workflow_run_def queue_first_step_def advance_workflow_def handle_escalate_def
    resume_after_escalation_def cancel_workflow_def
  by (intro keeps_intros)+

lemma orchestrator_files_docs: "keeps (\<lambda>w. files_docs w = x) (exec_orch reg op)"
  unfolding exec_orch_def by (cases op) (auto intro!: keeps_intros)

lemma sys_step_payloads: "keeps (payloads_ok (PAYLOAD_STORAGE_PATH (env_settings E))) (sys_step E op)"
proof (cases "\<exists>cred a. op = SysApi cred a")
  case True
  then show ?thesis using exec_api_payloads by auto
next
  case False
  have "keeps (\<lambda>w. files_docs w = x) (sys_step E op)" for x
  proof (cases op)
    case (SysVerify n)
    then show ?thesis by (auto intro!: keeps_dropE verify_frame draws_files_docs session_files_docs)
  next
    case (SysBatch n st)
    then show ?thesis by (auto intro!: keeps_dropE verify_frame draws_files_docs session_files_docs)
  qed (use False in \<open>auto intro!: keeps_dropE keeps_guarded loops_files_docs worker_files_docs handlers_read_only orchestrator_files_docs\<close>)
  note frame = keepsD [OF this refl]
  show ?thesis by (rule keepsI) (erule payloads_ok_frame, erule frame)
qed

section \<open>The deployed program\<close>

text \<open>
  Nothing in the API and the background loops calls the orchestrator: the program as it is
  deployed never completes a run.
\<close>

definition deployed :: "sys_op \<Rightarrow> bool" where
  "deployed op \<longleftrightarrow> (case op of SysOrchestrator _ \<Rightarrow> False | _ \<Rightarrow> True)"

text \<open>What survives the requests and the elementary changes of the loops survives the deployed program.\<close>

locale deployed_contract = db_invariant P + api_contract P for P
begin

lemma deployed_keeps:
  assumes "deployed op"
  shows "keeps (\<lambda>w. P (w_db w)) (sys_step E op)"
proof (cases op)
  case (SysApi cred aop)
  then show ?thesis by (auto intro!: keepsI dest: exec_api_keeps)
next
  case (SysScheduler a)
  then show ?thesis by (auto intro!: keeps_dropE scheduler_keeps)
qed (use assms in \<open>auto simp: deployed_def intro!: keeps_intros relay_keeps reaper_keeps
      turn_keeps handlers_read_only verify_frame draws_keep session_keeps\<close>)

lemma deployed_run_keeps:
  assumes "\<And>op. op \<in> set ops \<Longrightarrow> deployed op" "P (w_db w)"
  shows "P (w_db (run_system E ops w))"
  using run_system_keeps [of ops "\<lambda>w. P (w_db w)" E w] deployed_keeps assms by blast

end

definition completed_within :: "uuid set \<Rightarrow> db \<Rightarrow> bool" where
  "completed_within C d \<longleftrightarrow> (\<forall>r \<in> set (workflow_runs d). run_state r = completed \<longrightarrow> run_workflow_run_id r \<in> C)"

interpretation no_completion: deployed_contract "completed_within C" for C
  by unfold_locales
    (auto simp: completed_within_def cancelled_db_def claimed_db_def rejected_db_def resolved_db_def move_run_def
      new_run_db_def close_run_def Ball_map_where split: if_splits)

end
