(* ===== verification/Demo.thy ===== *)
theory Demo
  imports System
begin

text \<open>
  A small concrete world: a run of two steps, its first task in the outbox, a claimed
  escalation, a document in the store, a supervisor's key and an empty in-memory server. The
  instances of the theorems are taken here.
\<close>

definition demo_run :: WorkflowRunModel where
  "demo_run = \<lparr>run_workflow_run_id = 1, run_workflow_name = ''claim_intake'', run_workflow_version = ''v1'',
     run_state = running, run_version = 2, run_current_step_id = Some 10, run_created_at = 0, run_updated_at = 0,
     run_deadline_at = 7200000000, run_reference_data_snapshot_id = None, run_created_by = ''user:operator:a'',
     run_last_error_code = None, run_last_error_detail = None\<rparr>"

definition demo_step :: "uuid \<Rightarrow> string \<Rightarrow> int \<Rightarrow> StepModel" where
  "demo_step i name idx = \<lparr>stp_step_id = i, stp_workflow_run_id = 1, stp_step_name = name, stp_step_index = idx,
     stp_state = queued, stp_max_attempts = 3, stp_escalate_on_failure = True,
     stp_retry_policy = [(''base_delay_s'', JFloat 1), (''cap_s'', JFloat 60), (''jitter'', JStr ''full'')],
     stp_created_at = 0, stp_started_at = None, stp_ended_at = None\<rparr>"

definition demo_attempt :: StepAttemptModel where
  "demo_attempt = mk_attempt 20 10 1 None 0"

definition demo_task :: TasksOutboxModel where
  "demo_task = (mk_outbox 1 10 20 (task_payload 1 ''claim_intake'' ''v1'' 10 20 ''ingest'' ''ingest'' ''c'' []) 0 0)
     \<lparr>obx_outbox_id := 1\<rparr>"

definition demo_case :: EscalationCaseModel where
  "demo_case = \<lparr>esc_escalation_id = 30, esc_workflow_run_id = 1, esc_step_id = 10, esc_state = claimed,
     esc_reason_code = ''STEP_ESCALATED'', esc_reason_detail = None, esc_claimed_by = Some ''api_key:supervisor:s'',
     esc_claimed_at = Some 0, esc_resolved_by = None, esc_resolved_at = None, esc_resolution_payload = None,
     esc_expires_at = 86400000000, esc_created_at = 0\<rparr>"

definition demo_bytes :: bytes where
  "demo_bytes = [0x25, 0x50, 0x44, 0x46]"

definition demo_document :: DocumentModel where
  "demo_document = \<lparr>doc_document_id = 40, doc_content_hash = sha256 demo_bytes, doc_content_type = ''application/pdf'',
     doc_size_bytes = 4, doc_payload_ref = content_hash_to_ref (sha256 demo_bytes), doc_ingested_at = 0,
     doc_ingested_by = ''user:operator:a'', doc_idempotency_key = None, doc_api_key_id = None, doc_metadata = []\<rparr>"

definition demo_key :: ApiKeyModel where
  "demo_key = \<lparr>key_api_key_id = 50, key_key_hash = compute_key_hash [] ''secret'', key_label = ''ops'',
     key_role = ''supervisor'', key_created_at = 0, key_created_by = ''seed'', key_expires_at = None,
     key_revoked_at = None, key_last_used_at = None\<rparr>"

definition demo_db :: db where
  "demo_db = \<lparr>documents = [demo_document], workflow_runs = [demo_run], workflow_run_documents = [],
     steps = [demo_step 10 ''ingest'' 0, demo_step 11 ''extract'' 1], step_attempts = [demo_attempt],
     tasks_outbox = [demo_task], outbox_seq = 2, escalation_cases = [demo_case], audit_events = [],
     api_keys = [demo_key]\<rparr>"

definition demo :: "mem sysworld" where
  "demo = \<lparr>w_db = demo_db, w_uuid4 = (\<lambda>k. of_nat (100 + k)), w_uuid4_n = 0, w_urandom = (\<lambda>_. replicate 10 0), w_urandom_n = 0,
     w_now = (\<lambda>k. 1700000000000000 + 1000 * int k), w_now_n = 0, w_random = (\<lambda>_. 1 / 2), w_random_n = 0,
     w_perf = (\<lambda>k. of_nat k / 1000), w_perf_n = 0,
     w_float_repr = (\<lambda>_. ''0.5''), w_metrics = [],
     w_redis = \<lparr>mem_lists = [], mem_zsets = [], mem_counters = []\<rparr>,
     w_files = [payload_path ''/data/payloads'' (sha256 demo_bytes) \<mapsto> demo_bytes], w_disk = (\<lambda>_. None), w_disk_n = 0\<rparr>"

lemmas demo_defs = demo_def demo_db_def demo_run_def demo_step_def demo_attempt_def demo_task_def demo_case_def
  demo_document_def demo_key_def mk_attempt_def mk_outbox_def

lemma demo_wf: "world_wf demo"
  by (simp add: db_wf_defs demo_defs step_index_key_def step_name_key_def attempt_key_def escalation_key_def
      fk_opt_def content_type_ok_def compute_key_hash_def length_sha256) (code_simp)

lemma demo_audit_ok: "audit_ok demo"
  by (simp add: audit_ok_def demo_defs events_of_run_def)

lemma demo_clock_ok: "clock_ok demo"
  by (simp add: clock_ok_def demo_defs mono_def events_of_run_def)

text \<open>Running an operation here: every event appended is the first of its run.\<close>

lemmas demo_run_simps = run_simps bindE_def catchE_def now_utc_def uuid4_def metric_def uniform_def
  scalar_one_or_none_def append_audit_event_succeeds events_of_run_def event_id_fresh_def fk_opt_def
  appended_def update_run_def update_step_def update_attempt_def update_escalation_def
  run_get_by_id_def step_get_by_id_def attempt_get_by_id_def escalation_get_by_id_def
  step_get_by_run_and_name_def steps_of_run_def step_list_by_workflow_run_def attempt_list_by_step_def attempts_of_step_def
  attempt_create_def insert_attempt_def outbox_create_def insert_outbox_def escalation_create_def insert_escalation_def
  attempt_key_def escalation_key_def dict_get_or_def dict_get_def Let_def

definition demo_result :: "string \<Rightarrow> StepResult" where
  "demo_result st = \<lparr>sr_status = st, sr_output = None, sr_error_code = None, sr_error_detail = None\<rparr>"

lemma demo_cancel: "\<exists>u w'. cancel_workflow 1 ''user:supervisor:s'' None demo = (Inr u, w')"
  by (simp add: cancel_workflow_def demo_run_simps demo_defs)

lemma demo_advance:
  "\<exists>u w'. advance_workflow registry 1 ''ingest'' (demo_result ''succeeded'') demo = (Inr u, w')"
  by (simp add: advance_workflow_def handle_succeeded_def get_document_ids_def demo_result_def demo_run_simps demo_defs)

lemma demo_retry:
  "\<exists>u w'. advance_workflow registry 1 ''ingest'' (demo_result ''failed_retryable'') demo = (Inr u, w')"
  by (simp add: advance_workflow_def handle_failed_retryable_def get_document_ids_def compute_backoff_delay_def
      policy_of_json_def json_number_def demo_result_def demo_run_simps demo_defs)

lemma demo_fail:
  "\<exists>u w'. advance_workflow registry 1 ''extract'' (demo_result ''failed_terminal'') demo = (Inr u, w')"
  by (simp add: advance_workflow_def handle_failed_terminal_def open_escalation_def new_escalation_def close_run_def
      demo_result_def demo_run_simps demo_defs)

text \<open>The same with the first step's only attempt made, the second step still to come and no case yet.\<close>

definition demo_worn :: "mem sysworld" where
  "demo_worn = demo\<lparr>w_db := demo_db\<lparr>steps := [(demo_step 10 ''ingest'' 0)\<lparr>stp_max_attempts := 1\<rparr>,
     demo_step 11 ''extract'' 1], escalation_cases := []\<rparr>\<rparr>"

lemma demo_exhausted:
  "\<exists>u w'. advance_workflow registry 1 ''ingest'' (demo_result ''failed_retryable'') demo_worn = (Inr u, w')"
  by (simp add: advance_workflow_def handle_failed_retryable_def handle_failed_terminal_def close_run_def
      open_escalation_def new_escalation_def demo_worn_def demo_result_def demo_run_simps demo_defs)

definition demo_registry :: WorkflowRegistry where
  "demo_registry = [((''w'', ''v1''), \<lparr>wd_workflow_name = ''w'', wd_workflow_version = ''v1'',
     wd_steps = [(wd_steps claim_intake_v1) ! 0], wd_deadline_seconds = 60\<rparr>)]"

lemma demo_start: "\<exists>u w'. start_workflow_run demo_registry ''w'' ''v1'' [40] ''user:operator:a'' ''c'' None demo = (Inr u, w')"
  by (simp add: start_workflow_run_def queue_first_step_def registry_get_def demo_registry_def claim_intake_v1_def mk_steps_def mk_step_def
    fresh_run_def effective_deadline_def run_create_def insert_run_def insert_run_document_def step_create_many_def insert_step_def run_document_key_def
    step_index_key_def step_name_key_def demo_run_simps demo_defs)

definition demo_principal :: ApiKeyPrincipal where
  "demo_principal = \<lparr>pr_api_key_id = ''s'', pr_role = ''supervisor'', pr_label = ''ops''\<rparr>"

lemma demo_api_cancel: "\<exists>u w'. cancel_workflow_run True 1 None None demo_principal demo = (Inr u, w')"
  by (simp add: cancel_workflow_run_def run_update_state_optimistic_def run_response_def demo_principal_def demo_run_simps demo_defs)

lemma demo_resolve: "\<exists>u w'. resolve_escalation 30 \<lparr>rq_approve = Some True, rq_override = None, rq_notes = []\<rparr> demo_principal demo = (Inr u, w')"
  by (simp add: resolve_escalation_def claimed_case_def decide_case_def escalation_response_def actor_string_def demo_principal_def demo_run_simps demo_defs)

lemma demo_reject: "\<exists>u w'. reject_escalation 30 \<lparr>rj_reason_code = ''r'', rj_notes = []\<rparr> demo_principal demo = (Inr u, w')"
  by (simp add: reject_escalation_def claimed_case_def decide_case_def escalation_response_def actor_string_def
      close_run_def demo_principal_def demo_run_simps demo_defs)

lemma demo_payloads_ok: "payloads_ok ''/data/payloads'' demo"
  by (auto simp: payloads_ok_def store_ok_def demo_defs dest: payload_path_inj [rotated 2])

lemma uuid_str_not_Nil [simp]: "uuid_str u \<noteq> []"
  by (simp add: uuid_str_def Let_def)

lemma demo_task_fields:
  "uuid_field (dict_get_or (obx_payload demo_task) ''step_attempt_id'' JNull) = Inr (Some 20)"
  "uuid_field (dict_get_or (obx_payload demo_task) ''step_id'' JNull) = Inr (Some 10)"
  "uuid_field (dict_get_or (obx_payload demo_task) ''workflow_run_id'' JNull) = Inr (Some 1)"
  by (simp_all add: uuid_parse_str demo_task_def mk_outbox_def task_payload_def dict_get_or_def dict_get_def uuid_field_def)

section \<open>An environment and some more worlds\<close>

definition demo_env :: "mem env" where
  "demo_env = \<lparr>env_redis = mem_redis, env_registry = registry, env_settings = default_settings,
     env_decode = map (char_of \<circ> unat), env_loads = (\<lambda>_. Inl (ValueError [])), env_to_float = (\<lambda>_. None),
     env_text_param = (\<lambda>_. Inl (DataError [])), env_parse = (\<lambda>_. None), env_shuffle = id\<rparr>"

definition demo_context :: StepContext where
  "demo_context = \<lparr>ctx_workflow_run_id = 1, ctx_step_id = 10, ctx_step_attempt_id = 20, ctx_step_name = ''ingest'',
     ctx_workflow_name = JStr ''claim_intake'', ctx_document_ids = [DocId 40], ctx_correlation_id = JStr ''c'',
     ctx_previous_outputs = []\<rparr>"

definition demo_field :: ExtractionField where
  "demo_field = \<lparr>ef_name = JStr ''claim_type'', ef_value = JStr ''auto'', ef_confidence = CONFIDENCE,
     ef_provenance = [\<lparr>prov_page = JNull, prov_offset_start = JInt 12, prov_offset_end = JInt 16,
       prov_text_snippet = JStr ''Claim Type: auto''\<rparr>]\<rparr>"

definition demo_ops :: "sys_op list" where
  "demo_ops = [SysApi (Some ''secret'') (ApiCancel True 1 None None), SysRelay True, SysScheduler True,
     SysWorker ''w1'' 0, SysReaper 60, SysVerify 10, SysOrchestrator (OpAdvance 1 ''ingest'' (demo_result ''succeeded''))]"

definition broken_event :: AuditEventModel where
  "broken_event = \<lparr>evt_audit_event_id = 60, evt_workflow_run_id = 1, evt_step_id = None, evt_step_attempt_id = None,
     evt_event_type = ''workflow_run.started'', evt_actor = ''user:operator:a'', evt_payload = [], evt_occurred_at = 0,
     evt_seq_in_run = 1, evt_prev_event_hash = Some [], evt_event_hash = []\<rparr>"

definition first_event :: "string \<Rightarrow> AuditEventModel" where
  "first_event a = (let e = broken_event\<lparr>evt_prev_event_hash := None, evt_actor := a\<rparr>
     in e\<lparr>evt_event_hash := event_row_hash (\<lambda>_. []) e\<rparr>)"

lemma demo_coherent: "coherent (w_db demo)"
  by (simp add: coherent_defs demo_defs)

lemma demo_attempts_inv: "attempts_inv (w_db demo)"
  by (auto simp: attempts_numbered_def attempts_bounded_def system_attempts_def attempts_of_step_def demo_defs)

definition full_redis :: "mem redis_api" where
  "full_redis = mem_redis\<lparr>r_lpush := (\<lambda>k v m. (Inl (RedisError ''OOM''), m))\<rparr>"

lemma full_redis_laws: "redis_laws full_redis mem_ls mem_zs"
  using mem_redis_laws by (auto simp: redis_laws_def full_redis_def effect_def)

definition demo_delayed :: "mem sysworld" where
  "demo_delayed = demo\<lparr>w_redis := \<lparr>mem_lists = [], mem_zsets = [(QUEUE_DELAYED, [([7], 5)])], mem_counters = []\<rparr>\<rparr>"

lemma demo_relay:
  "\<exists>n w' ob. relay_batch mem_redis True demo = (Inr n, w') \<and> ob \<in> set (tasks_outbox (w_db w')) \<and> obx_enqueued_at ob \<noteq> None"
  by (simp add: relay_batch_def relay_entry_def session_scope_def outbox_get_pending_def outbox_mark_enqueued_def enqueue_def
      redisE_def mem_redis_def demo_run_simps demo_defs)

definition demo_stuck :: "mem sysworld" where
  "demo_stuck = demo\<lparr>w_redis := \<lparr>mem_lists = [(inflight_key ''w1'', [[65]])], mem_zsets = [], mem_counters = []\<rparr>\<rparr>"

definition demo_done :: "mem sysworld" where
  "demo_done = demo\<lparr>w_db := demo_db\<lparr>step_attempts := [demo_attempt\<lparr>att_state := succeeded\<rparr>]\<rparr>\<rparr>"

lemma mem_counter_laws: "counter_laws mem_redis (\<lambda>m k. case map_of (mem_counters m) k of None \<Rightarrow> 0 | Some n \<Rightarrow> n)"
  by (auto simp: counter_laws_def mem_redis_def update_conv fun_eq_iff Let_def)

end
