(* ===== verification/Logging.thy ===== *)
theory Logging
  imports Security
begin

text \<open>
  \<open>observability/logging.py\<close>: the context variables of a task and the two processors of the
  pipeline that are the program's own, in their order: \<open>add_context_vars\<close>, then
  \<open>redact_sensitive_fields\<close>. What follows them renders the dictionary they return.
\<close>

section \<open>Context variables\<close>

text \<open>The five context variables, with the empty text as their default.\<close>

type_synonym log_context = "string \<Rightarrow> string"

definition CONTEXT_VARS :: "string list" where
  "CONTEXT_VARS = [''correlation_id'', ''workflow_run_id'', ''step_id'', ''step_attempt_id'', ''actor'']"

definition empty_context :: log_context where
  "empty_context = (\<lambda>_. [])"

definition bind_context :: "(string \<times> string) list \<Rightarrow> log_context \<Rightarrow> log_context" where
  "bind_context kwargs ctx = fold (\<lambda>(key, v) c. if key \<in> set CONTEXT_VARS then c(key := v) else c) kwargs ctx"

section \<open>Processors\<close>

text \<open>\<open>d.setdefault(k, v)\<close>\<close>

definition dict_setdefault :: "dict \<Rightarrow> string \<Rightarrow> json \<Rightarrow> dict" where
  "dict_setdefault d k v = (if map_of d k = None then d @ [(k, v)] else d)"

definition add_context_vars :: "log_context \<Rightarrow> dict \<Rightarrow> dict" where
  "add_context_vars ctx event_dict =
     foldl (\<lambda>d key. if ctx key \<noteq> [] then dict_setdefault d key (JStr (ctx key)) else d) event_dict CONTEXT_VARS"

definition log_record :: "log_context \<Rightarrow> dict \<Rightarrow> dict" where
  "log_record ctx event_dict = redact_sensitive_fields (add_context_vars ctx event_dict)"

section \<open>What is rendered\<close>

definition sensitive :: "string \<Rightarrow> bool" where
  "sensitive key \<longleftrightarrow> py_lower key \<in> set REDACTED_FIELDS"

lemma setdefault_lookup: "map_of (dict_setdefault d k v) k' = (if k' = k \<and> map_of d k = None then Some v else map_of d k')"
  by (auto simp: dict_setdefault_def map_add_def split: option.split)

lemma setdefault_distinct: "distinct (map fst d) \<Longrightarrow> distinct (map fst (dict_setdefault d k v))"
  by (auto simp: dict_setdefault_def map_of_eq_None_iff)

lemma context_distinct:
  "distinct (map fst d) \<Longrightarrow>
     distinct (map fst (foldl (\<lambda>d key. if ctx key \<noteq> [] then dict_setdefault d key (JStr (ctx key)) else d) d ks))"
  by (induction ks arbitrary: d) (auto intro: setdefault_distinct)

lemma context_lookup:
  "map_of (foldl (\<lambda>d key. if ctx key \<noteq> [] then dict_setdefault d key (JStr (ctx key)) else d) d ks) k =
     (case map_of d k of Some v \<Rightarrow> Some v | None \<Rightarrow> if k \<in> set ks \<and> ctx k \<noteq> [] then Some (JStr (ctx k)) else None)"
  by (induction ks arbitrary: d) (auto simp: setdefault_lookup split: option.splits)

lemma redact_lookup:
  assumes "distinct (map fst d)"
  shows "map_of (redact_sensitive_fields d) k =
    (if sensitive k then map_option (\<lambda>_. JStr REDACTED_VALUE) (map_of d k) else map_of d k)"
  unfolding redact_map [OF assms] by (induction d) (auto simp: sensitive_def)

lemma context_not_sensitive: "k \<in> set CONTEXT_VARS \<Longrightarrow> \<not> sensitive k"
proof -
  have "list_all (\<lambda>k. py_lower k \<notin> set REDACTED_FIELDS) CONTEXT_VARS" by code_simp
  then show "k \<in> set CONTEXT_VARS \<Longrightarrow> \<not> sensitive k" by (simp add: list_all_iff sensitive_def)
qed

text \<open>Every key of a record: redacted, the event's own value, or the context's.\<close>

lemma log_record_lookup:
  assumes "distinct (map fst d)"
  shows "map_of (log_record ctx d) k =
    (case map_of d k of
       Some v \<Rightarrow> Some (if sensitive k then JStr REDACTED_VALUE else v)
     | None \<Rightarrow> if k \<in> set CONTEXT_VARS \<and> ctx k \<noteq> [] then Some (JStr (ctx k)) else None)"
  using redact_lookup [OF context_distinct [OF assms], of ctx CONTEXT_VARS k] context_lookup [of ctx d CONTEXT_VARS k]
    context_not_sensitive [of k]
  by (auto simp: log_record_def add_context_vars_def split: option.splits)

text \<open>Two events that differ in the values of sensitive keys only are rendered alike.\<close>

definition alike :: "dict \<Rightarrow> dict \<Rightarrow> bool" where
  "alike d d' \<longleftrightarrow> list_all2 (\<lambda>(k, v) (k', v'). k = k' \<and> (sensitive k \<or> v = v')) d d'"

lemma alike_keys: "alike d d' \<Longrightarrow> map fst d = map fst d'"
  unfolding alike_def by (induction rule: list_all2_induct) auto

lemma alike_context:
  "alike d d' \<Longrightarrow> alike (foldl (\<lambda>d key. if ctx key \<noteq> [] then dict_setdefault d key (JStr (ctx key)) else d) d ks)
     (foldl (\<lambda>d key. if ctx key \<noteq> [] then dict_setdefault d key (JStr (ctx key)) else d) d' ks)"
proof (induction ks arbitrary: d d')
  case (Cons k ks)
  have "map_of d k = None \<longleftrightarrow> map_of d' k = None"
    using alike_keys [OF Cons.prems] by (simp only: map_of_eq_None_iff) (metis list.set_map)
  then have "alike (dict_setdefault d k v) (dict_setdefault d' k v)" for v
    using Cons.prems by (auto simp: alike_def dict_setdefault_def intro: list_all2_appendI)
  with Cons show ?case by simp
qed simp

lemma log_record_alike:
  assumes "distinct (map fst d)" "alike d d'"
  shows "log_record ctx d = log_record ctx d'"
proof -
  let ?e = "add_context_vars ctx d" and ?e' = "add_context_vars ctx d'"
  have a: "alike ?e ?e'" unfolding add_context_vars_def by (rule alike_context [OF assms(2)])
  have "distinct (map fst ?e)" unfolding add_context_vars_def by (rule context_distinct [OF assms(1)])
  moreover from this have "distinct (map fst ?e')" using alike_keys [OF a] by simp
  moreover have "map (\<lambda>(k, v). (k, if py_lower k \<in> set REDACTED_FIELDS then JStr REDACTED_VALUE else v)) ?e =
      map (\<lambda>(k, v). (k, if py_lower k \<in> set REDACTED_FIELDS then JStr REDACTED_VALUE else v)) ?e'"
    using a unfolding alike_def sensitive_def by (induction rule: list_all2_induct) auto
  ultimately show ?thesis by (simp only: log_record_def redact_map)
qed

text \<open>Only the keys of the record itself are looked at: what a nested dictionary holds is rendered.\<close>

lemma nested_not_redacted:
  "log_record empty_context [(''fields'', JObj [(''policy_number'', JStr v)])] = [(''fields'', JObj [(''policy_number'', JStr v)])]"
proof -
  have "\<not> sensitive ''fields''" by (simp add: sensitive_def) code_simp
  then show ?thesis
    by (simp add: log_record_def add_context_vars_def empty_context_def CONTEXT_VARS_def redact_map sensitive_def)
qed

text \<open>The sensitive keys, one by one.\<close>

lemma sensitive_keys: "sensitive k \<longleftrightarrow> py_lower k \<in>
    {''ssn'', ''social_security'', ''dob'', ''date_of_birth'', ''policy_number'', ''phone'', ''email'', ''address''}"
  by (simp add: sensitive_def REDACTED_FIELDS_def)

text \<open>
  The keys that \<open>SECURITY_REVIEW.md\<close> and \<open>OBSERVABILITY_STRATEGY.md\<close> say are redacted, as personal data
  or as secrets. Most of them are not among the eight, and are logged as they are.
\<close>

definition documented_keys :: "string list" where
  "documented_keys = [''ssn'', ''dob'', ''date_of_birth'', ''policy_number'', ''address'', ''phone'', ''email'',
     ''claimant_name'', ''first_name'', ''last_name'', ''icd_code'', ''cpt_code'', ''medical_code'', ''account_number'',
     ''routing_number'', ''card_pan'', ''api_key'', ''token'', ''password'', ''secret_key'', ''pepper'']"

lemma documented_keys_logged: "k \<in> set (drop 7 documented_keys) \<Longrightarrow> log_record empty_context [(k, v)] = [(k, v)]"
proof -
  assume k: "k \<in> set (drop 7 documented_keys)"
  have "list_all (\<lambda>k. py_lower k \<notin> set REDACTED_FIELDS) (drop 7 documented_keys)" by code_simp
  with k have "py_lower k \<notin> set REDACTED_FIELDS" by (simp add: list_all_iff)
  then show ?thesis
    by (simp add: log_record_def add_context_vars_def empty_context_def CONTEXT_VARS_def redact_map)
qed

end
