(* ===== verification/App.thy ===== *)
theory App
  imports Api Logging
begin

text \<open>
  \<open>api/app.py\<close> and \<open>api/routes/health.py\<close>: what stands between the server and the route handlers.
  Starlette calls the middleware that was added last first: the timing of requests, then the
  limit on their size, then the correlation identifier, and innermost the handlers of HTTP
  exceptions around the router. What the router does is an argument, a function of the logging
  context and the request. Names of headers are lower-case, as the server hands them over; the
  headers that an \<open>HTTPException\<close> may carry are left out.
\<close>

section \<open>Requests and responses\<close>

record http_request =
  hr_method :: string
  hr_path :: string
  hr_headers :: "(string \<times> string) list"

record http_response =
  hp_status :: int
  hp_headers :: "(string \<times> string) list"
  hp_body :: json

type_synonym 'r router = "log_context \<Rightarrow> http_request \<Rightarrow> ('r, http_response) sexec"

definition json_response :: "int \<Rightarrow> json \<Rightarrow> http_response" where
  "json_response status content = \<lparr>hp_status = status, hp_headers = [], hp_body = content\<rparr>"

definition error_body :: "string \<Rightarrow> string \<Rightarrow> json" where
  "error_body error_code message = JObj [(''error_code'', JStr error_code), (''message'', JStr message)]"

section \<open>Exceptions\<close>

text \<open>The handler registered for 404 takes every HTTP exception of that status; FastAPI's own takes the others.\<close>

definition not_found_handler :: http_response where
  "not_found_handler = json_response 404 (error_body ''NOT_FOUND'' ''Resource not found'')"

definition internal_error_handler :: http_response where
  "internal_error_handler = json_response 500 (error_body ''INTERNAL_ERROR'' ''Internal server error'')"

definition exception_middleware :: "'r router \<Rightarrow> 'r router" where
  "exception_middleware router ctx req =
     catchE (router ctx req)
       (\<lambda>e. case e of
          HTTPException status detail \<Rightarrow>
            returnE (if status = 404 then not_found_handler else json_response status (JObj [(''detail'', JStr detail)]))
        | _ \<Rightarrow> raiseE e)"

section \<open>Middleware\<close>

definition correlation_id_middleware :: "'r router \<Rightarrow> 'r router" where
  "correlation_id_middleware call_next ctx req =
     bindE (case map_of (hr_headers req) ''x-correlation-id'' of
         Some (c # cs) \<Rightarrow> returnE (c # cs)
       | _ \<Rightarrow> bindE uuid4 (\<lambda>u. returnE (uuid_str u))) (\<lambda>cid.
     bindE (call_next (bind_context [(''correlation_id'', cid)] (ctx(''correlation_id'' := cid))) req) (\<lambda>response.
     returnE (response\<lparr>hp_headers := AList.update ''x-correlation-id'' cid (hp_headers response)\<rparr>)))"

definition request_size_limit_middleware :: "Settings \<Rightarrow> 'r router \<Rightarrow> 'r router" where
  "request_size_limit_middleware settings call_next ctx req =
     (case request_size_limit settings (map_of (hr_headers req) ''content-length'') of
        Inl e \<Rightarrow> raiseE e
      | Inr (Some status) \<Rightarrow> returnE (json_response status (error_body ''REQUEST_TOO_LARGE''
          (''Request body exceeds '' @ int_str (MAX_REQUEST_BYTES settings) @ '' bytes'')))
      | Inr None \<Rightarrow> call_next ctx req)"

definition request_timing_middleware :: "'r router \<Rightarrow> 'r router" where
  "request_timing_middleware call_next ctx req =
     bindE perf_counter (\<lambda>start.
     bindE (call_next ctx req) (\<lambda>response.
     bindE perf_counter (\<lambda>stop.
     bindE (metric ''api_request_duration_seconds'' [hr_path req, hr_method req]) (\<lambda>_.
     bindE (metric ''api_requests_total'' [hr_path req, hr_method req, int_str (hp_status response)]) (\<lambda>_.
     returnE response)))))"

text \<open>The whole application; what none of them handles is answered with 500.\<close>

definition create_app :: "Settings \<Rightarrow> 'r router \<Rightarrow> http_request \<Rightarrow> ('r, http_response) sexec" where
  "create_app settings router req =
     catchE (request_timing_middleware (request_size_limit_middleware settings
         (correlation_id_middleware (exception_middleware router))) empty_context req)
       (\<lambda>e. returnE internal_error_handler)"

section \<open>Health\<close>

definition healthz :: http_response where
  "healthz = json_response 200 (JObj [(''status'', JStr ''ok'')])"

text \<open>The outcomes of the two connectivity checks, as the texts of their errors.\<close>

definition readyz :: "string option \<Rightarrow> string option \<Rightarrow> http_response" where
  "readyz database redis =
     (let errors = (case database of None \<Rightarrow> [] | Some e \<Rightarrow> [''database: '' @ e]) @
                   (case redis of None \<Rightarrow> [] | Some e \<Rightarrow> [''redis: '' @ e]) in
      if errors \<noteq> []
      then json_response 503 (JObj [(''status'', JStr ''unavailable''), (''errors'', JArr (map JStr errors))])
      else json_response 200 (JObj [(''status'', JStr ''ok'')]))"

lemma readyz_status: "hp_status (readyz db rd) = (if db = None \<and> rd = None then 200 else 503)"
  by (cases db; cases rd) (simp_all add: readyz_def json_response_def)

section \<open>What a client sees\<close>

lemma app_total: "\<exists>response w'. create_app settings router req w = (Inr response, w')"
  by (auto simp: create_app_def catchE_def returnE_def split: prod.split sum.split)

text \<open>A body that is announced as too large never reaches the router.\<close>

definition too_large :: "Settings \<Rightarrow> http_request \<Rightarrow> bool" where
  "too_large settings req \<longleftrightarrow> request_size_limit settings (map_of (hr_headers req) ''content-length'') = Inr (Some 413)"

lemma app_too_large:
  assumes "too_large settings req"
  shows "\<exists>w'. create_app settings router req w = (Inr (json_response 413 (error_body ''REQUEST_TOO_LARGE''
      (''Request body exceeds '' @ int_str (MAX_REQUEST_BYTES settings) @ '' bytes''))), w') \<and>
    w_db w' = w_db w \<and> w_files w' = w_files w \<and> w_redis w' = w_redis w"
  using assms
  by (simp add: create_app_def request_timing_middleware_def request_size_limit_middleware_def too_large_def
      perf_counter_def metric_def bindE_def catchE_def returnE_def modifyE_def)

lemma size_limit_iff:
  "request_size_limit settings cl = Inr (Some 413) \<longleftrightarrow>
     (\<exists>t n. cl = Some t \<and> t \<noteq> [] \<and> int_parse t = Some n \<and> n > MAX_REQUEST_BYTES settings)"
  by (auto simp: request_size_limit_def split: option.splits list.splits if_splits)

lemma size_limit_values: "request_size_limit settings cl = Inr (Some s) \<Longrightarrow> s = 413"
  by (auto simp: request_size_limit_def split: option.splits list.splits if_splits)

text \<open>An admitted request: the router runs once, and what it answers or raises decides the response.\<close>

definition answer :: "exn + http_response \<Rightarrow> http_response option" where
  "answer r = (case r of
       Inr response \<Rightarrow> Some response
     | Inl (HTTPException status detail) \<Rightarrow>
         Some (if status = 404 then not_found_handler else json_response status (JObj [(''detail'', JStr detail)]))
     | Inl _ \<Rightarrow> None)"

lemma exception_middleware_run:
  assumes "router ctx req w = (r, w')"
  shows "exception_middleware router ctx req w = (case answer r of Some a \<Rightarrow> (Inr a, w') | None \<Rightarrow> (Inl (projl r), w'))"
  using assms by (cases r) (auto simp: exception_middleware_def catchE_def returnE_def raiseE_def answer_def split: exn.splits)

definition labelled :: "http_request \<Rightarrow> http_response \<Rightarrow> (string \<times> string list) list" where
  "labelled req response =
     [(''api_request_duration_seconds'', [hr_path req, hr_method req]),
      (''api_requests_total'', [hr_path req, hr_method req, int_str (hp_status response)])]"

definition correlated :: "string \<Rightarrow> log_context" where
  "correlated cid = empty_context(''correlation_id'' := cid)"

lemma bind_correlation: "bind_context [(''correlation_id'', cid)] (ctx(''correlation_id'' := cid)) = ctx(''correlation_id'' := cid)"
  by (simp add: bind_context_def CONTEXT_VARS_def)

text \<open>The identifier of a request: the client's own text, whatever it is, else a fresh identifier.\<close>

definition request_cid :: "http_request \<Rightarrow> 'r sysworld \<Rightarrow> string" where
  "request_cid req w = (case map_of (hr_headers req) ''x-correlation-id'' of
     Some (c # cs) \<Rightarrow> c # cs | _ \<Rightarrow> uuid_str (w_uuid4 w (w_uuid4_n w)))"

definition brings_cid :: "http_request \<Rightarrow> bool" where
  "brings_cid req \<longleftrightarrow> map_of (hr_headers req) ''x-correlation-id'' \<notin> {None, Some []}"

lemma request_cid_cases: "request_cid req w =
    (if brings_cid req then the (map_of (hr_headers req) ''x-correlation-id'') else uuid_str (w_uuid4 w (w_uuid4_n w)))"
  by (auto simp: request_cid_def brings_cid_def split: option.split list.split)

abbreviation after_cid :: "http_request \<Rightarrow> 'r sysworld \<Rightarrow> 'r sysworld" where
  "after_cid req w \<equiv> (if brings_cid req then w else w\<lparr>w_uuid4_n := Suc (w_uuid4_n w)\<rparr>)"

lemma correlation_id_middleware_run:
  assumes "exception_middleware router (correlated (request_cid req w)) req (after_cid req w) = (r, w')"
  shows "correlation_id_middleware (exception_middleware router) empty_context req w =
    (map_sum id (\<lambda>a. a\<lparr>hp_headers := AList.update ''x-correlation-id'' (request_cid req w) (hp_headers a)\<rparr>) r, w')"
proof -
  have ctx: "bind_context [(''correlation_id'', cid)] (empty_context(''correlation_id'' := cid)) = correlated cid" for cid
    by (simp add: bind_correlation correlated_def)
  show ?thesis
    using assms by (cases r) (auto simp: correlation_id_middleware_def ctx request_cid_def brings_cid_def uuid4_def bindE_def
        split: option.splits list.splits)
qed

lemma app_admitted:
  fixes w :: "'r sysworld"
  defines "w0 \<equiv> w\<lparr>w_perf_n := Suc (w_perf_n w)\<rparr>"
  assumes "request_size_limit settings (map_of (hr_headers req) ''content-length'') = Inr None"
    and run: "router (correlated (request_cid req w)) req (after_cid req w0) = (r, w1)"
  shows "create_app settings router req w = (case answer r of
      Some a \<Rightarrow> let a' = a\<lparr>hp_headers := AList.update ''x-correlation-id'' (request_cid req w) (hp_headers a)\<rparr> in
        (Inr a', w1\<lparr>w_perf_n := Suc (w_perf_n w1), w_metrics := w_metrics w1 @ labelled req a\<rparr>)
    | None \<Rightarrow> (Inr internal_error_handler, w1))"
proof -
  have same: "request_cid req w0 = request_cid req w" by (simp add: request_cid_cases w0_def)
  have mid: "correlation_id_middleware (exception_middleware router) empty_context req w0 =
      (case answer r of
         Some a \<Rightarrow> (Inr (a\<lparr>hp_headers := AList.update ''x-correlation-id'' (request_cid req w) (hp_headers a)\<rparr>), w1)
       | None \<Rightarrow> (Inl (projl r), w1))"
    using exception_middleware_run [of router "correlated (request_cid req w)" req "after_cid req w0" r w1, OF run]
      correlation_id_middleware_run [of router req w0, unfolded same]
    by (cases "answer r") auto
  show ?thesis
    using mid assms(2)
    by (auto simp: create_app_def request_timing_middleware_def request_size_limit_middleware_def perf_counter_def metric_def
        bindE_def catchE_def returnE_def modifyE_def labelled_def w0_def Let_def split: option.split)
qed

text \<open>Any request, on every branch of the size limit.\<close>

lemma app_runs:
  fixes w :: "'r sysworld"
  defines "w0 \<equiv> w\<lparr>w_perf_n := Suc (w_perf_n w)\<rparr>"
  assumes "router (correlated (request_cid req w)) req (after_cid req w0) = (r, w1)"
  shows "create_app settings router req w =
    (case request_size_limit settings (map_of (hr_headers req) ''content-length'') of
       Inl e \<Rightarrow> (Inr internal_error_handler, w0)
     | Inr (Some status) \<Rightarrow>
         let a = json_response status (error_body ''REQUEST_TOO_LARGE''
               (''Request body exceeds '' @ int_str (MAX_REQUEST_BYTES settings) @ '' bytes'')) in
         (Inr a, w0\<lparr>w_perf_n := Suc (w_perf_n w0), w_metrics := w_metrics w @ labelled req a\<rparr>)
     | Inr None \<Rightarrow>
         (case answer r of
            Some a \<Rightarrow> (Inr (a\<lparr>hp_headers := AList.update ''x-correlation-id'' (request_cid req w) (hp_headers a)\<rparr>),
              w1\<lparr>w_perf_n := Suc (w_perf_n w1), w_metrics := w_metrics w1 @ labelled req a\<rparr>)
          | None \<Rightarrow> (Inr internal_error_handler, w1)))"
proof (cases "request_size_limit settings (map_of (hr_headers req) ''content-length'')")
  case (Inl e)
  then show ?thesis
    by (simp add: create_app_def request_timing_middleware_def request_size_limit_middleware_def perf_counter_def
        bindE_def catchE_def returnE_def raiseE_def w0_def)
next
  case (Inr limit)
  show ?thesis
  proof (cases limit)
    case None
    from app_admitted [of settings req router w r w1, OF Inr [unfolded None] assms(2) [unfolded w0_def]] show ?thesis
      using Inr None by (simp add: Let_def split: option.split)
  next
    case (Some status)
    with Inr show ?thesis
      by (simp add: create_app_def request_timing_middleware_def request_size_limit_middleware_def perf_counter_def metric_def
          bindE_def catchE_def returnE_def modifyE_def labelled_def w0_def Let_def)
  qed
qed

end
