(* ===== verification/Metrics.thy ===== *)
theory Metrics
  imports App System
begin

text \<open>
  \<open>observability/metrics.py\<close>: the metrics the program declares, each with the names of its labels,
  and what the log of metrics may hold: \<open>metric n ls\<close> stands for \<open>n.labels(...)\<close> followed by \<open>inc\<close> or
  \<open>observe\<close>, with the values of the labels in the order of their declaration.
\<close>

section \<open>Declarations\<close>

definition COUNTERS :: "(string \<times> string list) list" where
  "COUNTERS = [
    (''api_requests_total'', [''route'', ''method'', ''status'']),
    (''auth_denials_total'', [''reason'']),
    (''rate_limit_exceeded_total'', [''role'']),
    (''workflow_runs_started_total'', [''workflow_name'', ''workflow_version'']),
    (''workflow_runs_completed_total'', [''workflow_name'', ''workflow_version'', ''terminal_state'']),
    (''step_attempts_total'', [''workflow_name'', ''step_name'', ''outcome'']),
    (''step_attempt_retries_total'', [''workflow_name'', ''step_name'', ''reason'']),
    (''step_attempts_terminal_total'', [''workflow_name'', ''step_name'', ''reason'']),
    (''queue_tasks_enqueued_total'', [''workflow_name'', ''step_name'']),
    (''queue_tasks_acked_total'', [''workflow_name'', ''step_name'', ''outcome'']),
    (''queue_tasks_dlq_total'', [''workflow_name'', ''step_name'', ''reason'']),
    (''queue_reaper_reclaimed_total'', []),
    (''escalations_opened_total'', [''workflow_name'', ''step_name'']),
    (''escalations_resolved_total'', [''workflow_name'', ''resolution'']),
    (''escalations_claimed_expired_total'', [''workflow_name'']),
    (''audit_events_appended_total'', [''event_type'']),
    (''audit_chain_mismatches_total'', [])]"

definition HISTOGRAMS :: "(string \<times> string list) list" where
  "HISTOGRAMS = [
    (''api_request_duration_seconds'', [''route'', ''method'']),
    (''workflow_run_duration_seconds'', [''workflow_name'', ''workflow_version'', ''terminal_state'']),
    (''step_attempt_duration_seconds'', [''workflow_name'', ''step_name'']),
    (''outbox_drain_lag_seconds'', []),
    (''outbox_drain_batch_seconds'', []),
    (''db_query_duration_seconds'', [''operation'']),
    (''process_startup_ready_seconds'', [''service'']),
    (''escalation_open_age_seconds'', [''workflow_name''])]"

definition GAUGES :: "(string \<times> string list) list" where
  "GAUGES = [
    (''workflow_runs_running_total'', [''workflow_name'']),
    (''queue_depth'', [''queue'']),
    (''db_pool_in_use'', [''role'']),
    (''redis_pool_in_use'', [])]"

definition AI_METRICS :: "(string \<times> string list) list" where
  "AI_METRICS = [
    (''ai_extraction_total'', [''provider'', ''outcome'']),
    (''ai_extraction_duration_seconds'', [''provider'']),
    (''ai_extraction_confidence'', [''step_name'']),
    (''ai_ocr_duration_seconds'', [''provider'', ''content_type'']),
    (''ai_ocr_pages_total'', [''provider'']),
    (''ai_summarization_total'', [''summary_type'', ''outcome'']),
    (''ai_summarization_duration_seconds'', [''summary_type'']),
    (''ai_review_routed_total'', [''reason'', ''suggested_action'']),
    (''ai_review_decisions_total'', [''decision'']),
    (''ai_review_queue_depth'', []),
    (''ai_provider_calls_total'', [''provider'', ''operation_type'', ''outcome'']),
    (''ai_provider_tokens_total'', [''provider'', ''token_type'']),
    (''ai_provider_latency_seconds'', [''provider'', ''operation_type''])]"

definition METRICS :: "(string \<times> string list) list" where
  "METRICS = COUNTERS @ HISTOGRAMS @ GAUGES @ AI_METRICS"

text \<open>The metrics that some code of the program records.\<close>

definition RECORDED :: "string list" where
  "RECORDED = [''api_requests_total'', ''auth_denials_total'', ''rate_limit_exceeded_total'',
     ''workflow_runs_started_total'', ''workflow_runs_completed_total'', ''step_attempts_total'',
     ''queue_tasks_enqueued_total'', ''queue_tasks_acked_total'', ''queue_reaper_reclaimed_total'',
     ''escalations_resolved_total'', ''audit_events_appended_total'', ''audit_chain_mismatches_total'',
     ''api_request_duration_seconds'', ''workflow_run_duration_seconds'', ''step_attempt_duration_seconds'',
     ''outbox_drain_lag_seconds'', ''outbox_drain_batch_seconds'']"

text \<open>An entry of the log: a metric that is declared, with one value for each of its labels.\<close>

definition declared :: "string \<times> string list \<Rightarrow> bool" where
  "declared entry = (case map_of METRICS (fst entry) of None \<Rightarrow> False | Some labels \<Rightarrow> length (snd entry) = length labels)"

definition recorded :: "string \<times> string list \<Rightarrow> bool" where
  "recorded entry \<longleftrightarrow> fst entry \<in> set RECORDED \<and> declared entry"

lemma metrics_distinct: "distinct (map fst METRICS)"
  by code_simp

definition label_count :: "string \<Rightarrow> nat option" where
  "label_count n = (if n \<in> set RECORDED then map_option length (map_of METRICS n) else None)"

lemma recorded_iff: "recorded (n, ls) \<longleftrightarrow> label_count n = Some (length ls)"
  by (auto simp: recorded_def declared_def label_count_def split: option.splits)

lemma recorded_counts:
  "label_count ''api_requests_total'' = Some 3"
  "label_count ''auth_denials_total'' = Some 1"
  "label_count ''rate_limit_exceeded_total'' = Some 1"
  "label_count ''workflow_runs_started_total'' = Some 2"
  "label_count ''workflow_runs_completed_total'' = Some 3"
  "label_count ''step_attempts_total'' = Some 3"
  "label_count ''queue_tasks_enqueued_total'' = Some 2"
  "label_count ''queue_tasks_acked_total'' = Some 3"
  "label_count ''queue_reaper_reclaimed_total'' = Some 0"
  "label_count ''escalations_resolved_total'' = Some 2"
  "label_count ''audit_events_appended_total'' = Some 1"
  "label_count ''audit_chain_mismatches_total'' = Some 0"
  "label_count ''api_request_duration_seconds'' = Some 2"
  "label_count ''workflow_run_duration_seconds'' = Some 3"
  "label_count ''step_attempt_duration_seconds'' = Some 2"
  "label_count ''outbox_drain_lag_seconds'' = Some 0"
  "label_count ''outbox_drain_batch_seconds'' = Some 0"
  by code_simp+

lemmas recorded_simps = recorded_iff recorded_counts

text \<open>The declared metrics that nothing records.\<close>

lemma never_recorded: "filter (\<lambda>n. n \<notin> set RECORDED) (map fst METRICS) =
  [''step_attempt_retries_total'', ''step_attempts_terminal_total'', ''queue_tasks_dlq_total'',
   ''escalations_opened_total'', ''escalations_claimed_expired_total'', ''db_query_duration_seconds'',
   ''process_startup_ready_seconds'', ''escalation_open_age_seconds'', ''workflow_runs_running_total'',
   ''queue_depth'', ''db_pool_in_use'', ''redis_pool_in_use''] @ map fst AI_METRICS"
  by code_simp

section \<open>The log of metrics\<close>

text \<open>Entries are only ever added, and each of them is one of the recorded metrics.\<close>

definition logs :: "(string \<times> string list) list \<Rightarrow> 'r sysworld \<Rightarrow> bool" where
  "logs ms w \<longleftrightarrow> (\<exists>new. w_metrics w = ms @ new \<and> list_all recorded new)"

lemma logs_frame: "(\<And>w. w_metrics (f w) = w_metrics w) \<Longrightarrow> keeps (logs ms) (modifyE f)"
  by (simp add: keeps_def logs_def)

lemma write_logs [keeps_intros]: "keeps (logs ms) (write_db f)"
  by (simp add: keeps_def logs_def)

lemma checked_logs [keeps_intros]: "keeps (logs ms) (check_constraints cs f)"
  by (auto simp: keeps_def logs_def check_constraints_run split: option.splits)

lemma metric_logs: "recorded (n, ls) \<Longrightarrow> keeps (logs ms) (metric n ls)"
  by (auto simp: keeps_def metric_def logs_def)

lemma draws_logs [keeps_intros]:
  "keeps (logs ms) uuid4" "keeps (logs ms) now_utc" "keeps (logs ms) urandom10" "keeps (logs ms) (uniform a b)"
  "keeps (logs ms) perf_counter" "keeps (logs ms) disk_fault" "keeps (logs ms) (redisE m)"
  by (auto simp: keeps_def logs_def uuid4_def now_utc_def urandom10_def uniform_def perf_counter_def disk_fault_def
      redisE_def split: prod.splits)

lemma session_logs [keeps_intros]: "keeps (logs ms) m \<Longrightarrow> keeps (logs ms) (session_scope m)"
  by (force simp: keeps_def logs_def session_scope_def split: prod.splits sum.splits)

interpretation metrics_log: draws_kept "logs ms" for ms
  by unfold_locales (intro keeps_intros)+

text \<open>The calls of the program.\<close>

lemma metric_calls [keeps_intros]:
  "keeps (logs ms) (metric ''api_requests_total'' [a, b, c])"
  "keeps (logs ms) (metric ''auth_denials_total'' [a])"
  "keeps (logs ms) (metric ''rate_limit_exceeded_total'' [a])"
  "keeps (logs ms) (metric ''workflow_runs_started_total'' [a, b])"
  "keeps (logs ms) (metric ''workflow_runs_completed_total'' [a, b, c])"
  "keeps (logs ms) (metric ''step_attempts_total'' [a, b, c])"
  "keeps (logs ms) (metric ''queue_tasks_enqueued_total'' [a, b])"
  "keeps (logs ms) (metric ''queue_tasks_acked_total'' [a, b, c])"
  "keeps (logs ms) (metric ''queue_reaper_reclaimed_total'' [])"
  "keeps (logs ms) (metric ''escalations_resolved_total'' [a, b])"
  "keeps (logs ms) (metric ''audit_events_appended_total'' [a])"
  "keeps (logs ms) (metric ''audit_chain_mismatches_total'' [])"
  "keeps (logs ms) (metric ''api_request_duration_seconds'' [a, b])"
  "keeps (logs ms) (metric ''workflow_run_duration_seconds'' [a, b, c])"
  "keeps (logs ms) (metric ''step_attempt_duration_seconds'' [a, b])"
  "keeps (logs ms) (metric ''outbox_drain_lag_seconds'' [])"
  "keeps (logs ms) (metric ''outbox_drain_batch_seconds'' [])"
  by (rule metric_logs; simp add: recorded_simps)+

section \<open>What the program records\<close>

lemma statements_logs [keeps_intros]:
  "keeps (logs ms) (insert_document dm)"
  "keeps (logs ms) (insert_run rn)" "keeps (logs ms) (insert_run_document rdoc)"
  "keeps (logs ms) (insert_step stp)" "keeps (logs ms) (insert_attempt att)"
  "keeps (logs ms) (insert_outbox obx)" "keeps (logs ms) (insert_escalation esc)"
  "keeps (logs ms) (insert_audit_event ev)" "keeps (logs ms) (update_run i fr)"
  "keeps (logs ms) (update_escalation i fe)" "keeps (logs ms) (touch_key i t)"
  "keeps (logs ms) (update_attempt i f)" "keeps (logs ms) (update_step i g)"
  "keeps (logs ms) (outbox_mark_enqueued k t)" "keeps (logs ms) (outbox_increment_attempts k e)"
  unfolding insert_document_def insert_run_def insert_run_document_def insert_step_def insert_attempt_def insert_outbox_def
    insert_escalation_def insert_audit_event_def update_run_def update_escalation_def touch_key_def Let_def
    update_attempt_def update_step_def outbox_mark_enqueued_def outbox_increment_attempts_def
  by (intro keeps_intros)+

lemma append_audit_event_logs [keeps_intros]: "keeps (logs ms) (append_audit_event i et actor p s sa)"
  unfolding append_audit_event_def audit_get_latest_for_run_def uuid7_def audit_append_def
  by (intro keeps_intros)

lemma requires_role_logs [keeps_intros]: "keeps (logs ms) (requires_role R settings roles cred)"
  unfolding requires_role_def get_current_principal_def authenticate_api_key_def check_rate_limit_def Let_def
  by (auto intro!: keeps_intros split: exn.split)

lemma repositories_logs [keeps_intros]:
  "keeps (logs ms) (run_get_by_id i)" "keeps (logs ms) (escalation_get_by_id i)"
  "keeps (logs ms) (document_get_by_id i)" "keeps (logs ms) (document_get_by_content_hash h)"
  "keeps (logs ms) (step_create_many ms')" "keeps (logs ms) (mk_steps rid now defs)"
  "keeps (logs ms) (run_update_state_optimistic i v st v' kw)" "keeps (logs ms) (document_create dm)"
  "keeps (logs ms) (run_create rn)" "keeps (logs ms) (attempt_create att)" "keeps (logs ms) (outbox_create obx)"
  "keeps (logs ms) (escalation_create esc)" "keeps (logs ms) (attempt_list_by_step i)" "keeps (logs ms) (attempt_get_by_id i)"
  "keeps (logs ms) (step_get_by_id i)" "keeps (logs ms) (step_get_by_run_and_name i nm)"
  "keeps (logs ms) (step_list_by_workflow_run i)" "keeps (logs ms) (compute_backoff_delay p n)"
  unfolding run_get_by_id_def escalation_get_by_id_def document_get_by_id_def document_get_by_content_hash_def step_create_many_def
    mk_steps_def run_update_state_optimistic_def document_create_def run_create_def attempt_create_def outbox_create_def
    escalation_create_def attempt_list_by_step_def attempt_get_by_id_def step_get_by_id_def step_get_by_run_and_name_def
    step_list_by_workflow_run_def compute_backoff_delay_def
  by (intro keeps_intros)+

lemma disk_logs [keeps_intros]: "keeps (logs ms) (payload_write base h data)"
  unfolding payload_write_def mkdir_parent_def write_bytes_def os_replace_def unlink_def set_file_def Let_def
  by (intro keeps_intros logs_frame; simp)

lemma api_logs [keeps_intros]: "keeps (logs ms) (api_body reg settings parse op p)"
  by (cases op)
    (auto simp: dropE_def ingest_document_def get_document_content_def create_workflow_run_def get_workflow_run_def
      get_workflow_run_events_def cancel_workflow_run_def list_escalations_def claim_escalation_def
      resolve_escalation_def reject_escalation_def claimed_case_def Let_def
      intro!: keeps_intros split: sum.split)

lemma exec_api_logs: "keeps (logs ms) (exec_api R reg settings parse cred op)"
  unfolding exec_api_def request_def by (intro keeps_intros)

lemma background_logs [keeps_intros]:
  "keeps (logs ms) (relay_batch R acquired)" "keeps (logs ms) (scheduler_cycle R acquired)"
  "keeps (logs ms) (reap_stuck_tasks R loads to_float timeout)"
  unfolding relay_batch_def relay_entry_def scheduler_cycle_def reap_stuck_tasks_def reap_key_def
    reap_item_def reap_to_dlq_def queue_defs Let_def outbox_get_pending_def
  by (intro keeps_intros mature_loop_keeps)+

lemma write_outcome_logs [keeps_intros]: "keeps (logs ms) (write_outcome text_param worker wn sn r s a oc now)"
  unfolding write_outcome_def Let_def by (intro keeps_intros)

lemma run_handler_logs [keeps_intros]: "keeps (logs ms :: 'r sysworld \<Rightarrow> bool) (run_handler (get_handler decode) name ctx)"
proof (cases "find_handler (get_handler decode :: 'r handler_map) name")
  case (Inr found)
  show ?thesis
  proof (cases found)
    case (Some h)
    with Inr obtain n where "(get_handler decode :: 'r handler_map) n = Some h" using found_handler by blast
    then have h: "keeps (logs ms) (h ctx)" for ctx by (rule metrics_log.handler_keeps)
    show ?thesis unfolding run_handler_def Inr Some by (simp, intro keeps_intros h)
  qed (simp add: run_handler_def Inr, intro keeps_intros)
qed (simp add: run_handler_def keeps_intros)

lemma worker_logs: "keeps (logs ms) (worker_turn R (get_handler decode) loads text_param worker hb)"
  unfolding worker_turn_def discard_task_def process_task_def task_transaction_def run_attempt_def
    execute_step_handler_def load_previous_outputs_def latest_output_def Let_def queue_defs
  by (intro keeps_intros)

lemma orchestrator_logs [keeps_intros]:
  "keeps (logs ms) (handle_succeeded reg run run_steps step now)"
  "keeps (logs ms) (open_escalation code run step res now)"
  unfolding handle_succeeded_def get_document_ids_def open_escalation_def by (intro keeps_intros)+

lemma failures_logs [keeps_intros]:
  "keeps (logs ms) (handle_failed_terminal run step res now)"
  "keeps (logs ms) (handle_failed_retryable reg run step res now)"
  unfolding handle_failed_terminal_def handle_failed_retryable_def get_document_ids_def by (intro keeps_intros)+

lemma exec_orch_logs: "keeps (logs ms) (exec_orch reg op)"
  unfolding exec_orch_def
  by (cases op)
    (auto simp: start_workflow_run_def queue_first_step_def advance_workflow_def handle_escalate_def
      resume_after_escalation_def cancel_workflow_def intro!: keeps_intros)

lemma sys_step_logs: "keeps (logs ms) (sys_step E op)"
proof (cases op)
  case (SysVerify n)
  then show ?thesis by (auto intro!: keeps_dropE verify_frame keeps_intros)
next
  case (SysBatch n st)
  then show ?thesis by (auto intro!: keeps_dropE verify_frame keeps_intros)
qed (auto intro!: keeps_dropE keeps_guarded exec_api_logs background_logs worker_logs exec_orch_logs)

lemma run_system_logs: "logs ms w \<Longrightarrow> logs ms (run_system E ops w)"
  using run_system_keeps [of ops "logs ms"] sys_step_logs by blast

text \<open>The middleware of the application adds its own.\<close>

lemma app_logs:
  assumes "\<And>ctx req. keeps (logs ms) (router ctx req)"
  shows "keeps (logs ms) (create_app settings router req)"
  unfolding create_app_def request_timing_middleware_def request_size_limit_middleware_def correlation_id_middleware_def
    exception_middleware_def
  by (intro keeps_intros assms; split exn.split; auto intro!: keeps_intros)

end
