(* ===== verification/Process.thy ===== *)
theory Process
  imports System
begin

text \<open>
  \<open>workers/main.py\<close>: the tasks that a worker process starts, by its command line and its settings,
  and the steps of the system that each of them takes. A deployment is a set of processes: the API
  and any number of workers.
\<close>

section \<open>The worker process\<close>

record worker_args =
  wa_worker_id :: "string option"
  wa_no_reaper :: bool
  wa_no_scheduler :: bool
  wa_no_outbox :: bool
  wa_no_audit_verifier :: bool

datatype worker_task =
    WorkerLoop string int
  | ReaperLoop int
  | SchedulerLoop
  | OutboxRelayLoop
  | AuditVerifierLoop int int

text \<open>\<open>args.worker_id or str(uuid.uuid4())\<close>, with the identifier that would be drawn.\<close>

definition process_worker_id :: "uuid \<Rightarrow> worker_args \<Rightarrow> string" where
  "process_worker_id u args =
     (case wa_worker_id args of Some (c # cs) \<Rightarrow> c # cs | _ \<Rightarrow> uuid_str u)"

definition run_worker :: "Settings \<Rightarrow> uuid \<Rightarrow> worker_args \<Rightarrow> worker_task list" where
  "run_worker settings u args =
     [WorkerLoop (process_worker_id u args) (WORKER_VISIBILITY_TIMEOUT_S settings)]
     @ (if wa_no_reaper args then [] else [ReaperLoop (WORKER_VISIBILITY_TIMEOUT_S settings)])
     @ (if wa_no_scheduler args then [] else [SchedulerLoop])
     @ (if wa_no_outbox args then [] else [OutboxRelayLoop])
     @ (if wa_no_audit_verifier args then []
        else [AuditVerifierLoop (AUDIT_VERIFY_INTERVAL_S settings) (AUDIT_VERIFY_SAMPLE_SIZE settings)])"

section \<open>Deployments\<close>

text \<open>The steps a task takes: a turn of its loop.\<close>

fun task_performs :: "worker_task \<Rightarrow> sys_op \<Rightarrow> bool" where
  "task_performs (WorkerLoop worker timeout) op = (case op of SysWorker worker' hb \<Rightarrow> worker' = worker | _ \<Rightarrow> False)"
| "task_performs (ReaperLoop timeout) op = (case op of SysReaper timeout' \<Rightarrow> timeout' = timeout | _ \<Rightarrow> False)"
| "task_performs SchedulerLoop op = (case op of SysScheduler acquired \<Rightarrow> True | _ \<Rightarrow> False)"
| "task_performs OutboxRelayLoop op = (case op of SysRelay acquired \<Rightarrow> True | _ \<Rightarrow> False)"
| "task_performs (AuditVerifierLoop interval sample) op =
     (case op of SysVerify n \<Rightarrow> int n = sample | _ \<Rightarrow> False)"

datatype process = ApiProcess | WorkerProcess uuid worker_args

fun performs :: "Settings \<Rightarrow> process \<Rightarrow> sys_op \<Rightarrow> bool" where
  "performs settings ApiProcess op = (case op of SysApi credentials r \<Rightarrow> True | _ \<Rightarrow> False)"
| "performs settings (WorkerProcess u args) op = list_ex (\<lambda>t. task_performs t op) (run_worker settings u args)"

definition deployment :: "Settings \<Rightarrow> process list \<Rightarrow> sys_op list \<Rightarrow> bool" where
  "deployment settings ps ops \<longleftrightarrow> list_all (\<lambda>op. list_ex (\<lambda>p. performs settings p op) ps) ops"

lemma task_deployed: "task_performs t op \<Longrightarrow> deployed op"
  by (cases t) (auto simp: deployed_def split: sys_op.splits)

lemma performs_deployed: "performs settings p op \<Longrightarrow> deployed op"
  by (cases p) (auto simp: list_ex_iff intro: task_deployed, auto simp: deployed_def split: sys_op.splits)

lemma deployment_deployed: "deployment settings ps ops \<Longrightarrow> op \<in> set ops \<Longrightarrow> deployed op"
  by (auto simp: deployment_def list_all_iff list_ex_iff dest: performs_deployed)

text \<open>Which processes relay, and with what timeout entries are reclaimed.\<close>

lemma relay_performed: "performs settings p (SysRelay acquired) \<longleftrightarrow> (\<exists>u args. p = WorkerProcess u args \<and> \<not> wa_no_outbox args)"
  by (cases p) (auto simp: run_worker_def)

lemma reaper_timeout: "deployment settings ps ops \<Longrightarrow> SysReaper timeout \<in> set ops \<Longrightarrow> timeout = WORKER_VISIBILITY_TIMEOUT_S settings"
  by (auto simp: deployment_def list_all_iff list_ex_iff run_worker_def elim!: performs.elims dest!: bspec split: if_splits)

end
