(* ===== verification/Escalations.thy ===== *)
theory Escalations
  imports Process
begin

text \<open>
  The lifecycle of escalation cases in the deployed program: \<open>esc_valid_transitions\<close> of the domain is what
  the handlers of \<open>api/routes/escalations.py\<close> follow, and a case is decided by the actor that claimed it.
\<close>

section \<open>How a case may move\<close>

definition decided_states :: "EscalationState list" where
  "decided_states = [resolved, rejected]"

text \<open>The two changes of a row: an open case is claimed, a claimed one is decided by its claimant.\<close>

inductive esc_step :: "EscalationCaseModel \<Rightarrow> EscalationCaseModel \<Rightarrow> bool" where
  claim: "esc_state c = esc_open \<Longrightarrow>
    esc_step c (c\<lparr>esc_state := claimed, esc_claimed_by := Some actor, esc_claimed_at := Some now\<rparr>)"
| decide: "esc_state c = claimed \<Longrightarrow> esc_claimed_by c = Some actor \<Longrightarrow> st \<in> set decided_states \<Longrightarrow>
    esc_step c (decide_case st actor now payload c)"

inductive_cases esc_stepE: "esc_step c c'"

text \<open>The states that the transitions of the domain reach, and what any number of changes keeps of a row.\<close>

definition esc_reach :: "EscalationState \<Rightarrow> EscalationState \<Rightarrow> bool" where
  "esc_reach s t \<longleftrightarrow> t = s \<or> t \<in> set (esc_valid_transitions s) \<or>
     (\<exists>u \<in> set (esc_valid_transitions s). t \<in> set (esc_valid_transitions u))"

lemma esc_reach_step: "esc_reach s t \<Longrightarrow> u \<in> set (esc_valid_transitions t) \<Longrightarrow> esc_reach s u"
  by (cases s; cases t; cases u) (auto simp: esc_reach_def)

lemma esc_reach_iff: "esc_reach s t \<longleftrightarrow> (\<lambda>s t. t \<in> set (esc_valid_transitions s))\<^sup>*\<^sup>* s t"
proof
  show "(\<lambda>s t. t \<in> set (esc_valid_transitions s))\<^sup>*\<^sup>* s t" if "esc_reach s t"
    using that unfolding esc_reach_def
    by (elim disjE bexE) (auto intro: r_into_rtranclp rtranclp.rtrancl_into_rtrancl)
  show "esc_reach s t" if "(\<lambda>s t. t \<in> set (esc_valid_transitions s))\<^sup>*\<^sup>* s t"
    using that by (induction rule: rtranclp_induct) (auto intro: esc_reach_step simp: esc_reach_def [of s s])
qed

definition esc_moves :: "EscalationCaseModel \<Rightarrow> EscalationCaseModel \<Rightarrow> bool" where
  "esc_moves c c' \<longleftrightarrow> esc_escalation_id c' = esc_escalation_id c \<and> escalation_key c' = escalation_key c \<and>
     esc_reason_code c' = esc_reason_code c \<and> esc_created_at c' = esc_created_at c \<and>
     esc_reach (esc_state c) (esc_state c') \<and>
     (esc_state c \<noteq> esc_open \<longrightarrow> esc_claimed_by c' = esc_claimed_by c) \<and>
     (esc_state c \<in> set decided_states \<longrightarrow> c' = c) \<and>
     (esc_state c \<notin> set decided_states \<and> esc_state c' \<in> set decided_states \<longrightarrow> esc_resolved_by c' = esc_claimed_by c')"

lemma esc_moves_step: "esc_moves c c1 \<Longrightarrow> esc_step c1 c2 \<Longrightarrow> esc_moves c c2"
  by (erule esc_stepE; cases "esc_state c")
    (auto simp: esc_moves_def esc_reach_def decided_states_def decide_case_def escalation_key_def)

lemma esc_steps_moves: "esc_step\<^sup>*\<^sup>* c c' \<Longrightarrow> esc_moves c c'"
proof (induction rule: rtranclp_induct)
  case base
  show ?case by (simp add: esc_moves_def esc_reach_def)
qed (rule esc_moves_step)

section \<open>All cases\<close>

definition cases_progress :: "db \<Rightarrow> db \<Rightarrow> bool" where
  "cases_progress d0 d \<longleftrightarrow> (\<forall>c \<in> set (escalation_cases d0). \<exists>c' \<in> set (escalation_cases d). esc_step\<^sup>*\<^sup>* c c')"

lemma cases_progress_refl: "cases_progress d d"
  by (auto simp: cases_progress_def)

lemma cases_progress_same: "cases_progress d0 d \<Longrightarrow> escalation_cases d' = escalation_cases d \<Longrightarrow> cases_progress d0 d'"
  by (simp add: cases_progress_def)

lemma cases_progress_update:
  assumes "cases_progress d0 d" "escalation_cases d' = map_where q h (escalation_cases d)"
    and "\<And>c. c \<in> set (escalation_cases d) \<Longrightarrow> q c \<Longrightarrow> esc_step c (h c)"
  shows "cases_progress d0 d'"
  unfolding cases_progress_def
proof
  fix c assume "c \<in> set (escalation_cases d0)"
  with assms(1) obtain c1 where c1: "c1 \<in> set (escalation_cases d)" "esc_step\<^sup>*\<^sup>* c c1"
    by (auto simp: cases_progress_def)
  let ?c' = "if q c1 then h c1 else c1"
  have "?c' \<in> set (escalation_cases d')" using c1(1) assms(2) by (auto simp: set_map_where)
  moreover have "esc_step\<^sup>*\<^sup>* c ?c'" using c1 assms(3) by (auto intro: rtranclp.rtrancl_into_rtrancl)
  ultimately show "\<exists>c' \<in> set (escalation_cases d'). esc_step\<^sup>*\<^sup>* c c'" by blast
qed

lemma claimed_progress: "cases_progress d0 d \<Longrightarrow> cases_progress d0 (claimed_db i actor now m d)"
  by (rule cases_progress_update [where q = "\<lambda>c. esc_escalation_id c = i \<and> esc_state c = esc_open" and
        h = "\<lambda>c. c\<lparr>esc_state := claimed, esc_claimed_by := Some actor, esc_claimed_at := Some now\<rparr>"])
    (auto simp: claimed_db_def intro: claim)

lemma decided_step:
  assumes "may_decide i actor c d" "c' \<in> set (escalation_cases d)" "esc_escalation_id c' = i" "st \<in> set decided_states"
  shows "esc_step c' (decide_case st actor now p c')"
proof -
  have "c' \<in> set (filter (\<lambda>c. esc_escalation_id c = i) (escalation_cases d))" using assms(2,3) by simp
  with assms(1) have "c' = c" by (simp add: may_decide_def)
  with assms show ?thesis by (auto simp: may_decide_def intro: decide)
qed

lemma decided_progress:
  assumes "cases_progress d0 d" "may_decide i actor c d" "st \<in> set decided_states"
    and "escalation_cases d' = escalation_cases (upd_escalation i (decide_case st actor now p) d)"
  shows "cases_progress d0 d'"
proof (rule cases_progress_update [OF assms(1)])
  show "escalation_cases d' = map_where (\<lambda>c. esc_escalation_id c = i) (decide_case st actor now p) (escalation_cases d)"
    using assms(4) by simp
  show "esc_step c' (decide_case st actor now p c')"
    if "c' \<in> set (escalation_cases d)" "esc_escalation_id c' = i" for c'
    using decided_step [OF assms(2) that assms(3)] .
qed

lemma rejected_progress:
  "cases_progress d0 d \<Longrightarrow> may_decide i actor c d \<Longrightarrow> cases_progress d0 (rejected_db i body actor c now m d)"
  by (rule decided_progress [where st = rejected]; assumption?) (simp_all add: rejected_db_def move_run_def decided_states_def)

lemma resolved_progress:
  "cases_progress d0 d \<Longrightarrow> may_decide i actor c d \<Longrightarrow> cases_progress d0 (resolved_db i body actor c aid now m d)"
  by (rule decided_progress [where st = resolved]; assumption?) (simp_all add: resolved_db_def move_run_def decided_states_def)

interpretation case_lifecycle: deployed_contract "cases_progress d0" for d0
proof unfold_locales
  show "cases_progress d0 (claimed_db i actor now m d)" if "cases_progress d0 d" for d i actor now m
    using that by (rule claimed_progress)
  show "cases_progress d0 (rejected_db i rj actor c now m d)"
    if "cases_progress d0 d" "may_decide i actor c d" for d i rj actor c now m
    using that by (rule rejected_progress)
  show "cases_progress d0 (resolved_db i rq actor c aid now m d)"
    if "cases_progress d0 d" "may_decide i actor c d" for d i rq actor c aid now m
    using that by (rule resolved_progress)
qed (auto elim!: cases_progress_same simp: cancelled_db_def new_run_db_def)

end
