(* ===== verification/Trail.thy ===== *)
theory Trail
  imports Process
begin

text \<open>
  The audit trail is complete: what the deployed program does to a run it records. The version of a run
  counts its changes, so it may not get ahead of the number of the run's audit events.
\<close>

definition run_event_count :: "uuid \<Rightarrow> db \<Rightarrow> int" where
  "run_event_count i d = int (length (events_of_run i d))"

definition trailed :: "db \<Rightarrow> bool" where
  "trailed d \<longleftrightarrow> (\<forall>r \<in> set (workflow_runs d). run_version r \<le> run_event_count (run_workflow_run_id r) d)"

lemma count_nonneg: "0 \<le> run_event_count i d"
  by (simp add: run_event_count_def)

lemma count_event: "audit_events d' = audit_events d @ [m] \<Longrightarrow>
    run_event_count i d' = run_event_count i d + (if evt_workflow_run_id m = i then 1 else 0)"
  by (simp add: run_event_count_def events_of_run_def)

text \<open>A change that raises the versions of the run of its event by at most one keeps it.\<close>

lemma trailed_event:
  assumes "trailed d" "audit_events d' = audit_events d @ [m]"
    and "workflow_runs d' = map_where (\<lambda>r. run_workflow_run_id r = evt_workflow_run_id m) g (workflow_runs d)"
    and "\<And>r. run_workflow_run_id (g r) = run_workflow_run_id r" "\<And>r. run_version (g r) \<le> run_version r + 1"
  shows "trailed d'"
  unfolding trailed_def
proof
  fix r' assume "r' \<in> set (workflow_runs d')"
  with assms(3) consider (moved) r where "r \<in> set (workflow_runs d)" "run_workflow_run_id r = evt_workflow_run_id m" "r' = g r"
    | (kept) "r' \<in> set (workflow_runs d)" by (auto simp: set_map_where)
  then show "run_version r' \<le> run_event_count (run_workflow_run_id r') d'"
  proof cases
    case moved
    then have "run_version r \<le> run_event_count (run_workflow_run_id r) d" using assms(1) unfolding trailed_def by blast
    with moved assms(4) assms(5) [of r] show ?thesis by (simp add: count_event [OF assms(2)])
  next
    case kept
    with assms(1) have "run_version r' \<le> run_event_count (run_workflow_run_id r') d" by (simp add: trailed_def)
    then show ?thesis by (simp add: count_event [OF assms(2)])
  qed
qed

lemma trailed_more:
  assumes "trailed d" "workflow_runs d' = workflow_runs d" "audit_events d' = audit_events d @ [m]"
  shows "trailed d'"
  by (rule trailed_event [where g = id, OF assms(1,3)]) (simp_all add: assms(2) map_where_def map_idI)

lemma trailed_frame: "trailed d \<Longrightarrow> workflow_runs d' = workflow_runs d \<Longrightarrow> audit_events d' = audit_events d \<Longrightarrow> trailed d'"
  by (simp add: trailed_def run_event_count_def events_of_run_def)

lemma trailed_new:
  assumes "trailed d" "workflow_runs d' = workflow_runs d @ [rn]" "audit_events d' = audit_events d @ [m]"
    and "run_version rn = 1" "evt_workflow_run_id m = run_workflow_run_id rn"
  shows "trailed d'"
  using assms count_nonneg [of "run_workflow_run_id rn" d] by (fastforce simp: trailed_def count_event [OF assms(3)])

interpretation trail: deployed_contract trailed
proof unfold_locales
  show "trailed (cancelled_db i v now m d)" if "trailed d" "evt_workflow_run_id m = i" for d i v now m
    by (rule trailed_event [where m = m and g = "\<lambda>r. if run_version r = v then r\<lparr>run_state := cancelled, run_version := v + 1,
          run_updated_at := now\<rparr> else r", OF that(1)]) (simp_all add: cancelled_db_def that(2))
  show "trailed (rejected_db i rj actor c now m d)"
    if "trailed d" "may_decide i actor c d" "evt_workflow_run_id m = esc_workflow_run_id c" for d i rj actor c now m
    by (rule trailed_event [where m = m and g = "\<lambda>r. if run_state r \<in> {running, awaiting_human}
          then close_run failed now (Some ''ESCALATION_REJECTED'') (Some (rj_notes rj)) r else r", OF that(1)])
      (simp_all add: rejected_db_def move_run_def close_run_def that(3))
  show "trailed (resolved_db i rq actor c aid now m d)"
    if "trailed d" "may_decide i actor c d" "evt_workflow_run_id m = esc_workflow_run_id c"
      "esc_step_id c \<in> stp_step_id ` set (steps d)" for d i rq actor c aid now m
    by (rule trailed_event [where m = m and g = "\<lambda>r. if run_state r = awaiting_human
          then r\<lparr>run_state := running, run_version := run_version r + 1, run_updated_at := now\<rparr> else r", OF that(1)])
      (simp_all add: resolved_db_def move_run_def that(3))
  show "trailed (new_run_db rn now docs ms a t m d)"
    if "trailed d" "new_run_ok rn ms a t d" "run_state rn = running" "run_version rn = 1"
      "evt_workflow_run_id m = run_workflow_run_id rn" for d rn now docs ms a t m
    by (rule trailed_new [OF that(1) _ _ that(4,5)]) (simp_all add: new_run_db_def)
  show "trailed (claimed_db i actor now m d)" if "trailed d" for d i actor now m
    by (rule trailed_more [OF that]) (simp_all add: claimed_db_def)
  show "trailed (add_event m d)" if "trailed d" for d m
    by (rule trailed_more [OF that]) simp_all
qed (auto elim!: trailed_frame)

end
