(* ===== verification/Schema.thy ===== *)
theory Schema
  imports "HOL-Library.Sublist"
begin

text \<open>
  \<open>migrations/versions/0001_initial.py\<close> as the statements it issues, run on a catalog the way
  PostgreSQL runs them, and the same tables as \<open>storage/models.py\<close> declares them. A statement that
  names a missing object, an existing one, or one that others depend on is refused. The catalog is a
  simplification of PostgreSQL's: the names of the indexes behind primary keys and unique constraints
  are not in it.
\<close>

section \<open>Tables\<close>

datatype sql_type =
    TUuid | TText | TBigInteger | TInteger | TSmallInteger | TDateTime | TJsonb | TBoolean | TLargeBinary "nat option"

text \<open>\<open>server_default\<close>: an SQL expression (\<open>sa.text(...)\<close>), or a plain string, which is quoted.\<close>

datatype sql_default = Expression string | Literal string

record column_def =
  col_name :: string
  col_type :: sql_type
  col_nullable :: bool
  col_primary :: bool
  col_unique :: bool
  col_autoincrement :: bool
  col_default :: "sql_default option"
  col_references :: "(string \<times> string \<times> string option) option"

record table_def =
  tbl_name :: string
  tbl_columns :: "column_def list"
  tbl_checks :: "(string \<times> string) list"
  tbl_uniques :: "(string \<times> string list) list"

record index_def =
  idx_name :: string
  idx_table :: string
  idx_columns :: "string list"
  idx_where :: "string option"

record fk_def =
  fk_name :: string
  fk_table :: string
  fk_column :: string
  fk_target :: string
  fk_target_column :: string
  fk_ondelete :: "string option"

text \<open>\<open>Column\<close> with its keyword arguments.\<close>

definition column :: "string \<Rightarrow> sql_type \<Rightarrow> bool \<Rightarrow> column_def" where
  "column name ty nullable =
     \<lparr>col_name = name, col_type = ty, col_nullable = nullable, col_primary = False, col_unique = False,
      col_autoincrement = False, col_default = None, col_references = None\<rparr>"

definition primary :: "column_def \<Rightarrow> column_def" where "primary c = c\<lparr>col_primary := True\<rparr>"
definition unique :: "column_def \<Rightarrow> column_def" where "unique c = c\<lparr>col_unique := True\<rparr>"
definition autoincrement :: "column_def \<Rightarrow> column_def" where "autoincrement c = c\<lparr>col_autoincrement := True\<rparr>"
definition with_default :: "sql_default \<Rightarrow> column_def \<Rightarrow> column_def" where
  "with_default v c = c\<lparr>col_default := Some v\<rparr>"
definition references :: "string \<times> string \<times> string option \<Rightarrow> column_def \<Rightarrow> column_def" where
  "references r c = c\<lparr>col_references := Some r\<rparr>"

text \<open>SQL with its quotes, written with a back quote and an at sign for them.\<close>

definition quotes :: "string \<Rightarrow> string" where
  "quotes = map (\<lambda>c. if c = CHR 0x60 then CHR 0x27 else if c = CHR 0x40 then CHR 0x22 else c)"

section \<open>Statements\<close>

datatype ddl =
    CreateTable table_def
  | CreateIndex index_def
  | CreateForeignKey fk_def
  | DropTable string
  | DropConstraint string string

record catalog =
  cat_tables :: "table_def list"
  cat_fks :: "fk_def list"
  cat_indexes :: "index_def list"

definition empty_catalog :: catalog where
  "empty_catalog = \<lparr>cat_tables = [], cat_fks = [], cat_indexes = []\<rparr>"

datatype ddl_error =
    DuplicateRelation string
  | UndefinedRelation string
  | UndefinedColumn string
  | DuplicateObject string
  | UndefinedObject string
  | DependentObjects string

definition table_names :: "catalog \<Rightarrow> string list" where
  "table_names C = map tbl_name (cat_tables C)"

text \<open>Tables and indexes share one space of names.\<close>

definition relations :: "catalog \<Rightarrow> string list" where
  "relations C = table_names C @ map idx_name (cat_indexes C)"

definition has_column :: "table_def list \<Rightarrow> string \<Rightarrow> string \<Rightarrow> bool" where
  "has_column ts table col = list_ex (\<lambda>t. tbl_name t = table \<and> col \<in> set (map col_name (tbl_columns t))) ts"

text \<open>The foreign keys of its columns, with the names PostgreSQL gives them.\<close>

definition column_fks :: "table_def \<Rightarrow> fk_def list" where
  "column_fks t = concat (map (\<lambda>c. case col_references c of
       None \<Rightarrow> []
     | Some (target, target_column, ondelete) \<Rightarrow>
         [\<lparr>fk_name = tbl_name t @ ''_'' @ col_name c @ ''_fkey'', fk_table = tbl_name t, fk_column = col_name c,
           fk_target = target, fk_target_column = target_column, fk_ondelete = ondelete\<rparr>]) (tbl_columns t))"

definition resolves :: "table_def list \<Rightarrow> fk_def \<Rightarrow> bool" where
  "resolves ts f \<longleftrightarrow> has_column ts (fk_table f) (fk_column f) \<and> has_column ts (fk_target f) (fk_target_column f)"

fun exec_ddl :: "ddl \<Rightarrow> catalog \<Rightarrow> ddl_error + catalog" where
  "exec_ddl (CreateTable t) C =
     (if tbl_name t \<in> set (relations C) then Inl (DuplicateRelation (tbl_name t))
      else case find (\<lambda>f. \<not> resolves (cat_tables C @ [t]) f) (column_fks t) of
        Some f \<Rightarrow> Inl (UndefinedColumn (fk_target_column f))
      | None \<Rightarrow> Inr (C\<lparr>cat_tables := cat_tables C @ [t], cat_fks := cat_fks C @ column_fks t\<rparr>))"
| "exec_ddl (CreateIndex i) C =
     (if idx_name i \<in> set (relations C) then Inl (DuplicateRelation (idx_name i))
      else if idx_table i \<notin> set (table_names C) then Inl (UndefinedRelation (idx_table i))
      else case find (\<lambda>c. \<not> has_column (cat_tables C) (idx_table i) c) (idx_columns i) of
        Some c \<Rightarrow> Inl (UndefinedColumn c)
      | None \<Rightarrow> Inr (C\<lparr>cat_indexes := cat_indexes C @ [i]\<rparr>))"
| "exec_ddl (CreateForeignKey f) C =
     (if (fk_table f, fk_name f) \<in> set (map (\<lambda>g. (fk_table g, fk_name g)) (cat_fks C))
      then Inl (DuplicateObject (fk_name f))
      else if \<not> resolves (cat_tables C) f then Inl (UndefinedColumn (fk_target_column f))
      else Inr (C\<lparr>cat_fks := cat_fks C @ [f]\<rparr>))"
| "exec_ddl (DropTable n) C =
     (if n \<notin> set (table_names C) then Inl (UndefinedRelation n)
      else if list_ex (\<lambda>f. fk_target f = n \<and> fk_table f \<noteq> n) (cat_fks C) then Inl (DependentObjects n)
      else Inr \<lparr>cat_tables = filter (\<lambda>t. tbl_name t \<noteq> n) (cat_tables C),
                cat_fks = filter (\<lambda>f. fk_table f \<noteq> n) (cat_fks C),
                cat_indexes = filter (\<lambda>i. idx_table i \<noteq> n) (cat_indexes C)\<rparr>)"
| "exec_ddl (DropConstraint c n) C =
     (if n \<notin> set (table_names C) then Inl (UndefinedRelation n)
      else if (n, c) \<notin> set (map (\<lambda>g. (fk_table g, fk_name g)) (cat_fks C)) then Inl (UndefinedObject c)
      else Inr (C\<lparr>cat_fks := filter (\<lambda>g. (fk_table g, fk_name g) \<noteq> (n, c)) (cat_fks C)\<rparr>))"

fun run_ddl :: "ddl list \<Rightarrow> catalog \<Rightarrow> ddl_error + catalog" where
  "run_ddl [] C = Inr C"
| "run_ddl (op # ops) C = (case exec_ddl op C of Inl e \<Rightarrow> Inl e | Inr C' \<Rightarrow> run_ddl ops C')"

section \<open>The migration\<close>

definition create_api_keys :: "ddl list" where
  "create_api_keys = [
  CreateTable
   \<lparr>tbl_name = ''api_keys'',
    tbl_columns = [
       primary (column ''api_key_id'' TUuid False),
       unique (column ''key_hash'' (TLargeBinary (Some 32)) False),
       column ''label'' TText False,
       column ''role'' TText False,
       with_default (Expression ''now()'') (column ''created_at'' TDateTime False),
       column ''created_by'' TText False,
       column ''expires_at'' TDateTime True,
       column ''revoked_at'' TDateTime True,
       column ''last_used_at'' TDateTime True],
    tbl_checks = [(''ck_api_keys_hash_len'', ''octet_length(key_hash) = 32''),
       (''ck_api_keys_role'', (quotes ''role IN (`operator`,`supervisor`,`viewer`)''))],
    tbl_uniques = []\<rparr>,
  CreateIndex \<lparr>idx_name = ''idx_api_keys_role_active'', idx_table = ''api_keys'', idx_columns = [''role''], idx_where = Some ''revoked_at IS NULL''\<rparr>]"

definition create_users :: "ddl list" where
  "create_users = [
  CreateTable
   \<lparr>tbl_name = ''users'',
    tbl_columns = [
       primary (column ''user_id'' TUuid False),
       unique (column ''username'' TText False),
       column ''display_name'' TText False,
       column ''role'' TText False,
       column ''password_hash'' (TLargeBinary None) True,
       with_default (Expression ''now()'') (column ''created_at'' TDateTime False),
       column ''disabled_at'' TDateTime True,
       column ''last_login_at'' TDateTime True],
    tbl_checks = [(''ck_users_role'', (quotes ''role IN (`operator`,`supervisor`,`viewer`)''))],
    tbl_uniques = []\<rparr>,
  CreateIndex \<lparr>idx_name = ''idx_users_role_active'', idx_table = ''users'', idx_columns = [''role''], idx_where = Some ''disabled_at IS NULL''\<rparr>]"

definition create_documents :: "ddl list" where
  "create_documents = [
  CreateTable
   \<lparr>tbl_name = ''documents'',
    tbl_columns = [
       primary (column ''document_id'' TUuid False),
       column ''content_hash'' (TLargeBinary (Some 32)) False,
       column ''content_type'' TText False,
       column ''size_bytes'' TBigInteger False,
       column ''payload_ref'' TText False,
       with_default (Expression ''now()'') (column ''ingested_at'' TDateTime False),
       column ''ingested_by'' TText False,
       column ''idempotency_key'' TText True,
       references (''api_keys'', ''api_key_id'', None) (column ''api_key_id'' TUuid True),
       with_default (Expression (quotes ''`{}`'')) (column ''metadata'' TJsonb False)],
    tbl_checks = [(''ck_documents_content_hash_len'', ''octet_length(content_hash) = 32''),
       (''ck_documents_content_type_format'', (quotes ''content_type ~ `^[a-z0-9.+-]+/[a-z0-9.+-]+$`'')),
       (''ck_documents_size_bytes_nonneg'', ''size_bytes >= 0'')],
    tbl_uniques = []\<rparr>,
  CreateIndex \<lparr>idx_name = ''idx_documents_content_hash'', idx_table = ''documents'', idx_columns = [''content_hash''], idx_where = None\<rparr>,
  CreateIndex \<lparr>idx_name = ''idx_documents_ingested_at'', idx_table = ''documents'', idx_columns = [''ingested_at''], idx_where = None\<rparr>]"

definition create_workflow_runs :: "ddl list" where
  "create_workflow_runs = [
  CreateTable
   \<lparr>tbl_name = ''workflow_runs'',
    tbl_columns = [
       primary (column ''workflow_run_id'' TUuid False),
       column ''workflow_name'' TText False,
       column ''workflow_version'' TText False,
       column ''state'' TText False,
       with_default (Expression ''0'') (column ''version'' TBigInteger False),
       column ''current_step_id'' TUuid True,
       with_default (Expression ''now()'') (column ''created_at'' TDateTime False),
       with_default (Expression ''now()'') (column ''updated_at'' TDateTime False),
       column ''deadline_at'' TDateTime False,
       column ''reference_data_snapshot_id'' TUuid True,
       column ''created_by'' TText False,
       column ''last_error_code'' TText True,
       column ''last_error_detail'' TText True],
    tbl_checks = [(''ck_workflow_runs_state'', (quotes ''state IN (`pending`,`running`,`awaiting_human`,`completed`,`failed`,`cancelled`)''))],
    tbl_uniques = []\<rparr>,
  CreateIndex \<lparr>idx_name = ''idx_workflow_runs_state_updated'', idx_table = ''workflow_runs'', idx_columns = [''state'', ''updated_at''], idx_where = None\<rparr>,
  CreateIndex \<lparr>idx_name = ''idx_workflow_runs_deadline'', idx_table = ''workflow_runs'', idx_columns = [''deadline_at''], idx_where = Some (quotes ''state IN (`pending`,`running`,`awaiting_human`)'')\<rparr>,
  CreateIndex \<lparr>idx_name = ''idx_workflow_runs_created_by'', idx_table = ''workflow_runs'', idx_columns = [''created_by'', ''created_at''], idx_where = None\<rparr>]"

definition create_workflow_run_documents :: "ddl list" where
  "create_workflow_run_documents = [
  CreateTable
   \<lparr>tbl_name = ''workflow_run_documents'',
    tbl_columns = [
       references (''workflow_runs'', ''workflow_run_id'', None) (primary (column ''workflow_run_id'' TUuid False)),
       references (''documents'', ''document_id'', None) (primary (column ''document_id'' TUuid False)),
       with_default (Expression ''now()'') (column ''attached_at'' TDateTime False)],
    tbl_checks = [],
    tbl_uniques = []\<rparr>]"

definition create_steps :: "ddl list" where
  "create_steps = [
  CreateTable
   \<lparr>tbl_name = ''steps'',
    tbl_columns = [
       primary (column ''step_id'' TUuid False),
       references (''workflow_runs'', ''workflow_run_id'', Some ''RESTRICT'') (column ''workflow_run_id'' TUuid False),
       column ''step_name'' TText False,
       column ''step_index'' TInteger False,
       column ''state'' TText False,
       column ''max_attempts'' TSmallInteger False,
       with_default (Expression ''false'') (column ''escalate_on_failure'' TBoolean False),
       with_default (Expression (quotes ''`{@base_delay_s@:2,@cap_s@:60,@jitter@:@full@}`'')) (column ''retry_policy'' TJsonb False),
       with_default (Expression ''now()'') (column ''created_at'' TDateTime False),
       column ''started_at'' TDateTime True,
       column ''ended_at'' TDateTime True],
    tbl_checks = [(''ck_steps_step_index_nonneg'', ''step_index >= 0''),
       (''ck_steps_state'', (quotes ''state IN (`queued`,`in_progress`,`succeeded`,`failed_retryable`,`failed_terminal`,`skipped`)'')),
       (''ck_steps_max_attempts_range'', ''max_attempts >= 1 AND max_attempts <= 10'')],
    tbl_uniques = [(''uq_steps_run_index'', [''workflow_run_id'', ''step_index'']),
       (''uq_steps_run_name'', [''workflow_run_id'', ''step_name''])]\<rparr>,
  CreateIndex \<lparr>idx_name = ''idx_steps_run'', idx_table = ''steps'', idx_columns = [''workflow_run_id'', ''step_index''], idx_where = None\<rparr>]"

definition create_current_step_fkey :: "ddl list" where
  "create_current_step_fkey = [
  CreateForeignKey \<lparr>fk_name = ''fk_workflow_runs_current_step_id'', fk_table = ''workflow_runs'', fk_column = ''current_step_id'', fk_target = ''steps'', fk_target_column = ''step_id'', fk_ondelete = None\<rparr>]"

definition create_step_attempts :: "ddl list" where
  "create_step_attempts = [
  CreateTable
   \<lparr>tbl_name = ''step_attempts'',
    tbl_columns = [
       primary (column ''step_attempt_id'' TUuid False),
       references (''steps'', ''step_id'', Some ''RESTRICT'') (column ''step_id'' TUuid False),
       column ''step_attempt_number'' TSmallInteger False,
       column ''state'' TText False,
       with_default (Expression (quotes ''`system`'')) (column ''origin'' TText False),
       column ''extractor_name'' TText True,
       column ''extractor_version'' TText True,
       column ''validator_name'' TText True,
       column ''validator_version'' TText True,
       column ''input_ref'' TText True,
       column ''output_ref'' TText True,
       column ''error_code'' TText True,
       column ''error_detail'' TText True,
       column ''started_at'' TDateTime True,
       column ''ended_at'' TDateTime True,
       column ''scheduled_for'' TDateTime True,
       with_default (Expression ''now()'') (column ''created_at'' TDateTime False)],
    tbl_checks = [(''ck_step_attempts_number_positive'', ''step_attempt_number >= 1''),
       (''ck_step_attempts_state'', (quotes ''state IN (`queued`,`in_progress`,`succeeded`,`failed_retryable`,`failed_terminal`,`skipped`)'')),
       (''ck_step_attempts_origin'', (quotes ''origin IN (`system`,`human`,`reaper`,`replay`)''))],
    tbl_uniques = [(''uq_step_attempts_step_number'', [''step_id'', ''step_attempt_number''])]\<rparr>,
  CreateIndex \<lparr>idx_name = ''idx_step_attempts_run_step'', idx_table = ''step_attempts'', idx_columns = [''step_id'', ''step_attempt_number''], idx_where = None\<rparr>,
  CreateIndex \<lparr>idx_name = ''idx_step_attempts_state_scheduled'', idx_table = ''step_attempts'', idx_columns = [''state'', ''scheduled_for''], idx_where = Some (quotes ''state = `queued`'')\<rparr>]"

definition create_tasks_outbox :: "ddl list" where
  "create_tasks_outbox = [
  CreateTable
   \<lparr>tbl_name = ''tasks_outbox'',
    tbl_columns = [
       autoincrement (primary (column ''outbox_id'' TBigInteger False)),
       references (''workflow_runs'', ''workflow_run_id'', None) (column ''workflow_run_id'' TUuid False),
       references (''steps'', ''step_id'', None) (column ''step_id'' TUuid False),
       references (''step_attempts'', ''step_attempt_id'', None) (column ''step_attempt_id'' TUuid False),
       column ''payload'' TJsonb False,
       with_default (Expression ''now()'') (column ''scheduled_for'' TDateTime False),
       column ''enqueued_at'' TDateTime True,
       with_default (Expression ''0'') (column ''attempts'' TSmallInteger False),
       column ''last_error'' TText True,
       with_default (Expression ''now()'') (column ''created_at'' TDateTime False)],
    tbl_checks = [(''ck_tasks_outbox_attempts_range'', ''attempts >= 0 AND attempts <= 10'')],
    tbl_uniques = []\<rparr>,
  CreateIndex \<lparr>idx_name = ''idx_tasks_outbox_undelivered'', idx_table = ''tasks_outbox'', idx_columns = [''enqueued_at'', ''scheduled_for''], idx_where = None\<rparr>]"

definition create_escalation_cases :: "ddl list" where
  "create_escalation_cases = [
  CreateTable
   \<lparr>tbl_name = ''escalation_cases'',
    tbl_columns = [
       primary (column ''escalation_id'' TUuid False),
       references (''workflow_runs'', ''workflow_run_id'', None) (column ''workflow_run_id'' TUuid False),
       references (''steps'', ''step_id'', None) (column ''step_id'' TUuid False),
       column ''state'' TText False,
       column ''reason_code'' TText False,
       column ''reason_detail'' TText True,
       column ''claimed_by'' TText True,
       column ''claimed_at'' TDateTime True,
       column ''resolved_by'' TText True,
       column ''resolved_at'' TDateTime True,
       column ''resolution_payload'' TJsonb True,
       column ''expires_at'' TDateTime False,
       with_default (Expression ''now()'') (column ''created_at'' TDateTime False)],
    tbl_checks = [(''ck_escalation_cases_state'', (quotes ''state IN (`open`,`claimed`,`resolved`,`rejected`,`expired`)''))],
    tbl_uniques = [(''uq_escalation_cases_run_step'', [''workflow_run_id'', ''step_id''])]\<rparr>,
  CreateIndex \<lparr>idx_name = ''idx_escalation_cases_state_expires'', idx_table = ''escalation_cases'', idx_columns = [''state'', ''expires_at''], idx_where = Some (quotes ''state IN (`open`,`claimed`)'')\<rparr>,
  CreateIndex \<lparr>idx_name = ''idx_escalation_cases_queue'', idx_table = ''escalation_cases'', idx_columns = [''state'', ''created_at''], idx_where = Some (quotes ''state = `open`'')\<rparr>]"

definition create_audit_events :: "ddl list" where
  "create_audit_events = [
  CreateTable
   \<lparr>tbl_name = ''audit_events'',
    tbl_columns = [
       primary (column ''audit_event_id'' TUuid False),
       references (''workflow_runs'', ''workflow_run_id'', None) (column ''workflow_run_id'' TUuid False),
       references (''steps'', ''step_id'', None) (column ''step_id'' TUuid True),
       references (''step_attempts'', ''step_attempt_id'', None) (column ''step_attempt_id'' TUuid True),
       column ''event_type'' TText False,
       column ''actor'' TText False,
       with_default (Expression (quotes ''`{}`'')) (column ''payload'' TJsonb False),
       with_default (Expression ''now()'') (column ''occurred_at'' TDateTime False),
       column ''seq_in_run'' TBigInteger False,
       column ''prev_event_hash'' (TLargeBinary (Some 32)) True,
       column ''event_hash'' (TLargeBinary (Some 32)) False],
    tbl_checks = [(''ck_audit_events_prev_hash_len'', ''prev_event_hash IS NULL OR octet_length(prev_event_hash) = 32''),
       (''ck_audit_events_hash_len'', ''octet_length(event_hash) = 32'')],
    tbl_uniques = [(''uq_audit_events_run_seq'', [''workflow_run_id'', ''seq_in_run''])]\<rparr>,
  CreateIndex \<lparr>idx_name = ''idx_audit_events_run_seq'', idx_table = ''audit_events'', idx_columns = [''workflow_run_id'', ''seq_in_run''], idx_where = None\<rparr>,
  CreateIndex \<lparr>idx_name = ''idx_audit_events_type_occurred'', idx_table = ''audit_events'', idx_columns = [''event_type'', ''occurred_at''], idx_where = None\<rparr>,
  CreateIndex \<lparr>idx_name = ''idx_audit_events_actor'', idx_table = ''audit_events'', idx_columns = [''actor'', ''occurred_at''], idx_where = None\<rparr>]"

definition upgrade :: "ddl list" where
  "upgrade = create_api_keys @ create_users @ create_documents @ create_workflow_runs @ create_workflow_run_documents @ create_steps @ create_current_step_fkey @ create_step_attempts @ create_tasks_outbox @ create_escalation_cases @ create_audit_events"

definition downgrade :: "ddl list" where
  "downgrade = [
  DropTable ''audit_events'',
  DropTable ''escalation_cases'',
  DropTable ''tasks_outbox'',
  DropTable ''step_attempts'',
  DropConstraint ''fk_workflow_runs_current_step_id'' ''workflow_runs'',
  DropTable ''steps'',
  DropTable ''workflow_run_documents'',
  DropTable ''workflow_runs'',
  DropTable ''documents'',
  DropTable ''users'',
  DropTable ''api_keys'']"

section \<open>The classes of the object-relational mapping\<close>

text \<open>A class: its table and its indexes.\<close>

type_synonym orm_class = "table_def \<times> index_def list"

definition orm_documents :: orm_class where
  "orm_documents = (\<lparr>tbl_name = ''documents'',
    tbl_columns = [
       primary (column ''document_id'' TUuid False),
       column ''content_hash'' (TLargeBinary (Some 32)) False,
       column ''content_type'' TText False,
       column ''size_bytes'' TBigInteger False,
       column ''payload_ref'' TText False,
       with_default (Literal ''now()'') (column ''ingested_at'' TDateTime False),
       column ''ingested_by'' TText False,
       column ''idempotency_key'' TText True,
       references (''api_keys'', ''api_key_id'', None) (column ''api_key_id'' TUuid True),
       with_default (Expression (quotes ''`{}`'')) (column ''metadata'' TJsonb False)],
    tbl_checks = [(''ck_documents_content_hash_len'', ''octet_length(content_hash) = 32''),
       (''ck_documents_content_type_format'', (quotes ''content_type ~ `^[a-z0-9.+-]+/[a-z0-9.+-]+$`'')),
       (''ck_documents_size_bytes_nonneg'', ''size_bytes >= 0'')],
    tbl_uniques = []\<rparr>,
   [\<lparr>idx_name = ''idx_documents_content_hash'', idx_table = ''documents'', idx_columns = [''content_hash''], idx_where = None\<rparr>,
    \<lparr>idx_name = ''idx_documents_ingested_at'', idx_table = ''documents'', idx_columns = [''ingested_at''], idx_where = None\<rparr>])"

definition orm_workflow_runs :: orm_class where
  "orm_workflow_runs = (\<lparr>tbl_name = ''workflow_runs'',
    tbl_columns = [
       primary (column ''workflow_run_id'' TUuid False),
       column ''workflow_name'' TText False,
       column ''workflow_version'' TText False,
       column ''state'' TText False,
       with_default (Literal ''0'') (column ''version'' TBigInteger False),
       references (''steps'', ''step_id'', None) (column ''current_step_id'' TUuid True),
       with_default (Literal ''now()'') (column ''created_at'' TDateTime False),
       with_default (Literal ''now()'') (column ''updated_at'' TDateTime False),
       column ''deadline_at'' TDateTime False,
       column ''reference_data_snapshot_id'' TUuid True,
       column ''created_by'' TText False,
       column ''last_error_code'' TText True,
       column ''last_error_detail'' TText True],
    tbl_checks = [(''ck_workflow_runs_state'', (quotes ''state IN (`pending`,`running`,`awaiting_human`,`completed`,`failed`,`cancelled`)''))],
    tbl_uniques = []\<rparr>,
   [\<lparr>idx_name = ''idx_workflow_runs_state_updated'', idx_table = ''workflow_runs'', idx_columns = [''state'', ''updated_at''], idx_where = None\<rparr>,
    \<lparr>idx_name = ''idx_workflow_runs_created_by'', idx_table = ''workflow_runs'', idx_columns = [''created_by'', ''created_at''], idx_where = None\<rparr>])"

definition orm_workflow_run_documents :: orm_class where
  "orm_workflow_run_documents = (\<lparr>tbl_name = ''workflow_run_documents'',
    tbl_columns = [
       references (''workflow_runs'', ''workflow_run_id'', None) (primary (column ''workflow_run_id'' TUuid False)),
       references (''documents'', ''document_id'', None) (primary (column ''document_id'' TUuid False)),
       with_default (Literal ''now()'') (column ''attached_at'' TDateTime False)],
    tbl_checks = [],
    tbl_uniques = []\<rparr>,
   [])"

definition orm_steps :: orm_class where
  "orm_steps = (\<lparr>tbl_name = ''steps'',
    tbl_columns = [
       primary (column ''step_id'' TUuid False),
       references (''workflow_runs'', ''workflow_run_id'', Some ''RESTRICT'') (column ''workflow_run_id'' TUuid False),
       column ''step_name'' TText False,
       column ''step_index'' TInteger False,
       column ''state'' TText False,
       column ''max_attempts'' TSmallInteger False,
       with_default (Literal ''false'') (column ''escalate_on_failure'' TBoolean False),
       with_default (Expression (quotes ''`{@base_delay_s@:2,@cap_s@:60,@jitter@:@full@}`'')) (column ''retry_policy'' TJsonb False),
       with_default (Literal ''now()'') (column ''created_at'' TDateTime False),
       column ''started_at'' TDateTime True,
       column ''ended_at'' TDateTime True],
    tbl_checks = [(''ck_steps_step_index_nonneg'', ''step_index >= 0''),
       (''ck_steps_state'', (quotes ''state IN (`queued`,`in_progress`,`succeeded`,`failed_retryable`,`failed_terminal`,`skipped`)'')),
       (''ck_steps_max_attempts_range'', ''max_attempts >= 1 AND max_attempts <= 10'')],
    tbl_uniques = [(''uq_steps_run_index'', [''workflow_run_id'', ''step_index'']),
       (''uq_steps_run_name'', [''workflow_run_id'', ''step_name''])]\<rparr>,
   [\<lparr>idx_name = ''idx_steps_run'', idx_table = ''steps'', idx_columns = [''workflow_run_id'', ''step_index''], idx_where = None\<rparr>])"

definition orm_step_attempts :: orm_class where
  "orm_step_attempts = (\<lparr>tbl_name = ''step_attempts'',
    tbl_columns = [
       primary (column ''step_attempt_id'' TUuid False),
       references (''steps'', ''step_id'', Some ''RESTRICT'') (column ''step_id'' TUuid False),
       column ''step_attempt_number'' TSmallInteger False,
       column ''state'' TText False,
       with_default (Literal (quotes ''`system`'')) (column ''origin'' TText False),
       column ''extractor_name'' TText True,
       column ''extractor_version'' TText True,
       column ''validator_name'' TText True,
       column ''validator_version'' TText True,
       column ''input_ref'' TText True,
       column ''output_ref'' TText True,
       column ''error_code'' TText True,
       column ''error_detail'' TText True,
       column ''started_at'' TDateTime True,
       column ''ended_at'' TDateTime True,
       column ''scheduled_for'' TDateTime True,
       with_default (Literal ''now()'') (column ''created_at'' TDateTime False)],
    tbl_checks = [(''ck_step_attempts_number_positive'', ''step_attempt_number >= 1''),
       (''ck_step_attempts_state'', (quotes ''state IN (`queued`,`in_progress`,`succeeded`,`failed_retryable`,`failed_terminal`,`skipped`)'')),
       (''ck_step_attempts_origin'', (quotes ''origin IN (`system`,`human`,`reaper`,`replay`)''))],
    tbl_uniques = [(''uq_step_attempts_step_number'', [''step_id'', ''step_attempt_number''])]\<rparr>,
   [\<lparr>idx_name = ''idx_step_attempts_run_step'', idx_table = ''step_attempts'', idx_columns = [''step_id'', ''step_attempt_number''], idx_where = None\<rparr>])"

definition orm_tasks_outbox :: orm_class where
  "orm_tasks_outbox = (\<lparr>tbl_name = ''tasks_outbox'',
    tbl_columns = [
       autoincrement (primary (column ''outbox_id'' TBigInteger False)),
       references (''workflow_runs'', ''workflow_run_id'', None) (column ''workflow_run_id'' TUuid False),
       references (''steps'', ''step_id'', None) (column ''step_id'' TUuid False),
       references (''step_attempts'', ''step_attempt_id'', None) (column ''step_attempt_id'' TUuid False),
       column ''payload'' TJsonb False,
       with_default (Literal ''now()'') (column ''scheduled_for'' TDateTime False),
       column ''enqueued_at'' TDateTime True,
       with_default (Literal ''0'') (column ''attempts'' TSmallInteger False),
       column ''last_error'' TText True,
       with_default (Literal ''now()'') (column ''created_at'' TDateTime False)],
    tbl_checks = [(''ck_tasks_outbox_attempts_range'', ''attempts >= 0 AND attempts <= 10'')],
    tbl_uniques = []\<rparr>,
   [\<lparr>idx_name = ''idx_tasks_outbox_undelivered'', idx_table = ''tasks_outbox'', idx_columns = [''enqueued_at'', ''scheduled_for''], idx_where = None\<rparr>])"

definition orm_escalation_cases :: orm_class where
  "orm_escalation_cases = (\<lparr>tbl_name = ''escalation_cases'',
    tbl_columns = [
       primary (column ''escalation_id'' TUuid False),
       references (''workflow_runs'', ''workflow_run_id'', None) (column ''workflow_run_id'' TUuid False),
       references (''steps'', ''step_id'', None) (column ''step_id'' TUuid False),
       column ''state'' TText False,
       column ''reason_code'' TText False,
       column ''reason_detail'' TText True,
       column ''claimed_by'' TText True,
       column ''claimed_at'' TDateTime True,
       column ''resolved_by'' TText True,
       column ''resolved_at'' TDateTime True,
       column ''resolution_payload'' TJsonb True,
       column ''expires_at'' TDateTime False,
       with_default (Literal ''now()'') (column ''created_at'' TDateTime False)],
    tbl_checks = [(''ck_escalation_cases_state'', (quotes ''state IN (`open`,`claimed`,`resolved`,`rejected`,`expired`)''))],
    tbl_uniques = [(''uq_escalation_cases_run_step'', [''workflow_run_id'', ''step_id''])]\<rparr>,
   [\<lparr>idx_name = ''idx_escalation_cases_state_expires'', idx_table = ''escalation_cases'', idx_columns = [''state'', ''expires_at''], idx_where = None\<rparr>,
    \<lparr>idx_name = ''idx_escalation_cases_queue'', idx_table = ''escalation_cases'', idx_columns = [''state'', ''created_at''], idx_where = None\<rparr>])"

definition orm_audit_events :: orm_class where
  "orm_audit_events = (\<lparr>tbl_name = ''audit_events'',
    tbl_columns = [
       primary (column ''audit_event_id'' TUuid False),
       references (''workflow_runs'', ''workflow_run_id'', None) (column ''workflow_run_id'' TUuid False),
       references (''steps'', ''step_id'', None) (column ''step_id'' TUuid True),
       references (''step_attempts'', ''step_attempt_id'', None) (column ''step_attempt_id'' TUuid True),
       column ''event_type'' TText False,
       column ''actor'' TText False,
       with_default (Expression (quotes ''`{}`'')) (column ''payload'' TJsonb False),
       with_default (Literal ''now()'') (column ''occurred_at'' TDateTime False),
       column ''seq_in_run'' TBigInteger False,
       column ''prev_event_hash'' (TLargeBinary (Some 32)) True,
       column ''event_hash'' (TLargeBinary (Some 32)) False],
    tbl_checks = [(''ck_audit_events_prev_hash_len'', ''prev_event_hash IS NULL OR octet_length(prev_event_hash) = 32''),
       (''ck_audit_events_hash_len'', ''octet_length(event_hash) = 32'')],
    tbl_uniques = [(''uq_audit_events_run_seq'', [''workflow_run_id'', ''seq_in_run''])]\<rparr>,
   [\<lparr>idx_name = ''idx_audit_events_run_seq'', idx_table = ''audit_events'', idx_columns = [''workflow_run_id'', ''seq_in_run''], idx_where = None\<rparr>,
    \<lparr>idx_name = ''idx_audit_events_type_occurred'', idx_table = ''audit_events'', idx_columns = [''event_type'', ''occurred_at''], idx_where = None\<rparr>,
    \<lparr>idx_name = ''idx_audit_events_actor'', idx_table = ''audit_events'', idx_columns = [''actor'', ''occurred_at''], idx_where = None\<rparr>])"

definition orm_api_keys :: orm_class where
  "orm_api_keys = (\<lparr>tbl_name = ''api_keys'',
    tbl_columns = [
       primary (column ''api_key_id'' TUuid False),
       unique (column ''key_hash'' (TLargeBinary (Some 32)) False),
       column ''label'' TText False,
       column ''role'' TText False,
       with_default (Literal ''now()'') (column ''created_at'' TDateTime False),
       column ''created_by'' TText False,
       column ''expires_at'' TDateTime True,
       column ''revoked_at'' TDateTime True,
       column ''last_used_at'' TDateTime True],
    tbl_checks = [(''ck_api_keys_hash_len'', ''octet_length(key_hash) = 32''),
       (''ck_api_keys_role'', (quotes ''role IN (`operator`,`supervisor`,`viewer`)''))],
    tbl_uniques = []\<rparr>,
   [\<lparr>idx_name = ''idx_api_keys_role_active'', idx_table = ''api_keys'', idx_columns = [''role''], idx_where = Some ''revoked_at IS NULL''\<rparr>])"

definition orm_users :: orm_class where
  "orm_users = (\<lparr>tbl_name = ''users'',
    tbl_columns = [
       primary (column ''user_id'' TUuid False),
       unique (column ''username'' TText False),
       column ''display_name'' TText False,
       column ''role'' TText False,
       column ''password_hash'' (TLargeBinary None) True,
       with_default (Literal ''now()'') (column ''created_at'' TDateTime False),
       column ''disabled_at'' TDateTime True,
       column ''last_login_at'' TDateTime True],
    tbl_checks = [(''ck_users_role'', (quotes ''role IN (`operator`,`supervisor`,`viewer`)''))],
    tbl_uniques = []\<rparr>,
   [\<lparr>idx_name = ''idx_users_role_active'', idx_table = ''users'', idx_columns = [''role''], idx_where = Some ''disabled_at IS NULL''\<rparr>])"

definition orm_metadata :: "orm_class list" where
  "orm_metadata = [orm_documents, orm_workflow_runs, orm_workflow_run_documents, orm_steps, orm_step_attempts, orm_tasks_outbox, orm_escalation_cases, orm_audit_events, orm_api_keys, orm_users]"

section \<open>Running it\<close>

text \<open>A catalog beside another one, with names of its own.\<close>

definition beside :: "catalog \<Rightarrow> catalog \<Rightarrow> catalog" where
  "beside C D = \<lparr>cat_tables = cat_tables C @ cat_tables D, cat_fks = cat_fks C @ cat_fks D,
     cat_indexes = cat_indexes C @ cat_indexes D\<rparr>"

definition closed_catalog :: "catalog \<Rightarrow> bool" where
  "closed_catalog C \<longleftrightarrow>
     list_all (\<lambda>f. fk_table f \<in> set (table_names C) \<and> fk_target f \<in> set (table_names C)) (cat_fks C) \<and>
     list_all (\<lambda>i. idx_table i \<in> set (table_names C)) (cat_indexes C)"

fun ddl_names :: "ddl \<Rightarrow> string list" where
  "ddl_names (CreateTable t) = [tbl_name t]"
| "ddl_names (CreateIndex i) = [idx_name i, idx_table i]"
| "ddl_names (CreateForeignKey f) = [fk_table f]"
| "ddl_names (DropTable n) = [n]"
| "ddl_names (DropConstraint c n) = [n]"

definition migration_names :: "string list" where
  "migration_names = concat (map ddl_names upgrade)"

lemma beside_simps [simp]:
  "cat_tables (beside C D) = cat_tables C @ cat_tables D" "cat_fks (beside C D) = cat_fks C @ cat_fks D"
  "cat_indexes (beside C D) = cat_indexes C @ cat_indexes D"
  "set (table_names (beside C D)) = set (table_names C) \<union> set (table_names D)"
  "set (relations (beside C D)) = set (relations C) \<union> set (relations D)"
  by (auto simp: beside_def table_names_def relations_def)

lemma beside_grow:
  "beside C (D\<lparr>cat_tables := cat_tables D @ ts\<rparr>) = (beside C D)\<lparr>cat_tables := cat_tables C @ cat_tables D @ ts\<rparr>"
  "beside C (D\<lparr>cat_tables := cat_tables D @ ts, cat_fks := cat_fks D @ fs\<rparr>) =
     (beside C D)\<lparr>cat_tables := cat_tables C @ cat_tables D @ ts, cat_fks := cat_fks C @ cat_fks D @ fs\<rparr>"
  "beside C (D\<lparr>cat_fks := cat_fks D @ fs\<rparr>) = (beside C D)\<lparr>cat_fks := cat_fks C @ cat_fks D @ fs\<rparr>"
  "beside C (D\<lparr>cat_indexes := cat_indexes D @ is\<rparr>) = (beside C D)\<lparr>cat_indexes := cat_indexes C @ cat_indexes D @ is\<rparr>"
  by (simp_all add: beside_def)

lemma beside_mk:
  "beside C \<lparr>cat_tables = ts, cat_fks = fs, cat_indexes = is\<rparr> =
     \<lparr>cat_tables = cat_tables C @ ts, cat_fks = cat_fks C @ fs, cat_indexes = cat_indexes C @ is\<rparr>"
  "beside C (D\<lparr>cat_fks := fs\<rparr>) = (beside C D)\<lparr>cat_fks := cat_fks C @ fs\<rparr>"
  by (simp_all add: beside_def)

lemma has_column_append [simp]: "has_column (ts @ us) table c \<longleftrightarrow> has_column ts table c \<or> has_column us table c"
  by (simp add: has_column_def)

lemma resolves_beside: "resolves us f \<Longrightarrow> resolves (ts @ us) f"
  by (simp add: resolves_def)

lemma find_None_mono: "find P xs = None \<Longrightarrow> (\<And>x. x \<in> set xs \<Longrightarrow> Q x \<Longrightarrow> P x) \<Longrightarrow> find Q xs = None"
  by (auto simp: find_None_iff)

lemma tables_relations: "set (table_names C) \<subseteq> set (relations C)"
  by (simp add: relations_def)

text \<open>A statement that succeeds does the same beside any catalog whose names it does not mention.\<close>

lemma exec_ddl_beside:
  assumes "exec_ddl op D = Inr D'" "closed_catalog C" "set (ddl_names op) \<inter> set (relations C) = {}"
  shows "exec_ddl op (beside C D) = Inr (beside C D')"
proof (cases op)
  case (CreateTable t)
  then have none: "find (\<lambda>f. \<not> resolves (cat_tables D @ [t]) f) (column_fks t) = None"
    using assms(1) by (auto split: if_splits option.splits)
  then have "find (\<lambda>f. \<not> resolves (cat_tables C @ cat_tables D @ [t]) f) (column_fks t) = None"
    by (rule find_None_mono) (use resolves_beside in blast)
  moreover have "D' = D\<lparr>cat_tables := cat_tables D @ [t], cat_fks := cat_fks D @ column_fks t\<rparr>"
    using assms(1) CreateTable none by (auto split: if_splits)
  ultimately show ?thesis using assms CreateTable by (auto simp: beside_grow split: if_splits)
next
  case (CreateIndex i)
  then have none: "find (\<lambda>c. \<not> has_column (cat_tables D) (idx_table i) c) (idx_columns i) = None"
    using assms(1) by (auto split: if_splits option.splits)
  then have "find (\<lambda>c. \<not> has_column (cat_tables C @ cat_tables D) (idx_table i) c) (idx_columns i) = None"
    by (rule find_None_mono) simp
  moreover have "D' = D\<lparr>cat_indexes := cat_indexes D @ [i]\<rparr>"
    using assms(1) CreateIndex none by (auto split: if_splits)
  ultimately show ?thesis using assms CreateIndex by (auto simp: beside_grow split: if_splits)
next
  case (CreateForeignKey f)
  with assms tables_relations [of C] show ?thesis
    by (auto simp: beside_grow closed_catalog_def list_all_iff resolves_beside split: if_splits)
next
  case (DropTable n)
  have n: "n \<notin> set (table_names C)" using assms(3) DropTable tables_relations [of C] by auto
  then have "filter (\<lambda>t. tbl_name t \<noteq> n) (cat_tables C) = cat_tables C"
    "filter (\<lambda>f. fk_table f \<noteq> n) (cat_fks C) = cat_fks C" "filter (\<lambda>i. idx_table i \<noteq> n) (cat_indexes C) = cat_indexes C"
    "\<not> list_ex (\<lambda>f. fk_target f = n \<and> fk_table f \<noteq> n) (cat_fks C)"
    using assms(2) by (auto simp: closed_catalog_def list_all_iff list_ex_iff table_names_def intro!: filter_True)
  with assms(1) DropTable show ?thesis by (auto simp: beside_mk split: if_splits)
next
  case (DropConstraint c n)
  have n: "n \<notin> set (table_names C)" using assms(3) DropConstraint tables_relations [of C] by auto
  then have "filter (\<lambda>g. (fk_table g, fk_name g) \<noteq> (n, c)) (cat_fks C) = cat_fks C"
    using assms(2) by (auto simp: closed_catalog_def list_all_iff intro!: filter_True)
  with assms(1) DropConstraint show ?thesis by (auto simp: beside_mk split: if_splits)
qed

lemma run_ddl_beside:
  assumes "run_ddl ops D = Inr D'" "closed_catalog C" "set (concat (map ddl_names ops)) \<inter> set (relations C) = {}"
  shows "run_ddl ops (beside C D) = Inr (beside C D')"
  using assms
proof (induction ops arbitrary: D)
  case (Cons op ops)
  from Cons.prems(1) obtain D1 where 1: "exec_ddl op D = Inr D1" "run_ddl ops D1 = Inr D'" by (auto split: sum.splits)
  have "exec_ddl op (beside C D) = Inr (beside C D1)"
    using exec_ddl_beside [OF 1(1) Cons.prems(2)] Cons.prems(3) by auto
  with Cons.IH [OF 1(2)] Cons.prems show ?case by auto
qed simp

lemma run_ddl_append: "run_ddl (xs @ ys) C = (case run_ddl xs C of Inl e \<Rightarrow> Inl e | Inr C' \<Rightarrow> run_ddl ys C')"
  by (induction xs arbitrary: C) (auto split: sum.splits)

text \<open>From an empty database the migration and its reversal both run, and leave it empty.\<close>

lemma migration_runs: "run_ddl (upgrade @ downgrade) empty_catalog = Inr empty_catalog"
  by code_simp

lemma downgrade_names: "set (concat (map ddl_names downgrade)) \<subseteq> set migration_names"
  by code_simp

lemma migration_reversed:
  assumes "closed_catalog C" "set migration_names \<inter> set (relations C) = {}"
  shows "run_ddl (upgrade @ downgrade) C = Inr C"
proof -
  have "beside C empty_catalog = C" by (simp add: beside_def empty_catalog_def)
  moreover have "set (concat (map ddl_names (upgrade @ downgrade))) \<inter> set (relations C) = {}"
    using downgrade_names assms(2) by (auto simp: migration_names_def)
  ultimately show ?thesis using run_ddl_beside [OF migration_runs assms(1)] by simp
qed

section \<open>The mapping and the migration\<close>

text \<open>What both declare of a column, a foreign key and an index; the defaults and the names of foreign keys apart.\<close>

definition column_shape :: "column_def \<Rightarrow> string \<times> sql_type \<times> bool \<times> bool \<times> bool \<times> bool \<times> bool" where
  "column_shape c = (col_name c, col_type c, col_nullable c, col_primary c, col_unique c, col_autoincrement c, col_default c \<noteq> None)"

definition table_shape where
  "table_shape t = (tbl_name t, map column_shape (tbl_columns t), tbl_checks t, tbl_uniques t)"

definition fk_shape :: "fk_def \<Rightarrow> string \<times> string \<times> string \<times> string \<times> string option" where
  "fk_shape f = (fk_table f, fk_column f, fk_target f, fk_target_column f, fk_ondelete f)"

text \<open>The catalog that the migration leaves: what its statements create, in their order.\<close>

definition created_tables :: "ddl list \<Rightarrow> table_def list" where
  "created_tables ops = concat (map (\<lambda>op. case op of CreateTable t \<Rightarrow> [t] | _ \<Rightarrow> []) ops)"

definition created_fks :: "ddl list \<Rightarrow> fk_def list" where
  "created_fks ops = concat (map (\<lambda>op. case op of CreateTable t \<Rightarrow> column_fks t | CreateForeignKey f \<Rightarrow> [f] | _ \<Rightarrow> []) ops)"

definition created_indexes :: "ddl list \<Rightarrow> index_def list" where
  "created_indexes ops = concat (map (\<lambda>op. case op of CreateIndex i \<Rightarrow> [i] | _ \<Rightarrow> []) ops)"

definition migrated :: catalog where
  "migrated = \<lparr>cat_tables = created_tables upgrade, cat_fks = created_fks upgrade, cat_indexes = created_indexes upgrade\<rparr>"

definition orm_tables :: "table_def list" where "orm_tables = map fst orm_metadata"
definition orm_indexes :: "index_def list" where "orm_indexes = concat (map snd orm_metadata)"

text \<open>A statement must give every column that is \<open>NOT NULL\<close> and has no default.\<close>

definition required_columns :: "string \<Rightarrow> string list" where
  "required_columns n = concat (map (\<lambda>t. if tbl_name t = n
     then map col_name (filter (\<lambda>c. \<not> col_nullable c \<and> col_default c = None \<and> \<not> col_autoincrement c) (tbl_columns t))
     else []) (cat_tables migrated))"

fun creates :: "ddl \<Rightarrow> bool" where
  "creates (DropTable n) = False"
| "creates (DropConstraint c n) = False"
| "creates op = True"

lemma run_creates:
  assumes "run_ddl ops C = Inr C'" "list_all creates ops"
  shows "C' = \<lparr>cat_tables = cat_tables C @ created_tables ops, cat_fks = cat_fks C @ created_fks ops,
    cat_indexes = cat_indexes C @ created_indexes ops\<rparr>"
  using assms
proof (induction ops arbitrary: C)
  case Nil
  then show ?case by (simp add: created_tables_def created_fks_def created_indexes_def)
next
  case (Cons op ops)
  from Cons.prems(1) obtain C1 where 1: "exec_ddl op C = Inr C1" "run_ddl ops C1 = Inr C'" by (auto split: sum.splits)
  have "C' = \<lparr>cat_tables = cat_tables C1 @ created_tables ops, cat_fks = cat_fks C1 @ created_fks ops,
      cat_indexes = cat_indexes C1 @ created_indexes ops\<rparr>"
    using Cons.IH [OF 1(2)] Cons.prems(2) by simp
  with 1(1) Cons.prems(2) show ?case
    by (cases op) (auto simp: created_tables_def created_fks_def created_indexes_def split: if_splits option.splits)
qed

lemma upgrade_creates: "list_all creates upgrade"
  by code_simp

lemma migrated_runs: "run_ddl upgrade empty_catalog = Inr migrated"
proof -
  obtain C where "run_ddl upgrade empty_catalog = Inr C"
    using migration_runs by (auto simp: run_ddl_append split: sum.splits)
  with run_creates [OF this upgrade_creates] show ?thesis by (simp add: migrated_def empty_catalog_def)
qed

lemma orm_tables_match: "set (map table_shape orm_tables) = set (map table_shape (cat_tables migrated))"
  by code_simp

lemma orm_fks_match: "set (map fk_shape (concat (map column_fks orm_tables))) = set (map fk_shape (cat_fks migrated))"
  by code_simp

text \<open>
  The indexes: every one that a class declares is there, up to its condition; four of the migration
  are missing from the classes or carry a condition that they lack.
\<close>

definition index_shape :: "index_def \<Rightarrow> string \<times> string \<times> string list" where
  "index_shape i = (idx_name i, idx_table i, idx_columns i)"

lemma orm_indexes_match: "set (map index_shape orm_indexes) \<subseteq> set (map index_shape (cat_indexes migrated))"
  by code_simp

lemma orm_indexes_differ:
  "map idx_name (filter (\<lambda>i. i \<notin> set orm_indexes) (cat_indexes migrated)) =
     [''idx_workflow_runs_deadline'', ''idx_step_attempts_state_scheduled'',
      ''idx_escalation_cases_state_expires'', ''idx_escalation_cases_queue'']"
  by code_simp

end
