(* ===== verification/Seed.thy ===== *)
theory Seed
  imports Payloads Schema
begin

text \<open>
  \<open>scripts/seed_dev_data.py\<close>: one transaction that inserts an API key and a sample document, each
  \<open>ON CONFLICT DO NOTHING\<close>. PostgreSQL checks \<open>NOT NULL\<close> and \<open>CHECK\<close> before it looks for a conflict,
  and a foreign key only for a row that is inserted. A column that the statement does not list
  and that has no default is null.
\<close>

section \<open>The two statements\<close>

definition not_null :: "string \<Rightarrow> string \<Rightarrow> string" where
  "not_null table c = ''null value in column '' @ c @ '' of relation '' @ table"

definition seed_key :: "uuid \<Rightarrow> bytes \<Rightarrow> string \<Rightarrow> string \<Rightarrow> time \<Rightarrow> string \<Rightarrow> ApiKeyModel" where
  "seed_key api_key_id key_hash role label created_at created_by =
     \<lparr>key_api_key_id = api_key_id, key_key_hash = key_hash, key_label = label, key_role = role,
      key_created_at = created_at, key_created_by = created_by, key_expires_at = None, key_revoked_at = None,
      key_last_used_at = None\<rparr>"

definition seed_insert_api_key ::
  "uuid \<Rightarrow> bytes \<Rightarrow> string \<Rightarrow> string \<Rightarrow> time \<Rightarrow> string option \<Rightarrow> ('z, unit) wexec" where
  "seed_insert_api_key api_key_id key_hash role label created_at created_by =
     (case created_by of
        None \<Rightarrow> raiseE (IntegrityError (not_null ''api_keys'' ''created_by''))
      | Some creator \<Rightarrow>
     bindE (read_db id) (\<lambda>d.
     check_constraints
       [(length key_hash = 32, ''ck_api_keys_hash_len''),
        (role \<in> {''operator'', ''supervisor'', ''viewer''}, ''ck_api_keys_role'')]
       (\<lambda>d. if api_key_id \<in> key_api_key_id ` set (api_keys d) \<or> key_hash \<in> key_key_hash ` set (api_keys d) then d
         else d\<lparr>api_keys := api_keys d @ [seed_key api_key_id key_hash role label created_at creator]\<rparr>)))"

definition seed_insert_document :: "DocumentModel \<Rightarrow> ('z, unit) wexec" where
  "seed_insert_document m = bindE (read_db id) (\<lambda>d.
     let conflict = doc_document_id m \<in> doc_document_id ` set (documents d) in
     check_constraints
       [(length (doc_content_hash m) = 32, ''ck_documents_content_hash_len''),
        (content_type_ok (doc_content_type m), ''ck_documents_content_type_format''),
        (doc_size_bytes m \<ge> 0, ''ck_documents_size_bytes_nonneg''),
        (conflict \<or> fk_opt (doc_api_key_id m) (key_api_key_id ` set (api_keys d)), ''documents_api_key_id_fkey'')]
       (\<lambda>d. if conflict then d else d\<lparr>documents := documents d @ [m]\<rparr>))"

section \<open>The script\<close>

definition PEPPER :: string where
  "PEPPER = ''dev-pepper-not-for-production''"

definition SAMPLE_CLAIM_TEXT :: string where
  "SAMPLE_CLAIM_TEXT = concat (map (\<lambda>line. line @ [CHR 0x0A])
     [''Claim Number: CLM-2025-001234'', ''Policy Number: POL-12345678'', ''Claimant: Jane Smith'',
      ''Date of Loss: 01/15/2025'', ''Claim Type: auto'',
      ''Description: Vehicle collision at intersection of Main St and 5th Ave.''])"

definition seed_document :: "uuid \<Rightarrow> time \<Rightarrow> uuid \<Rightarrow> DocumentModel" where
  "seed_document document_id now api_key_id =
     (let content = utf8 SAMPLE_CLAIM_TEXT; content_hash = sha256 content in
      \<lparr>doc_document_id = document_id, doc_content_hash = content_hash, doc_content_type = ''text/plain'',
       doc_size_bytes = int (length content), doc_payload_ref = ''local://'' @ bytes_hex content_hash,
       doc_ingested_at = now, doc_ingested_by = ''api_key:supervisor:'' @ uuid_str api_key_id,
       doc_idempotency_key = None, doc_api_key_id = Some api_key_id, doc_metadata = []\<rparr>)"

text \<open>The transaction, given what its statement on \<open>api_keys\<close> supplies for \<open>created_by\<close>.\<close>

definition seed_transaction :: "string option \<Rightarrow> string \<Rightarrow> ('z, uuid \<times> uuid) wexec" where
  "seed_transaction created_by raw_token =
     (let key_hash = sha256 (utf8 (PEPPER @ raw_token)) in
      bindE uuid4 (\<lambda>api_key_id.
      bindE now_utc (\<lambda>now.
      bindE (seed_insert_api_key api_key_id key_hash ''supervisor'' ''dev-seed-key'' now created_by) (\<lambda>_.
      bindE uuid4 (\<lambda>document_id.
      bindE (seed_insert_document (seed_document document_id now api_key_id)) (\<lambda>_.
      returnE (api_key_id, document_id)))))))"

text \<open>The statement of the script lists \<open>api_key_id\<close>, \<open>key_hash\<close>, \<open>role\<close>, \<open>label\<close> and \<open>created_at\<close> only.\<close>

definition seed_dev_data :: "string \<Rightarrow> ('z, uuid \<times> uuid) wexec" where
  "seed_dev_data raw_token = session_scope (seed_transaction None raw_token)"

section \<open>What it does\<close>

text \<open>
  Of the columns that a row of \<open>api_keys\<close> must have the statement leaves one out: the script is always
  refused, and seeds nothing.
\<close>

definition SEED_KEY_COLUMNS :: "string list" where
  "SEED_KEY_COLUMNS = [''api_key_id'', ''key_hash'', ''role'', ''label'', ''created_at'']"

lemma seed_columns: "filter (\<lambda>c. c \<notin> set SEED_KEY_COLUMNS) (required_columns ''api_keys'') = [''created_by'']"
  by code_simp

lemma seed_refused:
  "\<exists>w'. seed_dev_data raw_token w = (Inl (IntegrityError (not_null ''api_keys'' ''created_by'')), w') \<and> w_db w' = w_db w"
  by (simp add: seed_dev_data_def session_scope_def seed_transaction_def seed_insert_api_key_def uuid4_def now_utc_def
      bindE_def raiseE_def Let_def)

text \<open>
  With a creator supplied both rows are inserted. The key is usable under the development pepper;
  the document is not readable: its reference is no path of the payload store.
\<close>

lemma content_types: "content_type_ok ''text/plain''"
  by code_simp

lemma seed_with_creator:
  fixes w :: "'z world_scheme" and raw_token creator :: string
  defines "k \<equiv> seed_key (w_uuid4 w (w_uuid4_n w)) (compute_key_hash PEPPER raw_token) ''supervisor'' ''dev-seed-key''
      (w_now w (w_now_n w)) creator"
    and "m \<equiv> seed_document (w_uuid4 w (Suc (w_uuid4_n w))) (w_now w (w_now_n w)) (w_uuid4 w (w_uuid4_n w))"
  assumes "key_api_key_id k \<notin> key_api_key_id ` set (api_keys (w_db w))"
    and "key_key_hash k \<notin> key_key_hash ` set (api_keys (w_db w))"
    and "doc_document_id m \<notin> doc_document_id ` set (documents (w_db w))"
  shows "\<exists>w'. session_scope (seed_transaction (Some creator) raw_token) w = (Inr (key_api_key_id k, doc_document_id m), w') \<and>
    w_db w' = (w_db w)\<lparr>api_keys := api_keys (w_db w) @ [k], documents := documents (w_db w) @ [m]\<rparr>"
  using assms(3-5) unfolding k_def m_def
  by (simp add: session_scope_def seed_transaction_def seed_insert_api_key_def seed_insert_document_def uuid4_def now_utc_def
      bindE_def Let_def check_constraints_run length_sha256 content_types fk_opt_def seed_document_def seed_key_def
      compute_key_hash_def)

lemma seeded_key: "key_role (seed_key u h r l t c) = r \<and> key_usable (seed_key u h r l t c) now"
  by (simp add: seed_key_def key_usable_def)

lemma seeded_document: "doc_payload_ref (seed_document u t k) = ''local://'' @ content_hash_to_ref (doc_content_hash (seed_document u t k))"
  by (simp add: seed_document_def content_hash_to_ref_def Let_def)

text \<open>It keeps every declared constraint, whatever it is given.\<close>

lemma seed_statements_wf:
  "keeps world_wf (seed_insert_api_key u h role label t creator)" "keeps world_wf (seed_insert_document m)"
proof -
  show "keeps world_wf (seed_insert_document m)"
    unfolding seed_insert_document_def Let_def by (rule keeps_checked) (auto simp: db_wf_defs)
  show "keeps world_wf (seed_insert_api_key u h role label t creator)"
  proof (cases creator)
    case (Some c)
    have mono: "fk_opt v (key_api_key_id ` set ks) \<Longrightarrow> fk_opt v (insert i (key_api_key_id ` set ks))" for v ks i
      by (rule fk_opt_mono) auto
    show ?thesis
      unfolding seed_insert_api_key_def Some option.case
      by (rule keeps_checked) (auto simp: db_wf_defs seed_key_def intro: mono)
  qed (simp add: seed_insert_api_key_def keeps_def raiseE_def)
qed

lemma seed_wf: "keeps world_wf (session_scope (seed_transaction creator raw_token))"
  unfolding seed_transaction_def Let_def by (intro keeps_intros seed_statements_wf)

end
