(* ===== verification/Migration_Check.thy ===== *)
theory Migration_Check
  imports Py_Regex "HOL-Library.Sublist"
begin

text \<open>
  \<open>scripts/check_migrations.py\<close>: the lint of migration files. A file is its path and its text, a
  directory the list of its entries. The patterns, the extraction of the body of \<open>upgrade()\<close>, the
  matching of parentheses, the four checks and the report are the script's; the lemmas say what
  the regular expressions and the scanning amount to, on strings.
\<close>

section \<open>Patterns\<close>

abbreviation blanks :: re where
  "blanks \<equiv> Rep 0 None is_space"

abbreviation blanks1 :: re where
  "blanks1 \<equiv> Rep 1 None is_space"

text \<open>\<open>name\s*\(\<close>\<close>

definition call_re :: "string \<Rightarrow> re" where
  "call_re name = seq [lit name, blanks, lit ''('']"

definition CREATE_INDEX_RE :: re where
  "CREATE_INDEX_RE = call_re ''op.create_index''"

definition CONCURRENTLY_RE :: re where
  "CONCURRENTLY_RE = seq [lit ''postgresql_concurrently'', blanks, lit ''='', blanks, lit ''True'']"

definition ADD_COLUMN_RE :: re where
  "ADD_COLUMN_RE = call_re ''op.add_column''"

definition NULLABLE_FALSE_RE :: re where
  "NULLABLE_FALSE_RE = seq [lit ''nullable'', blanks, lit ''='', blanks, lit ''False'']"

definition SERVER_DEFAULT_RE :: re where
  "SERVER_DEFAULT_RE = seq [lit ''server_default'', blanks, lit ''='']"

definition DROP_COLUMN_RE :: re where
  "DROP_COLUMN_RE = call_re ''op.drop_column''"

definition DROP_TABLE_RE :: re where
  "DROP_TABLE_RE = call_re ''op.drop_table''"

definition DATA_MANIP_RE :: re where
  "DATA_MANIP_RE = alts [seq [lit_i ''INSERT'', blanks1, lit_i ''INTO''],
     seq [lit_i ''UPDATE'', blanks1, Cls c_word], seq [lit_i ''DELETE'', blanks1, lit_i ''FROM'']]"

definition OP_EXECUTE_RE :: re where
  "OP_EXECUTE_RE = call_re ''op.execute''"

definition INITIAL_MIGRATION_RE :: re where
  "INITIAL_MIGRATION_RE = seq [lit ''down_revision'', blanks, Cls (\<lambda>c. c \<in> set ''=:''), blanks,
     opt (seq [lit ''Union[str,'', blanks, lit ''None]'', blanks, lit ''='', blanks]), lit ''None'', At at_boundary]"

definition UPGRADE_RE :: re where
  "UPGRADE_RE = seq [At at_line, lit ''def upgrade()'', Lazy c_any, lit ('':'' @ [CHR 0x0A]), Grp 1 (Lazy c_any),
     Look (Alt (seq [At at_line, lit ''def '']) (At at_end))]"

section \<open>Positions and calls\<close>

text \<open>\<open>s.find(t)\<close>, \<open>s.rfind(t)\<close> and \<open>s.count(c)\<close>\<close>

definition py_find :: "string \<Rightarrow> string \<Rightarrow> int" where
  "py_find s t = (case find (\<lambda>k. prefix t (drop k s)) [0..<Suc (length s)] of None \<Rightarrow> -1 | Some k \<Rightarrow> int k)"

definition py_rfind :: "string \<Rightarrow> string \<Rightarrow> int" where
  "py_rfind s t = (case find (\<lambda>k. prefix t (drop k s)) (rev [0..<Suc (length s)]) of None \<Rightarrow> -1 | Some k \<Rightarrow> int k)"

definition py_count :: "string \<Rightarrow> char \<Rightarrow> int" where
  "py_count s c = int (length (filter (\<lambda>x. x = c) s))"

definition extract_upgrade_body :: "string \<Rightarrow> string option" where
  "extract_upgrade_body content =
     (case re_search UPGRADE_RE content 0 of
       None \<Rightarrow> None
     | Some m \<Rightarrow> (case m_span m 1 of None \<Rightarrow> None | Some (i, j) \<Rightarrow> Some (py_slice content i j)))"

text \<open>How deep a text is inside parentheses at its end.\<close>

fun depth :: "string \<Rightarrow> int" where
  "depth [] = 0"
| "depth (ch # s) = (if ch = CHR ''('' then 1 else if ch = CHR '')'' then -1 else 0) + depth s"

definition is_inside_create_table :: "string \<Rightarrow> nat \<Rightarrow> bool" where
  "is_inside_create_table content match_start =
     (let last_create = py_rfind (take match_start content) ''op.create_table('' in
      if last_create = -1 then False
      else depth (py_slice content (nat last_create) match_start) > 0)"

definition get_line_number :: "string \<Rightarrow> nat \<Rightarrow> int" where
  "get_line_number content pos = py_count (take pos content) (CHR 0x0A) + 1"

text \<open>The loop that looks for the parenthesis that closes a call; the statement is empty when there is none.\<close>

fun close_scan :: "int \<Rightarrow> string \<Rightarrow> nat \<Rightarrow> nat option" where
  "close_scan d [] i = None"
| "close_scan d (ch # s) i =
     (if ch = CHR ''('' then close_scan (d + 1) s (Suc i)
      else if ch = CHR '')'' then (if d - 1 = 0 then Some (Suc i) else close_scan (d - 1) s (Suc i))
      else close_scan d s (Suc i))"

definition stmt_text :: "string \<Rightarrow> nat \<Rightarrow> string" where
  "stmt_text body stmt_start =
     py_slice body stmt_start (case close_scan 0 (drop stmt_start body) stmt_start of None \<Rightarrow> stmt_start | Some e \<Rightarrow> e)"

section \<open>Findings\<close>

record Finding =
  fnd_file :: string
  fnd_line :: int
  fnd_pattern :: string
  fnd_message :: string
  fnd_severity :: string

record CheckResult =
  chk_file :: string
  chk_findings :: "Finding list"
  chk_is_initial :: bool

definition mk_finding :: "string \<Rightarrow> int \<Rightarrow> string \<Rightarrow> string \<Rightarrow> Finding" where
  "mk_finding f l p m = \<lparr>fnd_file = f, fnd_line = l, fnd_pattern = p, fnd_message = m, fnd_severity = ''warning''\<rparr>"

definition found :: "re \<Rightarrow> string \<Rightarrow> bool" where
  "found r s \<longleftrightarrow> re_search r s 0 \<noteq> None"

text \<open>\<open>offset + match.start()\<close>; the offset is never \<open>-1\<close>, since the body is a part of the text.\<close>

definition abs_pos :: "string \<Rightarrow> string \<Rightarrow> re_Match \<Rightarrow> nat" where
  "abs_pos content upgrade_body m = nat (py_find content upgrade_body + int (m_start m))"

definition check_create_index_without_concurrently :: "string \<Rightarrow> string \<Rightarrow> string \<Rightarrow> bool \<Rightarrow> Finding list" where
  "check_create_index_without_concurrently content upgrade_body filepath is_initial =
     (if is_initial then [] else
      concat (map (\<lambda>m.
        let pos = abs_pos content upgrade_body m in
        if is_inside_create_table content pos then []
        else if found CONCURRENTLY_RE (stmt_text upgrade_body (m_start m)) then []
        else [mk_finding filepath (get_line_number content pos) ''CREATE_INDEX_WITHOUT_CONCURRENTLY''
          ''op.create_index() on an existing table without postgresql_concurrently=True may hold a long lock''])
       (re_finditer CREATE_INDEX_RE upgrade_body 0)))"

definition check_add_column_not_null :: "string \<Rightarrow> string \<Rightarrow> string \<Rightarrow> bool \<Rightarrow> Finding list" where
  "check_add_column_not_null content upgrade_body filepath is_initial =
     (if is_initial then [] else
      concat (map (\<lambda>m.
        let pos = abs_pos content upgrade_body m; stmt = stmt_text upgrade_body (m_start m) in
        if found NULLABLE_FALSE_RE stmt \<and> \<not> found SERVER_DEFAULT_RE stmt
        then [mk_finding filepath (get_line_number content pos) ''ADD_COLUMN_NOT_NULL_NO_DEFAULT''
          ''op.add_column() with nullable=False and no server_default will lock the table for a full rewrite on large tables'']
        else [])
       (re_finditer ADD_COLUMN_RE upgrade_body 0)))"

definition check_drop_operations :: "string \<Rightarrow> string \<Rightarrow> string \<Rightarrow> bool \<Rightarrow> Finding list" where
  "check_drop_operations content upgrade_body filepath is_initial =
     (if is_initial then [] else
      map (\<lambda>m. mk_finding filepath (get_line_number content (abs_pos content upgrade_body m)) ''DROP_COLUMN''
        (''op.drop_column() should follow expand-migrate-contract. '' @
         ''Ensure this is the 'contract' phase with prior expand and migrate steps.''))
       (re_finditer DROP_COLUMN_RE upgrade_body 0) @
      map (\<lambda>m. mk_finding filepath (get_line_number content (abs_pos content upgrade_body m)) ''DROP_TABLE''
        (''op.drop_table() is destructive. Ensure this follows expand-migrate-contract discipline.''))
       (re_finditer DROP_TABLE_RE upgrade_body 0))"

definition check_data_manipulation :: "string \<Rightarrow> string \<Rightarrow> string \<Rightarrow> bool \<Rightarrow> Finding list" where
  "check_data_manipulation content upgrade_body filepath is_initial =
     (if is_initial then [] else
      concat (map (\<lambda>m.
        if found DATA_MANIP_RE (stmt_text upgrade_body (m_start m))
        then [mk_finding filepath (get_line_number content (abs_pos content upgrade_body m)) ''DML_IN_MIGRATION''
          (''Data manipulation (INSERT/UPDATE/DELETE) in a DDL migration. '' @
           ''Consider separating data migrations into their own idempotent script.'')]
        else [])
       (re_finditer OP_EXECUTE_RE upgrade_body 0)))"

text \<open>\<open>check_migration_file\<close> once the text is read.\<close>

definition check_text :: "string \<Rightarrow> string \<Rightarrow> CheckResult" where
  "check_text filepath content =
     (let is_initial = found INITIAL_MIGRATION_RE content in
      \<lparr>chk_file = filepath,
       chk_findings = (case extract_upgrade_body content of
           None \<Rightarrow> []
         | Some body \<Rightarrow> check_create_index_without_concurrently content body filepath is_initial
             @ check_add_column_not_null content body filepath is_initial
             @ check_drop_operations content body filepath is_initial
             @ check_data_manipulation content body filepath is_initial),
       chk_is_initial = is_initial\<rparr>)"

section \<open>Files, directories and the command\<close>

text \<open>An entry of the directory: its name and what reading it gives.\<close>

record entry =
  ent_name :: string
  ent_read :: "exn + string"

definition check_migration_file :: "string \<Rightarrow> entry \<Rightarrow> exn + CheckResult" where
  "check_migration_file dir f =
     (case ent_read f of Inl e \<Rightarrow> Inl e | Inr content \<Rightarrow> Inr (check_text (dir @ ''/'' @ ent_name f) content))"

fun check_files :: "string \<Rightarrow> entry list \<Rightarrow> exn + CheckResult list" where
  "check_files dir [] = Inr []"
| "check_files dir (f # fs) =
     (if ent_name f = ''__pycache__'' then check_files dir fs
      else case check_migration_file dir f of
        Inl e \<Rightarrow> Inl e
      | Inr r \<Rightarrow> (case check_files dir fs of Inl e \<Rightarrow> Inl e | Inr rs \<Rightarrow> Inr (r # rs)))"

text \<open>\<open>sorted(migrations_dir.glob("*.py"))\<close>; a directory that does not exist is \<open>None\<close>.\<close>

definition check_migrations_directory :: "string \<Rightarrow> entry list option \<Rightarrow> exn + CheckResult list" where
  "check_migrations_directory dir es =
     (case es of
       None \<Rightarrow> Inr []
     | Some es \<Rightarrow> check_files dir (sort_key ent_name (filter (\<lambda>f. suffix ''.py'' (ent_name f)) es)))"

definition format_findings :: "CheckResult list \<Rightarrow> string" where
  "format_findings results =
     (let fs = concat (map chk_findings results);
          lines = map (\<lambda>f. ''  ['' @ py_upper_hex (fnd_severity f) @ ''] '' @ fnd_file f @ '':'' @ int_str (fnd_line f)
            @ '' ('' @ fnd_pattern f @ ''): '' @ fnd_message f) fs;
          total_findings = int (length fs) in
      if total_findings = 0 then ''Migration safety check: no findings.''
      else ''Migration safety check: '' @ int_str total_findings @ '' finding(s):'' @ [CHR 0x0A] @ py_join [CHR 0x0A] lines)"

text \<open>\<open>main\<close>: what it prints, and the exit status.\<close>

definition main_check :: "bool \<Rightarrow> string \<Rightarrow> entry list option \<Rightarrow> exn + string list \<times> int" where
  "main_check strict dir es =
     (if es = None then Inr ([''Migrations directory not found: '' @ dir], 1)
      else case check_migrations_directory dir es of
        Inl e \<Rightarrow> Inl e
      | Inr results \<Rightarrow>
          let total_findings = sum_list (map (\<lambda>r. int (length (chk_findings r))) results) in
          if strict \<and> total_findings > 0
          then Inr ([format_findings results, [CHR 0x0A] @ ''Strict mode: failing with '' @ int_str total_findings @ '' finding(s).''], 1)
          else if total_findings > 0
          then Inr ([format_findings results, [CHR 0x0A] @ ''Advisory mode: findings reported but not blocking.''], 0)
          else Inr ([format_findings results], 0))"

section \<open>What the patterns mean on strings\<close>

lemma prefix_drop_Cons: "prefix (c # w) (drop i s) \<longleftrightarrow> i < length s \<and> s ! i = c \<and> prefix w (drop (Suc i) s)"
  by (cases "i < length s") (auto simp: Cons_nth_drop_Suc [symmetric])

lemma runs_lit: "runs (lit w) s i = (if prefix w (drop i s) then [(i + length w, [])] else [])"
  by (induction w arbitrary: i rule: lit.induct) (simp_all add: prefix_drop_Cons)

lemma ends_lit: "ends (lit w) s i = (if prefix w (drop i s) then {i + length w} else {})"
  by (simp add: ends_def runs_lit)

lemma runs_Cat_lit:
  "runs (Cat (lit w) r) s i = (if prefix w (drop i s) then runs r s (i + length w) else [])"
  by (simp add: runs_lit map_idI)

lemma re_search_None_iff: "re_search r s i = None \<longleftrightarrow> (\<forall>k. i \<le> k \<longrightarrow> k \<le> length s \<longrightarrow> runs r s k = [])"
  by (simp add: re_search_iff ends_def)

section \<open>The body of upgrade\<close>

text \<open>A position at which the body stops: a line that begins another definition, or the end.\<close>

definition body_stop :: "string \<Rightarrow> nat \<Rightarrow> bool" where
  "body_stop s p \<longleftrightarrow> p = length s \<or> (at_line s p \<and> prefix ''def '' (drop p s))"

lemma concat_map_first:
  assumes "concat (map f [0..<b]) \<noteq> []"
  shows "\<exists>j < b. f j \<noteq> [] \<and> (\<forall>k < j. f k = []) \<and> hd (concat (map f [0..<b])) = hd (f j)"
proof -
  let ?P = "\<lambda>j. j < b \<and> f j \<noteq> []"
  from assms obtain j where j: "?P j" by auto
  define k where "k = (LEAST j. ?P j)"
  have k: "?P k" unfolding k_def by (rule LeastI [of ?P, OF j])
  have least: "f i = []" if "i < k" for i
    using not_less_Least [of i ?P] that k unfolding k_def by fastforce
  have "[0..<b] = [0..<k] @ [k..<b]" using k upt_add_eq_append [of 0 k "b - k"] by simp
  also have "[k..<b] = k # [Suc k..<b]" using k by (simp add: upt_conv_Cons)
  finally have "concat (map f [0..<b]) = concat (map f [0..<k]) @ f k @ concat (map f [Suc k..<b])" by simp
  moreover have "concat (map f [0..<k]) = []" using least by auto
  ultimately have "hd (concat (map f [0..<b])) = hd (f k)" using k by simp
  with k least show ?thesis by blast
qed

abbreviation stop_re :: re where
  "stop_re \<equiv> Look (Alt (seq [At at_line, lit ''def '']) (At at_end))"

lemma runs_stop: "p \<le> length s \<Longrightarrow> runs stop_re s p = (if body_stop s p then [(p, [])] else [])"
  by (auto simp: body_stop_def at_end_def runs_lit simp del: lit.simps)

lemma reach_any [simp]: "reach c_any s i = length s - i"
  by (simp add: reach_def takeWhile_eq_all_conv [THEN iffD2])

lemma body_runs:
  assumes i: "i \<le> length s" and t: "\<And>p. p \<le> length s \<Longrightarrow> runs t s p = (if P p then [(p, [])] else [])" and P: "P (length s)"
  obtains e where "i \<le> e" "e \<le> length s" "P e" "\<And>p. i \<le> p \<Longrightarrow> p < e \<Longrightarrow> \<not> P p"
    "runs (Cat (Grp 1 (Lazy c_any)) t) s i \<noteq> []" "hd (runs (Cat (Grp 1 (Lazy c_any)) t) s i) = (e, [(1, i, e)])"
proof -
  let ?f = "\<lambda>j. if P (i + j) then [(i + j, [(1::nat, i, i + j)])] else []"
  have "runs (Cat (Grp 1 (Lazy c_any)) t) s i =
      concat (map (\<lambda>j. map (\<lambda>(k, d). (k, (1, i, i + j) # d)) (runs t s (i + j))) [0..<Suc (length s - i)])"
    by (simp add: comp_def case_prod_beta del: upt_Suc)
  also have "\<dots> = concat (map ?f [0..<Suc (length s - i)])"
    using i by (intro arg_cong [where f = concat] map_cong refl) (auto simp: t)
  finally have eq: "runs (Cat (Grp 1 (Lazy c_any)) t) s i = concat (map ?f [0..<Suc (length s - i)])" .
  have "?f (length s - i) \<noteq> []" using i P by simp
  then have "concat (map ?f [0..<Suc (length s - i)]) \<noteq> []" by auto
  from concat_map_first [OF this] obtain j where j: "j < Suc (length s - i)" "?f j \<noteq> []" "\<forall>k < j. ?f k = []"
    "hd (concat (map ?f [0..<Suc (length s - i)])) = hd (?f j)" by blast
  show thesis
  proof (rule that [of "i + j"])
    show "P (i + j)" using j(2) by (simp split: if_splits)
    then show "hd (runs (Cat (Grp 1 (Lazy c_any)) t) s i) = (i + j, [(1, i, i + j)])" unfolding eq j(4) by simp
    show "\<not> P p" if "i \<le> p" "p < i + j" for p
    proof -
      have "p - i < j" using that by arith
      with j(3) that show ?thesis by (auto split: if_splits)
    qed
    show "runs (Cat (Grp 1 (Lazy c_any)) t) s i \<noteq> []" unfolding eq by fact
  qed (use j(1) i in auto)
qed

text \<open>The lazy header: up to the first colon that ends a line.\<close>

lemma header_runs:
  assumes "i \<le> length s" "\<And>j. j \<le> length s \<Longrightarrow> runs t s j \<noteq> []"
  shows "runs (Cat (Lazy c_any) (Cat (lit w) t)) s i = [] \<longleftrightarrow> \<not> (\<exists>h. i \<le> h \<and> prefix w (drop h s))"
    and "runs (Cat (Lazy c_any) (Cat (lit w) t)) s i \<noteq> [] \<Longrightarrow>
      \<exists>h \<ge> i. prefix w (drop h s) \<and> (\<forall>p. i \<le> p \<longrightarrow> p < h \<longrightarrow> \<not> prefix w (drop p s)) \<and>
        hd (runs (Cat (Lazy c_any) (Cat (lit w) t)) s i) = hd (runs t s (h + length w))"
proof -
  let ?r = "Cat (Lazy c_any) (Cat (lit w) t)"
  let ?f = "\<lambda>j. if prefix w (drop (i + j) s) then runs t s (i + j + length w) else []"
  have eq: "runs ?r s i = concat (map ?f [0..<Suc (length s - i)])"
    by (simp add: comp_def case_prod_beta runs_lit if_distrib cong: if_cong del: upt_Suc)
  have fits: "h + length w \<le> length s" if "prefix w (drop h s)" "h \<le> length s" for h
    using prefix_length_le [OF that(1)] that(2) by simp
  have ne: "?f j \<noteq> [] \<longleftrightarrow> prefix w (drop (i + j) s)" if "j < Suc (length s - i)" for j
    using assms(2) fits [of "i + j"] that assms(1) by auto
  show "runs ?r s i = [] \<longleftrightarrow> \<not> (\<exists>h. i \<le> h \<and> prefix w (drop h s))"
  proof
    assume "runs ?r s i = []"
    then have "\<forall>y \<in> set (map ?f [0..<Suc (length s - i)]). y = []" unfolding eq concat_eq_Nil_conv .
    then have "?f j = []" if "j < Suc (length s - i)" for j using that by (simp del: upt_Suc)
    then have no: "\<not> prefix w (drop (i + j) s)" if "j \<le> length s - i" for j using ne [of j] that by simp
    show "\<not> (\<exists>h. i \<le> h \<and> prefix w (drop h s))"
    proof clarify
      fix h assume h: "i \<le> h" "prefix w (drop h s)"
      show False
      proof (cases "h \<le> length s")
        case True
        then have "h - i \<le> length s - i" by simp
        with no [of "h - i"] h show False by simp
      next
        case False
        with h(2) have "w = []" by simp
        with no [of 0] show False by simp
      qed
    qed
  next
    assume "\<not> (\<exists>h. i \<le> h \<and> prefix w (drop h s))"
    then show "runs ?r s i = []" unfolding eq by auto
  qed
  assume "runs ?r s i \<noteq> []"
  then have "concat (map ?f [0..<Suc (length s - i)]) \<noteq> []" unfolding eq .
  from concat_map_first [OF this] obtain j where j: "j < Suc (length s - i)" "?f j \<noteq> []" "\<forall>k < j. ?f k = []"
    "hd (runs ?r s i) = hd (?f j)" unfolding eq by blast
  show "\<exists>h \<ge> i. prefix w (drop h s) \<and> (\<forall>p. i \<le> p \<longrightarrow> p < h \<longrightarrow> \<not> prefix w (drop p s)) \<and>
      hd (runs ?r s i) = hd (runs t s (h + length w))"
  proof (intro exI [of _ "i + j"] conjI allI impI)
    show "prefix w (drop (i + j) s)" using ne j(1,2) by blast
    then show "hd (runs ?r s i) = hd (runs t s (i + j + length w))" unfolding j(4) by simp
    show "\<not> prefix w (drop p s)" if "i \<le> p" "p < i + j" for p
      using j(3) [rule_format, of "p - i"] ne [of "p - i"] that j(1) by auto
  qed simp
qed

text \<open>\<open>def upgrade()\<close> at the start of a line, whose header ends with a colon before the newline at \<open>h\<close>.\<close>

definition header_at :: "string \<Rightarrow> nat \<Rightarrow> nat \<Rightarrow> bool" where
  "header_at s k h \<longleftrightarrow> at_line s k \<and> prefix ''def upgrade()'' (drop k s) \<and> k + 13 \<le> h \<and> prefix ('':'' @ [CHR 0x0A]) (drop h s)"

definition body_between :: "string \<Rightarrow> nat \<Rightarrow> nat \<Rightarrow> nat \<Rightarrow> bool" where
  "body_between s k h e \<longleftrightarrow> header_at s k h \<and> (\<forall>p < h. \<not> header_at s k p) \<and>
     h + 2 \<le> e \<and> e \<le> length s \<and> body_stop s e \<and> (\<forall>p. h + 2 \<le> p \<longrightarrow> p < e \<longrightarrow> \<not> body_stop s p)"

abbreviation group_re :: re where
  "group_re \<equiv> Cat (Grp 1 (Lazy c_any)) stop_re"

lemma group_runs:
  assumes "i \<le> length s"
  obtains e where "i \<le> e" "e \<le> length s" "body_stop s e" "\<forall>p. i \<le> p \<longrightarrow> p < e \<longrightarrow> \<not> body_stop s p"
    "runs group_re s i \<noteq> []" "hd (runs group_re s i) = (e, [(1, i, e)])"
  by (rule body_runs [OF assms runs_stop]) (auto simp: body_stop_def)

lemma upgrade_runs:
  assumes "k \<le> length s"
  shows "runs UPGRADE_RE s k \<noteq> [] \<longleftrightarrow> (\<exists>h. header_at s k h)"
    and "runs UPGRADE_RE s k \<noteq> [] \<Longrightarrow> \<exists>h e. body_between s k h e \<and> hd (runs UPGRADE_RE s k) = (e, [(1, h + 2, e)])"
proof -
  define t where "t = Cat (Lazy c_any) (Cat (lit ('':'' @ [CHR 0x0A])) group_re)"
  define H where "H \<longleftrightarrow> prefix ''def upgrade()'' (drop k s)"
  define C where "C h \<longleftrightarrow> prefix ('':'' @ [CHR 0x0A]) (drop h s)" for h
  have re: "UPGRADE_RE = Cat (At at_line) (Cat (lit ''def upgrade()'') t)"
    by (simp only: UPGRADE_RE_def seq.simps t_def)
  have header: "header_at s k h \<longleftrightarrow> at_line s k \<and> H \<and> k + 13 \<le> h \<and> C h" for h
    by (simp only: header_at_def H_def C_def)
  have split: "runs UPGRADE_RE s k = (if at_line s k \<and> H then runs t s (k + 13) else [])"
    unfolding re H_def runs.simps(5) [of "At at_line"] runs.simps(8)
    by (simp add: runs_Cat_lit eval_nat_numeral del: lit.simps runs.simps(5))
  have group: "runs group_re s j \<noteq> []" if "j \<le> length s" for j
    using group_runs [OF that] by metis
  have len: "k + 13 \<le> length s" if H
    using prefix_length_le [OF that [unfolded H_def]] assms by simp
  have t: "runs t s (k + 13) = [] \<longleftrightarrow> \<not> (\<exists>h. k + 13 \<le> h \<and> C h)" if H
    unfolding t_def C_def by (rule header_runs(1) [OF len [OF that] group])
  then show "runs UPGRADE_RE s k \<noteq> [] \<longleftrightarrow> (\<exists>h. header_at s k h)"
    unfolding split header by auto
  assume ne: "runs UPGRADE_RE s k \<noteq> []"
  then have pre: "at_line s k" H and ne_t: "runs t s (k + 13) \<noteq> []"
    unfolding split by (auto split: if_splits)
  from header_runs(2) [OF len [OF pre(2)] group ne_t [unfolded t_def], folded t_def C_def] obtain h where h: "k + 13 \<le> h" "C h"
    "\<forall>p. k + 13 \<le> p \<longrightarrow> p < h \<longrightarrow> \<not> C p" "hd (runs t s (k + 13)) = hd (runs group_re s (h + length ('':'' @ [CHR 0x0A])))" by blast
  have len_h: "h + length ('':'' @ [CHR 0x0A]) = h + 2" by simp
  have "h + 2 \<le> length s" using prefix_length_le [OF h(2) [unfolded C_def]] by simp
  then obtain e where e: "h + 2 \<le> e" "e \<le> length s" "body_stop s e" "\<forall>p. h + 2 \<le> p \<longrightarrow> p < e \<longrightarrow> \<not> body_stop s p"
    "runs group_re s (h + 2) \<noteq> []" "hd (runs group_re s (h + 2)) = (e, [(1, h + 2, e)])" by (rule group_runs)
  have "body_between s k h e" unfolding body_between_def header using pre h(1-3) e(1-4) by blast
  moreover have "hd (runs UPGRADE_RE s k) = (e, [(1, h + 2, e)])" using pre h(4) [unfolded len_h] e(6) by (simp only: split simp_thms if_True)
  ultimately show "\<exists>h e. body_between s k h e \<and> hd (runs UPGRADE_RE s k) = (e, [(1, h + 2, e)])" by blast
qed

lemma find_first: "find P [0..<n] = Some k \<longleftrightarrow> k < n \<and> P k \<and> (\<forall>j < k. \<not> P j)"
  by (auto simp: find_Some_iff)

lemma extract_upgrade_body_None: "extract_upgrade_body s = None \<longleftrightarrow> \<not> (\<exists>k \<le> length s. \<exists>h. header_at s k h)"
proof (cases "re_search UPGRADE_RE s 0")
  case None
  then have "\<not> header_at s k h" if "k \<le> length s" for k h
    using that upgrade_runs(1) [OF that] unfolding re_search_None_iff by auto
  with None show ?thesis by (auto simp: extract_upgrade_body_def)
next
  case (Some m)
  note m = re_searchE [OF Some]
  from upgrade_runs(2) [OF m(2,3)] m(4) obtain h e where b: "body_between s (m_start m) h e" "m_caps m = [(1, h + 2, e)]" by auto
  then have "extract_upgrade_body s \<noteq> None" by (simp add: extract_upgrade_body_def Some m_span_def)
  with b m(2) show ?thesis by (auto simp: body_between_def)
qed

lemma extract_upgrade_body_Some:
  assumes "extract_upgrade_body s = Some body"
  obtains k h e where "body_between s k h e" "body = py_slice s (h + 2) e" "\<And>j p. j < k \<Longrightarrow> \<not> header_at s j p"
proof -
  from assms obtain m where m: "re_search UPGRADE_RE s 0 = Some m" by (auto simp: extract_upgrade_body_def split: option.splits)
  note r = re_searchE [OF m]
  from upgrade_runs(2) [OF r(2,3)] r(4) obtain h e where b: "body_between s (m_start m) h e" "m_caps m = [(1, h + 2, e)]" by auto
  have "find (\<lambda>k. runs UPGRADE_RE s k \<noteq> []) [0..<Suc (length s)] = Some (m_start m)"
    using m by (auto simp: re_search_def split: option.splits prod.splits)
  then have "\<not> header_at s j p" if "j < m_start m" for j p
    using that upgrade_runs(1) [of j s] r(2) unfolding find_first by auto
  moreover have "body = py_slice s (h + 2) e" using assms m b(2) by (simp add: extract_upgrade_body_def m_span_def)
  ultimately show thesis using b(1) that by blast
qed

section \<open>Calls\<close>

text \<open>\<open>name(\<close> with spaces before the parenthesis, at a position.\<close>

definition is_call :: "string \<Rightarrow> string \<Rightarrow> nat \<Rightarrow> bool" where
  "is_call name s k \<longleftrightarrow> prefix name (drop k s) \<and> prefix ''('' (dropWhile is_space (drop (k + length name) s))"

definition call_end :: "string \<Rightarrow> string \<Rightarrow> nat \<Rightarrow> nat" where
  "call_end name s k = k + length name + reach is_space s (k + length name) + 1"

lemma dropWhile_reach: "dropWhile p (drop i s) = drop (i + reach p s i) s"
  by (simp add: reach_def dropWhile_eq_drop add.commute)

lemma reach_nth: "j < reach p s i \<Longrightarrow> p (s ! (i + j))"
  using takeWhile_nth [of j p "drop i s"] nth_mem [of j "takeWhile p (drop i s)"] length_takeWhile_le [of p "drop i s"]
  by (fastforce simp: reach_def dest: set_takeWhileD)

lemma runs_call: "runs (call_re name) s k = (if is_call name s k then [(call_end name s k, [])] else [])"
proof -
  let ?i = "k + length name" let ?r = "reach is_space s ?i"
  have space: "\<not> is_space (CHR ''('')" by (simp add: is_space_def Let_def)
  have no: "runs (lit ''('') s (?i + j) = []" if "j < ?r" for j
    using reach_nth [OF that] space by (auto simp: runs_lit prefix_drop_Cons simp del: lit.simps)
  have "runs (Cat blanks (lit ''('')) s ?i = concat (map (\<lambda>j. runs (lit ''('') s (?i + j)) (rev [0..<Suc ?r]))"
    by (simp add: comp_def Let_def map_idI del: upt_Suc lit.simps)
  also have "\<dots> = runs (lit ''('') s (?i + ?r) @ concat (map (\<lambda>j. runs (lit ''('') s (?i + j)) (rev [0..<?r]))"
    by (simp del: lit.simps)
  also have "concat (map (\<lambda>j. runs (lit ''('') s (?i + j)) (rev [0..<?r])) = []" using no by simp
  finally have "runs (Cat blanks (lit ''('')) s ?i = (if prefix ''('' (drop (?i + ?r) s) then [(?i + ?r + 1, [])] else [])"
    by (simp add: runs_lit del: lit.simps)
  then show ?thesis
    unfolding call_re_def seq.simps runs_Cat_lit is_call_def call_end_def dropWhile_reach by simp
qed

text \<open>A name none of whose ends is one of its beginnings: two calls of it cannot overlap.\<close>

definition no_border :: "string \<Rightarrow> bool" where
  "no_border name \<longleftrightarrow> name \<noteq> [] \<and> \<not> is_space (hd name) \<and> hd name \<noteq> CHR ''('' \<and>
     list_all (\<lambda>t. t = [] \<or> \<not> prefix t name) (suffixes (tl name))"

lemma is_call_length: "is_call name s k \<Longrightarrow> k + length name < length s"
  by (cases "k + length name < length s") (auto simp: is_call_def dest: prefix_length_le)

lemma calls_apart:
  assumes "no_border name" "is_call name s k" "k < k'" "k' < call_end name s k"
  shows "\<not> is_call name s k'"
proof
  let ?i = "k + length name"
  assume c': "is_call name s k'"
  have ne: "name \<noteq> []" using assms(1) by (simp add: no_border_def)
  have hd: "hd name = s ! k'"
    using c' ne is_call_length [OF c'] by (cases name) (auto simp: is_call_def prefix_drop_Cons)
  have call: "is_call name s k" by fact
  consider "k' < ?i" | "?i \<le> k'" "k' < ?i + reach is_space s ?i" | "k' = ?i + reach is_space s ?i"
    using assms(4) unfolding call_end_def by linarith
  then show False
  proof cases
    case 1
    define d where "d = k' - k"
    have d: "k' = k + d" "0 < d" "d < length name" using 1 assms(3) by (auto simp: d_def)
    from call obtain t where "drop k s = name @ t" by (auto simp: is_call_def prefix_def)
    then have "drop d (drop k s) = drop d name @ t" using d by simp
    then have "drop k' s = drop d name @ t" by (simp add: d(1) add.commute)
    moreover have "prefix name (drop k' s)" using c' by (simp add: is_call_def)
    ultimately have "prefix (drop d name) name" by (metis prefix_length_prefix prefixI length_drop diff_le_self)
    moreover have "drop d name = drop (d - 1) (tl name)" using d(2) by (simp add: drop_Suc [symmetric])
    then have "drop d name \<in> set (suffixes (tl name))" by (simp add: suffix_drop)
    moreover have "drop d name \<noteq> []" using d(3) by simp
    ultimately show False using assms(1) unfolding no_border_def list_all_iff by blast
  next
    case 2
    then have "is_space (s ! k')" using reach_nth [of "k' - ?i" is_space s ?i] by auto
    with assms(1) hd show False by (simp add: no_border_def)
  next
    case 3
    with call have "prefix ''('' (drop k' s)" by (simp add: is_call_def dropWhile_reach)
    then have "s ! k' = CHR ''(''" by (simp add: prefix_drop_Cons)
    with assms(1) hd show False by (simp add: no_border_def)
  qed
qed

definition calls :: "string \<Rightarrow> string \<Rightarrow> nat list" where
  "calls name s = filter (is_call name s) [0..<length s]"

lemma upt_split: "i \<le> j \<Longrightarrow> j \<le> k \<Longrightarrow> [i..<k] = [i..<j] @ [j..<k]"
  by (metis le_Suc_ex upt_add_eq_append)

lemma finditer_calls:
  assumes "no_border name"
  shows "map m_start (re_finditer (call_re name) s i) = filter (is_call name s) [i..<length s]"
proof (induction "call_re name" s i rule: re_finditer.induct)
  case (1 s i)
  show ?case
  proof (cases "re_search (call_re name) s i")
    case None
    then have "\<not> is_call name s k" if "i \<le> k" "k < length s" for k
      using that by (auto simp: re_search_None_iff runs_call split: if_splits)
    with None show ?thesis by (auto simp: re_finditer.simps filter_empty_conv)
  next
    case (Some m)
    note m = re_searchE [OF Some]
    then have call: "is_call name s (m_start m)" "m_end m = call_end name s (m_start m)"
      by (auto simp: runs_call split: if_splits)
    have first: "\<not> is_call name s k" if "i \<le> k" "k < m_start m" for k
    proof -
      have "find (\<lambda>k. runs (call_re name) s k \<noteq> []) [i..<Suc (length s)] = Some (m_start m)"
        using Some by (auto simp: re_search_def simp del: upt_Suc split: option.splits prod.splits)
      then obtain n where n: "n < Suc (length s) - i" "i + n = m_start m" "\<forall>j < n. runs (call_re name) s (i + j) = []"
        by (auto simp: find_Some_iff simp del: upt_Suc)
      have "k - i < n" "i + (k - i) = k" using that n(2) by auto
      with n(3) have "runs (call_re name) s k = []" by metis
      then show ?thesis by (auto simp: runs_call split: if_splits)
    qed
    have gt: "m_start m < m_end m" "m_start m < length s"
      using call is_call_length [OF call(1)] by (auto simp: call_end_def)
    then have next_i: "max (m_end m) (Suc (m_start m)) = m_end m" by simp
    have le: "m_end m \<le> length s" using re_search_bounds(1) [OF Some] by simp
    have "[i..<length s] = [i..<m_start m] @ m_start m # [Suc (m_start m)..<m_end m] @ [m_end m..<length s]"
      using m(1) gt le upt_split [of i "m_start m" "length s"] upt_split [of "Suc (m_start m)" "m_end m" "length s"]
      by (simp add: upt_conv_Cons)
    moreover have "filter (is_call name s) [i..<m_start m] = []" using first by (auto simp: filter_empty_conv)
    moreover have "filter (is_call name s) [Suc (m_start m)..<m_end m] = []"
      using calls_apart [OF assms call(1)] call(2) by (auto simp: filter_empty_conv Suc_le_eq)
    ultimately have "filter (is_call name s) [i..<length s] = m_start m # filter (is_call name s) [m_end m..<length s]"
      using call(1) by simp
    with 1 [OF Some] next_i show ?thesis by (subst re_finditer.simps) (simp add: Some)
  qed
qed

lemma op_names_no_border [simp]:
  "no_border ''op.create_index''" "no_border ''op.add_column''" "no_border ''op.drop_column''"
  "no_border ''op.drop_table''" "no_border ''op.execute''"
  by (simp_all add: no_border_def is_space_def Let_def)

lemma op_calls:
  "concat (map (\<lambda>m. f (m_start m)) (re_finditer (call_re name) s 0)) = concat (map f (calls name s))" if "no_border name"
proof -
  have "concat (map (\<lambda>m. f (m_start m)) ms) = concat (map f (map m_start ms))" for ms by (simp add: comp_def)
  then show ?thesis unfolding calls_def finditer_calls [OF that, symmetric] .
qed

section \<open>The checks, over the positions of the calls\<close>

definition line_at :: "string \<Rightarrow> string \<Rightarrow> nat \<Rightarrow> int" where
  "line_at content body k = get_line_number content (nat (py_find content body + int k))"

text \<open>What is reported for a call of \<open>name\<close> at \<open>k\<close>.\<close>

definition reported :: "string \<Rightarrow> string \<Rightarrow> string \<Rightarrow> nat \<Rightarrow> string option" where
  "reported content body name k =
     (if name = ''op.create_index'' then
        (if is_inside_create_table content (nat (py_find content body + int k)) \<or> found CONCURRENTLY_RE (stmt_text body k) then None
         else Some ''CREATE_INDEX_WITHOUT_CONCURRENTLY'')
      else if name = ''op.add_column'' then
        (if found NULLABLE_FALSE_RE (stmt_text body k) \<and> \<not> found SERVER_DEFAULT_RE (stmt_text body k)
         then Some ''ADD_COLUMN_NOT_NULL_NO_DEFAULT'' else None)
      else if name = ''op.drop_column'' then Some ''DROP_COLUMN''
      else if name = ''op.drop_table'' then Some ''DROP_TABLE''
      else if found DATA_MANIP_RE (stmt_text body k) then Some ''DML_IN_MIGRATION'' else None)"

definition op_names :: "string list" where
  "op_names = [''op.create_index'', ''op.add_column'', ''op.drop_column'', ''op.drop_table'', ''op.execute'']"

abbreviation located :: "Finding \<Rightarrow> string \<times> int" where
  "located f \<equiv> (fnd_pattern f, fnd_line f)"

definition report :: "string \<Rightarrow> string \<Rightarrow> string \<Rightarrow> nat \<Rightarrow> (string \<times> int) list" where
  "report content body name k =
     (case reported content body name k of None \<Rightarrow> [] | Some p \<Rightarrow> [(p, line_at content body k)])"

lemma located_mk [simp]: "located (mk_finding f l p m) = (p, l)"
  by (simp add: mk_finding_def)

lemma concat_located:
  assumes "\<And>m. map located (g m) = report s b name (m_start m)" "no_border name"
  shows "map located (concat (map g (re_finditer (call_re name) b 0))) = concat (map (report s b name) (calls name b))"
  unfolding map_concat map_map comp_def assms(1) by (rule op_calls [OF assms(2)])

lemma map_located:
  assumes "\<And>m. [located (g m)] = report s b name (m_start m)" "no_border name"
  shows "map located (map g (re_finditer (call_re name) b 0)) = concat (map (report s b name) (calls name b))"
proof -
  have "map located (map g ms) = map located (concat (map (\<lambda>m. [g m]) ms))" for ms by simp
  also have "map located (concat (map (\<lambda>m. [g m]) (re_finditer (call_re name) b 0))) =
      concat (map (report s b name) (calls name b))"
    by (rule concat_located [OF _ assms(2)]) (simp only: list.map assms(1))
  finally show ?thesis .
qed

lemmas report_defs = report_def reported_def line_at_def abs_pos_def

lemmas check_defs = check_create_index_without_concurrently_def check_add_column_not_null_def check_drop_operations_def
  check_data_manipulation_def CREATE_INDEX_RE_def ADD_COLUMN_RE_def DROP_COLUMN_RE_def DROP_TABLE_RE_def OP_EXECUTE_RE_def

lemma checks_located:
  "map located (check_create_index_without_concurrently s b f False) = concat (map (report s b ''op.create_index'') (calls ''op.create_index'' b))"
  "map located (check_add_column_not_null s b f False) = concat (map (report s b ''op.add_column'') (calls ''op.add_column'' b))"
  "map located (check_drop_operations s b f False) =
     concat (map (report s b ''op.drop_column'') (calls ''op.drop_column'' b)) @ concat (map (report s b ''op.drop_table'') (calls ''op.drop_table'' b))"
  "map located (check_data_manipulation s b f False) = concat (map (report s b ''op.execute'') (calls ''op.execute'' b))"
  unfolding check_defs if_False map_append
     apply (rule concat_located; simp add: report_defs Let_def)
    apply (rule concat_located; simp add: report_defs Let_def)
   apply (rule arg_cong2 [where f = append]; rule map_located; simp add: report_defs)
  apply (rule concat_located; simp add: report_defs)
  done

lemma check_text_located:
  "map located (chk_findings (check_text path s)) =
    (case extract_upgrade_body s of
       None \<Rightarrow> []
     | Some b \<Rightarrow> if found INITIAL_MIGRATION_RE s then []
         else concat (map (\<lambda>name. concat (map (report s b name) (calls name b))) op_names))"
proof (cases "extract_upgrade_body s")
  case (Some b)
  show ?thesis
  proof (cases "found INITIAL_MIGRATION_RE s")
    case True
    with Some show ?thesis by (simp add: check_text_def Let_def check_defs)
  next
    case False
    then have "chk_findings (check_text path s) = check_create_index_without_concurrently s b path False @
        check_add_column_not_null s b path False @ check_drop_operations s b path False @ check_data_manipulation s b path False"
      using Some by (simp only: check_text_def Let_def CheckResult.simps option.simps)
    with Some False show ?thesis by (simp only: map_append checks_located option.simps if_False) (simp add: op_names_def)
  qed
qed (simp add: check_text_def Let_def)

lemma mem_calls: "k \<in> set (calls name b) \<longleftrightarrow> is_call name b k"
  using is_call_length [of name b k] by (auto simp: calls_def)

lemma mem_report: "(p, l) \<in> set (report s b name k) \<longleftrightarrow> reported s b name k = Some p \<and> l = line_at s b k"
  by (auto simp: report_def split: option.split)

text \<open>A finding is there exactly for a call that is to be reported.\<close>

lemma check_text_iff:
  "(\<exists>f \<in> set (chk_findings (check_text path s)). located f = (p, l)) \<longleftrightarrow>
     \<not> found INITIAL_MIGRATION_RE s \<and>
     (\<exists>b name k. extract_upgrade_body s = Some b \<and> name \<in> set op_names \<and> is_call name b k \<and>
        reported s b name k = Some p \<and> l = line_at s b k)"
proof -
  have "(\<exists>f \<in> set (chk_findings (check_text path s)). located f = (p, l)) \<longleftrightarrow> (p, l) \<in> set (map located (chk_findings (check_text path s)))"
    by (auto simp: image_iff)
  also have "\<dots> \<longleftrightarrow> \<not> found INITIAL_MIGRATION_RE s \<and>
     (\<exists>b name k. extract_upgrade_body s = Some b \<and> name \<in> set op_names \<and> is_call name b k \<and>
        reported s b name k = Some p \<and> l = line_at s b k)"
  proof (cases "extract_upgrade_body s")
    case (Some b)
    show ?thesis unfolding check_text_located Some option.simps
      by (simp add: Bex_def mem_report mem_calls)
  qed (simp add: check_text_located)
  finally show ?thesis .
qed

lemma chk_file_text [simp]: "chk_file (check_text path s) = path" "chk_is_initial (check_text path s) \<longleftrightarrow> found INITIAL_MIGRATION_RE s"
  by (simp_all add: check_text_def Let_def)

section \<open>Words with spaces between them\<close>

fun spaced_re :: "string list \<Rightarrow> re" where
  "spaced_re [] = Eps"
| "spaced_re [w] = lit w"
| "spaced_re (w # ws) = Cat (lit w) (Cat blanks (spaced_re ws))"

fun words_at :: "string list \<Rightarrow> string \<Rightarrow> bool" where
  "words_at [] t = True"
| "words_at [w] t = prefix w t"
| "words_at (w # ws) t = (prefix w t \<and> words_at ws (dropWhile is_space (drop (length w) t)))"

definition occurs :: "string list \<Rightarrow> string \<Rightarrow> bool" where
  "occurs ws s \<longleftrightarrow> list_ex (\<lambda>k. words_at ws (drop k s)) [0..<Suc (length s)]"

lemma runs_spaced:
  "list_all (\<lambda>w. w \<noteq> [] \<and> \<not> is_space (hd w)) ws \<Longrightarrow> ws \<noteq> [] \<Longrightarrow>
     runs (spaced_re ws) s i \<noteq> [] \<longleftrightarrow> words_at ws (drop i s)"
proof (induction ws arbitrary: i rule: spaced_re.induct)
  case (2 w)
  then show ?case by (simp add: runs_lit)
next
  case (3 w v ws)
  let ?i = "i + length w"
  let ?r = "reach is_space s ?i"
  have no: "runs (spaced_re (v # ws)) s (?i + j) = []" if "j < ?r" for j
  proof (rule ccontr)
    assume "runs (spaced_re (v # ws)) s (?i + j) \<noteq> []"
    with 3 have w: "words_at (v # ws) (drop (?i + j) s)" by simp
    then have "prefix v (drop (?i + j) s)" by (cases ws) simp_all
    moreover obtain c cs where "v = c # cs" "\<not> is_space c" using 3(2) by (cases v) auto
    ultimately show False using reach_nth [OF that] by (auto simp: prefix_drop_Cons)
  qed
  have "runs (Cat blanks (spaced_re (v # ws))) s ?i \<noteq> [] \<longleftrightarrow> (\<exists>j \<le> ?r. runs (spaced_re (v # ws)) s (?i + j) \<noteq> [])"
    by (auto simp: Let_def less_Suc_eq_le simp del: upt_Suc spaced_re.simps)
  also have "\<dots> \<longleftrightarrow> runs (spaced_re (v # ws)) s (?i + ?r) \<noteq> []"
    using no by (metis le_eq_less_or_eq)
  finally have "runs (Cat blanks (spaced_re (v # ws))) s ?i \<noteq> [] \<longleftrightarrow> words_at (v # ws) (dropWhile is_space (drop ?i s))"
    using 3 by (simp add: dropWhile_reach)
  moreover have "drop (length w) (drop i s) = drop ?i s" by (simp add: add.commute)
  ultimately show ?case unfolding spaced_re.simps(3) runs_Cat_lit words_at.simps(3) by simp
qed simp

lemma found_spaced:
  "list_all (\<lambda>w. w \<noteq> [] \<and> \<not> is_space (hd w)) ws \<Longrightarrow> ws \<noteq> [] \<Longrightarrow> found (spaced_re ws) s \<longleftrightarrow> occurs ws s"
  unfolding found_def occurs_def re_search_None_iff list_ex_iff using runs_spaced [of ws s]
  by (auto simp: less_Suc_eq_le simp del: upt_Suc)

lemma options_found [simp]:
  "found CONCURRENTLY_RE s \<longleftrightarrow> occurs [''postgresql_concurrently'', ''='', ''True''] s"
  "found NULLABLE_FALSE_RE s \<longleftrightarrow> occurs [''nullable'', ''='', ''False''] s"
  "found SERVER_DEFAULT_RE s \<longleftrightarrow> occurs [''server_default'', ''=''] s"
  unfolding CONCURRENTLY_RE_def NULLABLE_FALSE_RE_def SERVER_DEFAULT_RE_def
  by (subst found_spaced [symmetric]; simp add: is_space_def Let_def del: lit.simps)+

section \<open>Lines\<close>

lemma py_find_le:
  assumes "prefix t (drop k s)" "k \<le> length s"
  shows "0 \<le> py_find s t" "py_find s t \<le> int k"
proof -
  obtain j where j: "find (\<lambda>k. prefix t (drop k s)) [0..<Suc (length s)] = Some j"
    using assms by (cases "find (\<lambda>k. prefix t (drop k s)) [0..<Suc (length s)]") (auto simp: find_None_iff less_Suc_eq_le simp del: upt_Suc)
  with assms(1) have "j \<le> k" unfolding find_first by (meson not_le)
  with j show "0 \<le> py_find s t" "py_find s t \<le> int k" by (simp_all add: py_find_def)
qed

lemma prefix_slice: "prefix (py_slice s i j) (drop i s)"
  by (simp add: py_slice_def take_is_prefix)

lemma get_line_number_mono: "i \<le> j \<Longrightarrow> get_line_number s i \<le> get_line_number s j"
proof -
  assume "i \<le> j"
  then have "take j s = take i s @ take (j - i) (drop i s)" by (metis take_add le_Suc_ex diff_add_inverse)
  then show ?thesis by (simp add: get_line_number_def py_count_def)
qed

lemma get_line_number_bounds: "1 \<le> get_line_number s i \<and> get_line_number s i \<le> py_count s (CHR 0x0A) + 1"
proof -
  have "get_line_number s i \<le> get_line_number s (max i (length s))" by (rule get_line_number_mono) simp
  then show ?thesis by (simp add: get_line_number_def py_count_def)
qed

text \<open>The line reported for a call at \<open>k\<close> of the body, when the body begins at \<open>i\<close>.\<close>

lemma line_at_le:
  assumes "body = py_slice s i e" "i \<le> length s"
  shows "line_at s body k \<le> get_line_number s (i + k)"
    and "py_find s body = int i \<Longrightarrow> line_at s body k = get_line_number s (i + k)"
proof -
  have "prefix body (drop i s)" using assms(1) prefix_slice by simp
  note f = py_find_le [OF this assms(2)]
  then show "line_at s body k \<le> get_line_number s (i + k)"
    unfolding line_at_def by (intro get_line_number_mono) linarith
  show "line_at s body k = get_line_number s (i + k)" if "py_find s body = int i"
    unfolding line_at_def that by (simp add: nat_add_distrib)
qed

lemma nth_slice_drop: "i \<le> e \<Longrightarrow> e \<le> length s \<Longrightarrow> k \<le> e - i \<Longrightarrow> prefix (drop k (py_slice s i e)) (drop (i + k) s)"
  by (simp add: py_slice_def drop_take add.commute take_is_prefix)

section \<open>Statements\<close>

lemma close_scan_iff:
  "close_scan d s i = Some e \<longleftrightarrow> (\<exists>n < length s. e = i + n + 1 \<and> s ! n = CHR '')'' \<and> d + depth (take (n + 1) s) = 0 \<and>
     (\<forall>m < n. s ! m = CHR '')'' \<longrightarrow> d + depth (take (m + 1) s) \<noteq> 0))"
proof (induction s arbitrary: d i)
  case (Cons c s)
  let ?v = "if c = CHR ''('' then 1 else if c = CHR '')'' then -1 else 0 :: int"
  have shift: "(\<exists>n < length (c # s). e = i + n + 1 \<and> (c # s) ! n = CHR '')'' \<and> d + depth (take (n + 1) (c # s)) = 0 \<and>
      (\<forall>m < n. (c # s) ! m = CHR '')'' \<longrightarrow> d + depth (take (m + 1) (c # s)) \<noteq> 0)) \<longleftrightarrow>
    (c = CHR '')'' \<and> d - 1 = 0 \<and> e = Suc i) \<or>
    (\<not> (c = CHR '')'' \<and> d - 1 = 0) \<and>
     (\<exists>n < length s. e = Suc i + n + 1 \<and> s ! n = CHR '')'' \<and> (d + ?v) + depth (take (n + 1) s) = 0 \<and>
      (\<forall>m < n. s ! m = CHR '')'' \<longrightarrow> (d + ?v) + depth (take (m + 1) s) \<noteq> 0)))"
    by (subst Ex_less_Suc2 [of "length s", folded length_Cons [of c s]], subst All_less_Suc2) (auto simp: algebra_simps)
  show ?case unfolding shift using Cons.IH [of "d + ?v" "Suc i"] by (auto simp: algebra_simps)
qed simp

lemma depth_append [simp]: "depth (s @ t) = depth s + depth t"
  by (induction s) auto

text \<open>A statement that is found is balanced, and no shorter piece that ends with a parenthesis is.\<close>

lemma stmt_text_balanced:
  assumes "stmt_text body k \<noteq> []"
  shows "depth (stmt_text body k) = 0" "last (stmt_text body k) = CHR '')''" "prefix (stmt_text body k) (drop k body)"
    and "strict_prefix t (stmt_text body k) \<Longrightarrow> t \<noteq> [] \<Longrightarrow> last t = CHR '')'' \<Longrightarrow> depth t \<noteq> 0"
proof -
  let ?s = "drop k body"
  obtain e where e: "close_scan 0 ?s k = Some e"
    using assms by (cases "close_scan 0 ?s k") (auto simp: stmt_text_def py_slice_def)
  then obtain n where n: "n < length ?s" "e = k + n + 1" "?s ! n = CHR '')''" "depth (take (n + 1) ?s) = 0"
    "\<forall>m < n. ?s ! m = CHR '')'' \<longrightarrow> depth (take (m + 1) ?s) \<noteq> 0"
    unfolding close_scan_iff by auto
  have st: "stmt_text body k = take (n + 1) ?s" by (simp add: stmt_text_def e py_slice_def n(2))
  then show "depth (stmt_text body k) = 0" "prefix (stmt_text body k) ?s" using n(4) by (simp_all add: take_is_prefix)
  show "last (stmt_text body k) = CHR '')''" unfolding st using n(1,3) by (simp add: take_Suc_conv_app_nth)
  assume t: "strict_prefix t (stmt_text body k)" "t \<noteq> []" "last t = CHR '')''"
  then have "length t < n + 1" using n(1) unfolding st by (auto dest: prefix_length_less)
  moreover have "t = take (length t) ?s"
    using t(1) unfolding st by (metis strict_prefix_def prefix_def append_eq_conv_conj append_assoc append_take_drop_id)
  ultimately obtain m where m: "m < n" "t = take (m + 1) ?s"
    using t(2) by (cases "length t") auto
  then have "?s ! m = last t" using n(1) by (simp add: take_Suc_conv_app_nth)
  with n(5) m t(3) show "depth t \<noteq> 0" by auto
qed

section \<open>The command\<close>

lemma check_files_iff:
  "check_files dir fs = Inr rs \<longleftrightarrow>
     list_all2 (\<lambda>f r. check_migration_file dir f = Inr r) (filter (\<lambda>f. ent_name f \<noteq> ''__pycache__'') fs) rs"
proof (induction fs arbitrary: rs)
  case (Cons f fs)
  show ?case
    by (cases "check_migration_file dir f"; cases "check_files dir fs") (auto simp: list_all2_Cons1 Cons.IH [symmetric])
qed auto

lemma main_check_exit:
  assumes "main_check strict dir (Some es) = Inr (out, c)"
  obtains rs where "check_migrations_directory dir (Some es) = Inr rs"
    "c = (if strict \<and> (\<exists>r \<in> set rs. chk_findings r \<noteq> []) then 1 else 0)"
proof -
  from assms obtain rs where rs: "check_migrations_directory dir (Some es) = Inr rs"
    by (auto simp: main_check_def split: sum.splits)
  have "sum_list (map (\<lambda>r. int (length (chk_findings r))) rs) = int (length (concat (map chk_findings rs)))"
    by (induction rs) auto
  then have "sum_list (map (\<lambda>r. int (length (chk_findings r))) rs) > 0 \<longleftrightarrow> (\<exists>r \<in> set rs. chk_findings r \<noteq> [])"
    by auto
  with assms rs have "c = (if strict \<and> (\<exists>r \<in> set rs. chk_findings r \<noteq> []) then 1 else 0)"
    by (auto simp: main_check_def Let_def split: if_splits)
  with rs show thesis by (rule that)
qed

text \<open>Which findings a file has, pattern by pattern.\<close>

lemma check_text_patterns:
  assumes "extract_upgrade_body s = Some b" "\<not> found INITIAL_MIGRATION_RE s"
  shows "p \<in> fnd_pattern ` set (chk_findings (check_text path s)) \<longleftrightarrow>
    (\<exists>name \<in> set op_names. \<exists>k. is_call name b k \<and> reported s b name k = Some p)"
proof -
  have "p \<in> fnd_pattern ` set (chk_findings (check_text path s)) \<longleftrightarrow>
      (\<exists>l. \<exists>f \<in> set (chk_findings (check_text path s)). located f = (p, l))" by auto
  then show ?thesis unfolding check_text_iff using assms by auto
qed

lemma check_text_clean:
  assumes "found INITIAL_MIGRATION_RE s \<or> extract_upgrade_body s = None"
  shows "chk_findings (check_text path s) = []"
proof -
  have "map located (chk_findings (check_text path s)) = []"
    unfolding check_text_located using assms by (auto split: option.split)
  then show ?thesis by simp
qed

text \<open>Where the findings are.\<close>

lemma check_text_line:
  assumes "f \<in> set (chk_findings (check_text path s))"
  obtains b k h e j name where "extract_upgrade_body s = Some b" "body_between s k h e" "b = py_slice s (h + 2) e"
    "name \<in> set op_names" "is_call name b j" "reported s b name j = Some (fnd_pattern f)"
    "fnd_line f \<le> get_line_number s (h + 2 + j)" "py_find s b = int (h + 2) \<Longrightarrow> fnd_line f = get_line_number s (h + 2 + j)"
proof -
  have "\<exists>g \<in> set (chk_findings (check_text path s)). located g = (fnd_pattern f, fnd_line f)" using assms by auto
  then obtain b name j where b: "extract_upgrade_body s = Some b" "name \<in> set op_names" "is_call name b j"
    "reported s b name j = Some (fnd_pattern f)" "fnd_line f = line_at s b j"
    unfolding check_text_iff by blast
  from extract_upgrade_body_Some [OF b(1)] obtain k h e where e: "body_between s k h e" "b = py_slice s (h + 2) e" by metis
  then have "h + 2 \<le> length s" by (simp add: body_between_def)
  from line_at_le [OF e(2) this] show thesis using b e by (intro that) auto
qed

lemma check_text_file: "f \<in> set (chk_findings (check_text path s)) \<Longrightarrow> fnd_file f = path \<and> fnd_severity f = ''warning''"
  by (auto simp: check_text_def Let_def check_defs mk_finding_def split: option.splits if_splits)

section \<open>Two files\<close>

text \<open>The text of the body also stands earlier in the file: the line reported is the earlier one.\<close>

definition repeated_body :: string where
  "repeated_body = ''def old():'' @ [CHR 0x0A] @ '' op.drop_table(t)'' @ [CHR 0x0A] @
     ''def upgrade():'' @ [CHR 0x0A] @ '' op.drop_table(t)'' @ [CHR 0x0A]"

lemma repeated_body_line:
  "map located (chk_findings (check_text ''f'' repeated_body)) = [(''DROP_TABLE'', 2)]"
  by code_simp

text \<open>An opening parenthesis in a string keeps the statement from closing, and the call from being checked.\<close>

definition open_paren :: string where
  "open_paren = ''def upgrade():'' @ [CHR 0x0A] @ '' op.add_column(t, c(nullable=False, comment='' @ [CHR 0x27, CHR ''('', CHR 0x27] @ ''))'' @ [CHR 0x0A]"

lemma open_paren_missed: "chk_findings (check_text ''f'' open_paren) = []"
  by code_simp

text \<open>The rules, written out.\<close>

lemma reported_if:
  "(\<exists>name \<in> set op_names. is_call name b k \<and> reported s b name k = Some p) \<longleftrightarrow>
    (if p = ''CREATE_INDEX_WITHOUT_CONCURRENTLY'' then is_call ''op.create_index'' b k \<and>
       \<not> (is_inside_create_table s (nat (py_find s b + int k)) \<or>
          occurs [''postgresql_concurrently'', ''='', ''True''] (stmt_text b k))
     else if p = ''ADD_COLUMN_NOT_NULL_NO_DEFAULT'' then is_call ''op.add_column'' b k \<and>
       occurs [''nullable'', ''='', ''False''] (stmt_text b k) \<and> \<not> occurs [''server_default'', ''=''] (stmt_text b k)
     else if p = ''DROP_COLUMN'' then is_call ''op.drop_column'' b k
     else if p = ''DROP_TABLE'' then is_call ''op.drop_table'' b k
     else p = ''DML_IN_MIGRATION'' \<and> is_call ''op.execute'' b k \<and> found DATA_MANIP_RE (stmt_text b k))"
  by (auto simp: op_names_def reported_def)

lemma check_files_findings:
  assumes "check_files dir fs = Inr rs"
  shows "(\<exists>r \<in> set rs. chk_findings r \<noteq> []) \<longleftrightarrow> (\<exists>f \<in> set fs. \<exists>s. ent_name f \<noteq> ''__pycache__'' \<and> ent_read f = Inr s \<and>
      chk_findings (check_text (dir @ ''/'' @ ent_name f) s) \<noteq> [])"
  using assms
proof (induction fs arbitrary: rs)
  case (Cons f fs)
  then show ?case by (auto simp: check_migration_file_def split: if_splits sum.splits)
qed simp

lemma main_check_status:
  assumes "main_check strict dir (Some es) = Inr (out, c)"
  shows "c = (if strict \<and> (\<exists>f \<in> set es. \<exists>s. suffix ''.py'' (ent_name f) \<and> ent_read f = Inr s \<and>
      chk_findings (check_text (dir @ ''/'' @ ent_name f) s) \<noteq> []) then 1 else 0)"
proof -
  from main_check_exit [OF assms] obtain rs where rs: "check_migrations_directory dir (Some es) = Inr rs"
    "c = (if strict \<and> (\<exists>r \<in> set rs. chk_findings r \<noteq> []) then 1 else 0)" .
  have no_cache: "suffix ''.py'' n \<Longrightarrow> n \<noteq> ''__pycache__''" for n by (auto simp: suffix_def)
  show ?thesis
    using rs(2) check_files_findings [OF rs(1) [unfolded check_migrations_directory_def option.simps]] no_cache by auto
qed

text \<open>When every file can be read, the command ends with a status.\<close>

lemma check_files_runs: "list_all (\<lambda>f. \<exists>s. ent_read f = Inr s) fs \<Longrightarrow> \<exists>rs. check_files dir fs = Inr rs"
  by (induction fs) (auto simp: check_migration_file_def)

lemma main_check_runs:
  assumes "list_all (\<lambda>f. \<exists>s. ent_read f = Inr s) es"
  shows "\<exists>out c. main_check strict dir (Some es) = Inr (out, c)"
proof -
  obtain rs where "check_migrations_directory dir (Some es) = Inr rs"
    using check_files_runs [of "sort_key ent_name (filter (\<lambda>f. suffix ''.py'' (ent_name f)) es)" dir] assms
    by (auto simp: check_migrations_directory_def list_all_iff)
  then show ?thesis by (simp add: main_check_def Let_def)
qed

lemma repeated_body_found: "chk_findings (check_text path repeated_body) \<noteq> []"
proof -
  have "map located (chk_findings (check_text path repeated_body)) = map located (chk_findings (check_text ''f'' repeated_body))"
    by (simp only: check_text_located)
  then show ?thesis unfolding repeated_body_line by auto
qed

end
