(* ===== verification/Spec2Isabelle.thy ===== *)
theory Spec2Isabelle
  imports Demo Metrics Escalations Trail Seed Migration_Check
begin

text \<open>
  Verification library for InsuranceOps AI (sources under \<open>src/insuranceops\<close>): an insurance intake
  backend. Clients post documents and start workflow runs through a FastAPI application; runs
  are driven by an orchestrator; tasks travel through a transactional outbox into Redis lists,
  from which workers claim them and run the steps of the claim intake (OCR, extraction, validation,
  summary); every change of a run is recorded in a hash-chained audit log.

  \<^bold>\<open>The state.\<close> A \<open>world\<close> (theory \<open>Storage\<close>) holds the committed database \<open>w_db\<close> (one list of
  records per table), the payload files, the server behind the queues (\<open>w_redis\<close>, of any type),
  the log of metric increments, and what the code draws from outside: the clocks, random bytes,
  fresh identifiers, faults of the disk, Python's text of a float. A piece of program is a state
  transformer that returns \<open>Inr\<close> a value or \<open>Inl\<close> an exception (theory \<open>Prelude\<close>: \<open>bindE\<close>, \<open>catchE\<close>,
  \<open>raiseE\<close>); \<open>session_scope\<close> is the SQLAlchemy session: an exception rolls the database back and
  nothing else.

  \<^bold>\<open>The theories\<close>, in the order of their imports, and the code they model:

  \<^item> \<open>Prelude\<close>, \<open>Py_Text\<close>, \<open>Json\<close>, \<open>Sha256\<close>, \<open>Py_Regex\<close>: the monad with its rules, Python's text functions
    (\<open>str\<close>, \<open>split\<close>, UTF-8, ISO dates), \<open>json.dumps\<close>, SHA-256 on words, and a backtracking matcher for
    the regular expressions of the program, with its equivalence to a set-valued semantics.
  \<^item> \<open>Domain\<close> (\<open>domain/\<close>): lifecycles of runs and escalations, actors, canonical JSON, event hashes.
    One locale, \<open>lifecycle\<close>, is interpreted for both lifecycles.
  \<^item> \<open>Storage\<close>, \<open>Repositories\<close> (\<open>storage/\<close>): tables, constraints, sessions, queries;
    \<open>world_wf\<close> says that every declared constraint holds (primary, unique and foreign keys, checks), and
    every write keeps it.
  \<^item> \<open>Schema\<close>, \<open>Seed\<close> (\<open>migrations/versions/\<close>, \<open>storage/models.py\<close>, \<open>scripts/seed_dev_data.py\<close>): the DDL of
    the initial migration run on a catalog, the tables as the ORM declares them, and the seeding script.
  \<^item> \<open>Audit_Chain\<close> (\<open>audit/\<close>): appending and verifying events; \<open>audit_ok\<close>: every run's events are a chain.
  \<^item> \<open>Workflows\<close>, \<open>Orchestrator\<close> (\<open>workflows/\<close>): registry, retry policy, every method of
    \<open>WorkflowOrchestrator\<close>; \<open>Orchestrator_Contract\<close> states what its transactions keep as a locale
    over the rows they write, interpreted for attempt limits, coherence of references and progress.
  \<^item> \<open>Queues\<close> (\<open>queue/\<close>): reliable, delayed and dead-letter queues over an abstract server
    (\<open>redis_laws\<close>), with an in-memory server that keeps the laws, and the abstract queue they refine:
    \<open>op_ends\<close> lists the endings of an operation, the half-done ones between two commands included.
  \<^item> \<open>Security\<close>, \<open>Payloads\<close>, \<open>Api\<close> (\<open>security/\<close>, \<open>storage/payloads/\<close>, \<open>api/\<close>): keys, roles, rate limit,
    redaction, content-addressed files, and every route handler.
  \<^item> \<open>Logging\<close>, \<open>App\<close> (\<open>observability/logging.py\<close>, \<open>api/app.py\<close>, \<open>api/routes/health.py\<close>): the processors of the
    log, and the middleware and exception handlers around a router, which is an argument.
  \<^item> \<open>Workers\<close> (\<open>workers/\<close>): outbox relay, scheduler, reaper, audit verifier, and the worker.
  \<^item> \<open>Extractors\<close>, \<open>Validation\<close>, \<open>Ai\<close>, \<open>Steps\<close>, \<open>Claim_Intake\<close> (\<open>workflows/extractors/\<close>, \<open>workflows/validators/\<close>,
    \<open>ai/\<close>, \<open>workflows/steps/\<close>): the field patterns, the validation rules and the review routing, the
    providers as records of functions with the mock ones, the five step handlers, and what they do
    one after the other.
  \<^item> \<open>System\<close>: any interleaving of all of these (\<open>run_system\<close>) and the invariants it keeps; \<open>Process\<close>
    (\<open>workers/main.py\<close>): the tasks of a worker process, and deployments; \<open>Escalations\<close>, \<open>Trail\<close>: what
    deployments keep of the lifecycle of escalations and of the completeness of the audit trail;
    \<open>Metrics\<close> (\<open>observability/metrics.py\<close>): the declared metrics and what the program records of them.
  \<^item> \<open>Migration_Check\<close> (\<open>scripts/check_migrations.py\<close>): the whole checker, from the patterns to the exit status.
  \<^item> \<open>Demo\<close>: a concrete world on which the witnesses below run.

  \<^bold>\<open>Invariants\<close> of the program are proved once per kind of fact, in locales that the operations keep:
  \<open>audit_invariant\<close> and \<open>sys_invariant\<close> (facts about the audit log), \<open>db_invariant\<close>, \<open>api_contract\<close>,
  \<open>row_contract\<close> and \<open>deployed_contract\<close> (facts about rows), \<open>draws_kept\<close> (facts the step handlers cannot touch); each is
  interpreted on the predicates of the properties below.

  \<^bold>\<open>The properties\<close> are C1 to C40 below: the audit log (C1 - C5), the database and deployments
  (C6 - C10), the orchestrator (C11 - C16), the claim intake (C17 - C22), the queues (C23 - C24),
  relay, reaper and worker (C25 - C27), the API (C28 - C35), logs and metrics (C36 - C37) and the
  migrations (C38 - C40). Further facts stand between them without a
  number, among them that the half-done endings of C23 and C26 do happen.

  \<^bold>\<open>Parameters.\<close> The server (\<open>redis_api\<close>), \<open>json.loads\<close>, \<open>float\<close> and ISO parsing, the decoding of a document,
  the conversion of a dict bound to a text column, the outcome of the advisory lock and the order of
  a random sample are arguments. Hypotheses about them are \<open>redis_laws\<close> (documented behaviour of the
  commands) and \<open>counter_laws\<close>, both shown of the in-memory server, and \<open>harmless\<close> of an AI
  provider (it changes nothing but clocks and identifiers), shown of the mock one. Any command may be
  refused at any time; one that is refused has had no effect, so an answer that is lost after the
  server has acted is outside the model.

  \<^bold>\<open>Bounds and fuel.\<close> The loops of the background tasks run for a given number of turns, and the
  properties hold for every number. The promotion loop of the delayed queue is bounded by the
  batch size, as in the code. \<open>walk_events\<close>, a client that follows cursors, has fuel, and C31 says
  that one more than the number of events is enough. The matcher of \<open>Py_Regex\<close> recurses on the
  expression and on what is left of the text.

  \<^bold>\<open>Idealisations.\<close> Floats are exact rationals, their text a parameter; strings are sequences of
  characters below 256; times are microseconds; a JSONB column returns what was stored in it.
  Statements of one transaction are not interleaved with other transactions: what the code does
  for concurrency (conditional updates, constraints) is in the model, isolation anomalies are not.
  A metric is an entry of a log, not a sum. The catalog of \<open>Schema\<close> leaves out the names PostgreSQL
  gives the indexes behind primary keys and unique constraints.

  \<^bold>\<open>Not modelled\<close>: the rendering of log lines and the exporters of metrics and traces
  (\<open>observability/tracing.py\<close>, which no module uses), connection pools and signals, argparse,
  FastAPI's parsing of requests into the typed arguments of the handlers and its dispatch to them,
  and Alembic's own environment (\<open>migrations/env.py\<close>): calls of libraries, with no logic of the program.
\<close>

section \<open>The audit log\<close>

text \<open>C1. Whatever the program does - requests, background loops, workers, orchestrator
  transactions, in any order, each of which may fail - every run's audit events keep forming a
  chain: numbered from 1, each naming its predecessor's hash and carrying its own.\<close>

theorem system_audit_chain:
  assumes "audit_ok w"
  shows "audit_ok (run_system E ops w)"
  by (rule sys_chain.run_system_safe [OF assms])

theorem system_audit_chain_witness: "audit_ok (run_system demo_env demo_ops demo)"
  by (rule system_audit_chain [OF demo_audit_ok])

text \<open>C2. The log is append-only: no operation of the program removes, changes or reorders an
  audit event that is there.\<close>

theorem system_append_only:
  "\<exists>zs. audit_events (w_db (run_system E ops w)) = audit_events (w_db w) @ zs"
  using sys_append.run_system_safe [of "audit_events (w_db w)" w E ops] by (simp add: log_extends_def)

text \<open>C3. With a clock that does not run backwards, \<open>verify_chain\<close> reports every run valid after
  any execution of the program: no false alarms.\<close>

theorem system_verifies:
  assumes "audit_ok w" "clock_ok w"
  shows "\<exists>r. verify_chain i (run_system E ops w) = (Inr r, run_system E ops w) \<and>
    vr_is_valid r \<and> vr_first_mismatch_index r = None"
  using verify_chain_intact sys_clock.run_system_safe [of w E ops] assms by blast

theorem system_verifies_witness:
  "\<exists>r. verify_chain 1 (run_system demo_env demo_ops demo) = (Inr r, run_system demo_env demo_ops demo) \<and>
     vr_is_valid r \<and> vr_first_mismatch_index r = None"
  by (rule system_verifies [OF demo_audit_ok demo_clock_ok])

text \<open>C4. When the verifier reports a mismatch, the index it gives is the first row at which the
  chain breaks: everything before it is linked, and the rows up to and including it are not.\<close>

theorem verifier_reports_first_break:
  assumes "verify_events fr 0 None es = Some r"
  shows "\<exists>k < length es. \<not> vr_is_valid r \<and> vr_first_mismatch_index r = Some (int k) \<and>
    linked fr None (take k es) \<and> \<not> linked fr None (take (Suc k) es)"
  using verify_events_least [OF assms] by simp

theorem verifier_reports_first_break_witness:
  "\<exists>r. verify_events (\<lambda>_. []) 0 None [broken_event] = Some r \<and>
    (\<exists>k < length [broken_event]. vr_first_mismatch_index r = Some (int k))"
proof -
  obtain r where r: "verify_events (\<lambda>_. []) 0 None [broken_event] = Some r"
    by (simp add: mismatch_at_def broken_event_def)
  with verifier_reports_first_break [OF r] show ?thesis by blast
qed

text \<open>C5. Tamper evidence. Two chains of the same length whose newest events carry the same hash
  agree, in every row, on the bytes that are hashed, unless two different byte strings collide under
  SHA-256. The same bytes mean the same identifiers of event and run, the same stored and previous
  hash, the same text of the time, and the same actor, event type and payload run together; with no
  brace in actor and event type the payloads are the same, and with actors of one length everything
  hashed is. Where the actor ends is not hashed.\<close>

theorem chain_commitment:
  assumes "linked fr None es" "linked fr None es'" "length es = length es'" "es \<noteq> []"
    and "evt_event_hash (last es) = evt_event_hash (last es')"
  shows "(\<forall>k < length es. row_preimage fr (es ! k) = row_preimage fr (es' ! k) \<and> same_hashed fr (es ! k) (es' ! k)) \<or>
    (\<exists>k < length es. row_preimage fr (es ! k) \<noteq> row_preimage fr (es' ! k) \<and>
       compute_event_hash fr (evt_audit_event_id (es ! k)) (evt_workflow_run_id (es ! k)) (evt_actor (es ! k))
         (evt_event_type (es ! k)) (evt_payload (es ! k)) (evt_occurred_at (es ! k)) (evt_prev_event_hash (es ! k)) =
       compute_event_hash fr (evt_audit_event_id (es' ! k)) (evt_workflow_run_id (es' ! k)) (evt_actor (es' ! k))
         (evt_event_type (es' ! k)) (evt_payload (es' ! k)) (evt_occurred_at (es' ! k)) (evt_prev_event_hash (es' ! k)))"
proof -
  have "(\<forall>k < length es. row_preimage fr (es ! k) = row_preimage fr (es' ! k)) \<or>
    (\<exists>k < length es. row_preimage fr (es ! k) \<noteq> row_preimage fr (es' ! k) \<and>
       sha256 (row_preimage fr (es ! k)) = sha256 (row_preimage fr (es' ! k)))"
    using chain_commitment_lemma [OF assms] .
  then show ?thesis
    using same_preimages [OF assms(1-3)] unfolding compute_event_hash_def by (fold row_preimage_def) blast
qed

theorem chain_commitment_witness:
  "linked (\<lambda>_. []) None [first_event ''system''] \<and>
   same_hashed (\<lambda>_. []) (first_event ''system'') (first_event ''system''\<lparr>evt_step_id := Some 9\<rparr>)"
proof -
  have l: "linked (\<lambda>_. []) None [first_event ''system'']"
    "linked (\<lambda>_. []) None [first_event ''system''\<lparr>evt_step_id := Some 9\<rparr>]"
    by (simp_all add: first_event_def broken_event_def event_row_hash_def Let_def)
  from chain_commitment [OF this] l show ?thesis by (simp add: row_preimage_def)
qed

section \<open>The database\<close>

text \<open>C6. Every operation keeps the database well formed: every primary and unique key is unique, every
  foreign key is resolved or null where it may be, and every checked column is in its range, in all
  tables the program writes, whether the operation succeeds or fails.\<close>

theorem system_database_wf:
  assumes "world_wf w"
  shows "world_wf (run_system E ops w)"
  using assms by (rule run_system_keeps [rotated]) (rule sys_step_wf)

theorem system_database_wf_witness: "world_wf (run_system demo_env demo_ops demo)"
  by (rule system_database_wf [OF demo_wf])

text \<open>C7. References across tables agree: a task in the outbox names an attempt of its step and a
  step of its run, and an escalation a step of its run.\<close>

theorem system_coherent:
  assumes "coherent (w_db w)"
  shows "coherent (w_db (run_system E ops w))"
  by (rule coherent_rows.run_system_keeps_db [OF assms])

theorem system_coherent_witness: "coherent (w_db (run_system demo_env demo_ops demo))"
  by (rule system_coherent [OF demo_coherent])

text \<open>C8. Runs only move forward: a run stays, its identity, definition, creator and deadline never
  change, its version never decreases, and grows with every change of state.\<close>

theorem system_runs_progress:
  "\<forall>r \<in> set (workflow_runs (w_db w)). \<exists>r' \<in> set (workflow_runs (w_db (run_system E ops w))). run_moves r r'"
proof -
  have "runs_progress (w_db w) (w_db w)" by (auto simp: runs_progress_def run_moves_def)
  from forward.run_system_keeps_db [OF this] show ?thesis by (simp add: runs_progress_def)
qed

theorem system_runs_progress_witness:
  "\<exists>r' \<in> set (workflow_runs (w_db (run_system demo_env demo_ops demo))). run_moves demo_run r'"
proof -
  have "demo_run \<in> set (workflow_runs (w_db demo))" by (simp add: demo_def demo_db_def)
  with system_runs_progress show ?thesis by (rule bspec)
qed

text \<open>C9. The program as it is deployed - any number of API and worker processes with any flags, which
  never call the orchestrator - brings no run to completion.\<close>

theorem deployed_never_completes:
  assumes "deployment (env_settings E) processes ops"
    and "r \<in> set (workflow_runs (w_db (run_system E ops w)))" "run_state r = completed"
  shows "\<exists>r0 \<in> set (workflow_runs (w_db w)). run_workflow_run_id r0 = run_workflow_run_id r \<and> run_state r0 = completed"
proof -
  let ?C = "{run_workflow_run_id r | r. r \<in> set (workflow_runs (w_db w)) \<and> run_state r = completed}"
  have "completed_within ?C (w_db (run_system E ops w))"
    by (rule no_completion.deployed_run_keeps [OF deployment_deployed [OF assms(1)]]) (auto simp: completed_within_def)
  with assms(2,3) have "run_workflow_run_id r \<in> ?C" by (simp add: completed_within_def)
  then show ?thesis by force
qed

theorem deployed_never_completes_witness:
  "\<exists>r0 \<in> set (workflow_runs (w_db (demo\<lparr>w_db := demo_db\<lparr>workflow_runs := [demo_run\<lparr>run_state := completed\<rparr>]\<rparr>\<rparr>))).
     run_workflow_run_id r0 = 1 \<and> run_state r0 = completed"
proof -
  let ?w = "demo\<lparr>w_db := demo_db\<lparr>workflow_runs := [demo_run\<lparr>run_state := completed\<rparr>]\<rparr>\<rparr>"
  let ?args = "\<lparr>wa_worker_id = None, wa_no_reaper = False, wa_no_scheduler = False, wa_no_outbox = False,
    wa_no_audit_verifier = True\<rparr>"
  have d: "deployment (env_settings demo_env) [ApiProcess, WorkerProcess 5 ?args] [SysRelay False]"
    by (simp add: deployment_def run_worker_def)
  have "demo_run\<lparr>run_state := completed\<rparr> \<in> set (workflow_runs (w_db (run_system demo_env [SysRelay False] ?w)))"
    by (simp add: demo_env_def dropE_def guarded_def relay_batch_def session_scope_def)
  from deployed_never_completes [OF d this] show ?thesis by (simp add: demo_run_def)
qed

text \<open>C10. Nothing happens to a run unrecorded: in the deployed program the version of a run, which
  grows with every change of its state (C8), never gets ahead of the number of its audit events.\<close>

theorem changes_are_audited:
  assumes "deployment (env_settings E) processes ops" "trailed (w_db w)"
    and "r \<in> set (workflow_runs (w_db (run_system E ops w)))"
  shows "run_version r \<le> int (length (events_of_run (run_workflow_run_id r) (w_db (run_system E ops w))))"
  using trail.deployed_run_keeps [OF deployment_deployed [OF assms(1)] assms(2), where E = E] assms(3)
  by (simp add: trailed_def run_event_count_def)

theorem changes_are_audited_witness:
  "list_all (\<lambda>r. run_version r \<le> int (length (events_of_run (run_workflow_run_id r)
       (w_db (run_system demo_env [SysApi (Some ''secret'') (ApiCancel True 1 None None)]
         (demo\<lparr>w_db := demo_db\<lparr>workflow_runs := [demo_run\<lparr>run_version := 0\<rparr>]\<rparr>\<rparr>))))))
     (workflow_runs (w_db (run_system demo_env [SysApi (Some ''secret'') (ApiCancel True 1 None None)]
       (demo\<lparr>w_db := demo_db\<lparr>workflow_runs := [demo_run\<lparr>run_version := 0\<rparr>]\<rparr>\<rparr>))))"
proof -
  have d: "deployment (env_settings demo_env) [ApiProcess] [SysApi (Some ''secret'') (ApiCancel True 1 None None)]"
    by (simp add: deployment_def)
  have t: "trailed (w_db (demo\<lparr>w_db := demo_db\<lparr>workflow_runs := [demo_run\<lparr>run_version := 0\<rparr>]\<rparr>\<rparr>))"
    by (simp add: trailed_def count_nonneg)
  show ?thesis unfolding list_all_iff using changes_are_audited [OF d t] by blast
qed

section \<open>The orchestrator\<close>

text \<open>C11. Along any sequence of orchestrator transactions the attempts of a step are numbered
  without gaps, and the automatic ones number at most the step's \<open>max_attempts\<close>.\<close>

theorem attempts_within_limit:
  assumes "world_wf w" "attempts_inv (w_db w)"
  shows "attempts_inv (w_db (exec_orchs reg ops w))"
  by (rule attempt_limits.exec_orchs_keeps [OF assms])

theorem attempts_within_limit_witness:
  "attempts_inv (w_db (exec_orchs registry [OpAdvance 1 ''ingest'' (demo_result ''failed_retryable'')] demo))"
  by (rule attempts_within_limit [OF demo_wf demo_attempts_inv])







text \<open>Cancelling is possible from \<open>running\<close> and \<open>awaiting_human\<close> only, and does this: the run is
  cancelled with its version bumped, and the event records the reason and the state it was in.\<close>

lemma cancel_effect:
  assumes "cancel_workflow i actor reason w = (Inr u, w')"
  shows "\<exists>r m now. r \<in> set (workflow_runs (w_db w)) \<and> run_workflow_run_id r = i \<and>
    cancelled \<in> set (run_valid_transitions (run_state r)) \<and> evt_workflow_run_id m = i \<and>
    evt_event_type m = ''workflow_run.cancelled'' \<and> evt_actor m = actor \<and>
    evt_payload m = [(''reason'', jstr_opt reason), (''previous_state'', JStr (run_state_value (run_state r)))] \<and>
    w_db w' = add_event m (upd_run i
      (\<lambda>r. r\<lparr>run_state := cancelled, run_version := run_version r + 1, run_updated_at := now\<rparr>) (w_db w))"
  using cancel_workflow_ok [OF assms] by fastforce

lemma cancel_effect_witness:
  "\<exists>w' r. cancel_workflow 1 ''user:supervisor:s'' None demo = (Inr (), w') \<and>
     r \<in> set (workflow_runs (w_db demo)) \<and> run_workflow_run_id r = 1"
proof -
  obtain u w' where run: "cancel_workflow 1 ''user:supervisor:s'' None demo = (Inr u, w')" using demo_cancel by blast
  from cancel_effect [OF run] run show ?thesis by auto
qed



text \<open>C16. The delay before a retry lies between 0 and the policy's cap, and never above the
  exponential bound for the number of attempts made.\<close>

theorem backoff_bounds:
  assumes "0 \<le> base_delay_s p" "0 \<le> cap_s p" "\<And>k. 0 \<le> w_random w k \<and> w_random w k < 1"
    and "compute_backoff_delay p n w = (Inr delay, w')"
  shows "0 \<le> delay \<and> delay \<le> backoff_raw p n \<and> backoff_raw p n \<le> cap_s p"
  by (rule backoff_delay_bounds [OF assms])

theorem backoff_bounds_witness:
  "\<exists>d w'. compute_backoff_delay default_retry_policy 40 demo = (Inr d, w') \<and> 0 \<le> d \<and> d \<le> cap_s default_retry_policy"
proof -
  obtain d w' where run: "compute_backoff_delay default_retry_policy 40 demo = (Inr d, w')"
    by (simp add: compute_backoff_delay_def uniform_def default_retry_policy_def Let_def)
  have p: "0 \<le> base_delay_s default_retry_policy" "0 \<le> cap_s default_retry_policy"
    "0 \<le> w_random demo k \<and> w_random demo k < 1" for k
    by (simp_all add: default_retry_policy_def demo_def)
  from backoff_bounds [OF p run] run show ?thesis by auto
qed

section \<open>The claim intake\<close>

text \<open>C17. Extraction and validation together: on stored documents the extract step succeeds, whatever
  the model provider does, and leaves the database, the files and the queues as they were; and
  validating its output fails terminally when no claim or no policy number was found, asks for
  a human when the policy number or the date is malformed or fewer than three fields were found,
  and passes otherwise.\<close>

theorem intake_decision:
  fixes w :: "'r sysworld"
  assumes "harmless ai" "world_wf w" "\<And>d b. (d, b) \<in> set ds \<Longrightarrow> stored base w d b"
    and "ctx_document_ids ctx = map (\<lambda>(d, b). DocId (doc_document_id d)) ds"
  shows "\<exists>out w'. extract_handle decode base (mock_ocr decode) ai ctx w = (Inr (step_success out), w') \<and> unchanged w w' \<and>
    (\<forall>ctx' (w'' :: 'r sysworld). map_of (ctx_previous_outputs ctx') ''extract'' = Some (JObj out) \<longrightarrow>
       (\<exists>r. validate_handle ctx' w'' = (Inr r, w'') \<and> sr_status r = decision (w_float_repr w'') (document_fields decode ds)))"
proof (rule extract_then_validate [OF assms, where decode = decode])
  fix out w'
  assume "extract_handle decode base (mock_ocr decode) ai ctx w = (Inr (step_success out), w')" "unchanged w w'"
    "\<And>ctx' (w'' :: 'r sysworld). map_of (ctx_previous_outputs ctx') ''extract'' = Some (JObj out) \<Longrightarrow>
      \<exists>r. validate_handle ctx' w'' = (Inr r, w'') \<and> sr_status r = decision (w_float_repr w'') (document_fields decode ds)"
  then show ?thesis by blast
qed

theorem intake_decision_witness:
  "\<exists>out w' r. extract_handle (env_decode demo_env) ''/data/payloads'' (mock_ocr (env_decode demo_env)) mock_ai demo_context demo =
      (Inr (step_success out), w') \<and> unchanged demo w' \<and>
    validate_handle (demo_context\<lparr>ctx_previous_outputs := [(''extract'', JObj out)]\<rparr>) w' = (Inr r, w') \<and>
    sr_status r = decision (w_float_repr w') (document_fields (env_decode demo_env) [(demo_document, demo_bytes)])"
proof -
  let ?dec = "env_decode demo_env"
  have st: "stored ''/data/payloads'' demo d b" if "(d, b) \<in> set [(demo_document, demo_bytes)]" for d b
    using that by (simp add: stored_def demo_def demo_db_def demo_document_def)
  have ids: "ctx_document_ids demo_context = map (\<lambda>(d, b). DocId (doc_document_id d)) [(demo_document, demo_bytes)]"
    by (simp add: demo_context_def demo_document_def)
  obtain out w' where run: "extract_handle ?dec ''/data/payloads'' (mock_ocr ?dec) mock_ai demo_context demo = (Inr (step_success out), w')"
    "unchanged demo w'" and then_validate: "\<And>ctx' w'' :: mem sysworld. map_of (ctx_previous_outputs ctx') ''extract'' = Some (JObj out) \<Longrightarrow>
       (\<exists>r. validate_handle ctx' w'' = (Inr r, w'') \<and>
          sr_status r = decision (w_float_repr w'') (document_fields ?dec [(demo_document, demo_bytes)]))"
    using intake_decision [OF harmless_mock demo_wf st ids, of ?dec] by blast
  have "map_of (ctx_previous_outputs (demo_context\<lparr>ctx_previous_outputs := [(''extract'', JObj out)]\<rparr>)) ''extract'' = Some (JObj out)"
    by simp
  from then_validate [OF this, of w'] run show ?thesis by blast
qed

text \<open>C18. A scanned document - a PDF or an image - is turned down for good exactly when one of the third to
  eighth hexadecimal digits of its SHA-256 is a letter: the text of the mock OCR cuts a policy
  number of six characters out of the eight of the digest, and the extractor accepts digits only.\<close>

theorem scan_rejected_iff:
  assumes "doc_content_type d \<in> set OCR_CONTENT_TYPES"
  shows "decision fr (document_fields decode [(d, b)]) = ''failed_terminal'' \<longleftrightarrow>
    \<not> list_all c_digit (take 6 (drop 2 (bytes_hex (sha256 b))))"
  using scanned_decision_iff [OF assms] by (simp add: policy_digits_take)

theorem scan_rejected_iff_witness:
  "decision (\<lambda>_. []) (document_fields (env_decode demo_env) [(demo_document, demo_bytes)]) = ''failed_terminal'' \<longleftrightarrow>
     \<not> list_all c_digit (take 6 (drop 2 (bytes_hex (sha256 demo_bytes))))"
  by (rule scan_rejected_iff) (simp add: demo_document_def OCR_CONTENT_TYPES_def)

text \<open>C19. The extractor invents nothing: the fields are distinct and exactly those whose pattern occurs
  in the text, and each value is, up to surrounding blanks, the piece of the text that its
  provenance names, inside the snippet it quotes.\<close>

theorem extracted_fields_grounded:
  "distinct (map fst (er_fields (stub_extract decode content))) \<and>
   set (er_fields (stub_extract decode content)) \<subseteq> {(n, f). grounded (decode_text decode content) n f} \<and>
   fst ` set (er_fields (stub_extract decode content)) =
     {n. \<exists>p. (n, p) \<in> set PATTERNS \<and> re_search p (decode_text decode content) 0 \<noteq> None}"
proof (intro conjI)
  let ?fs = "er_fields (stub_extract decode content)"
  show "distinct (map fst ?fs)" by (rule stub_extract_fields(1))
  show "set ?fs \<subseteq> {(n, f). grounded (decode_text decode content) n f}" using stub_extract_fields(2) by auto
  show "fst ` set ?fs = {n. \<exists>p. (n, p) \<in> set PATTERNS \<and> re_search p (decode_text decode content) 0 \<noteq> None}"
  proof (intro set_eqI iffI CollectI)
    fix n assume n: "n \<in> fst ` set ?fs"
    then obtain p where p: "(n, p) \<in> set PATTERNS" using stub_extract_fields(2) by fastforce
    with n stub_extract_fields(3) [OF p] show "\<exists>p. (n, p) \<in> set PATTERNS \<and> re_search p (decode_text decode content) 0 \<noteq> None"
      by metis
  next
    fix n assume "n \<in> {n. \<exists>p. (n, p) \<in> set PATTERNS \<and> re_search p (decode_text decode content) 0 \<noteq> None}"
    then obtain p where "(n, p) \<in> set PATTERNS" "re_search p (decode_text decode content) 0 \<noteq> None" by blast
    with stub_extract_fields(3) [OF this(1)] show "n \<in> fst ` set ?fs" by metis
  qed
qed

text \<open>C20. What the validator decides, and the codes it gives: a missing claim number hides a missing
  policy number; the other reasons are collected. The format of the policy number, as its regular
  expression has it, is two or three capitals, a hyphen and six to ten digits, and may be followed
  by a newline.\<close>

theorem validate_outcome:
  "(vo_status (validate fr e ref), map vr_code (vo_reasons (validate fr e ref))) =
    (case (map_of (er_fields e) ''claim_number'', map_of (er_fields e) ''policy_number'') of
       (None, _) \<Rightarrow> (''fail_terminal'', [''claim_number_missing''])
     | (Some _, None) \<Rightarrow> (''fail_terminal'', [''policy_number_missing''])
     | (Some _, Some p) \<Rightarrow>
        (let bad_policy = \<not> policy_ok (py_str fr (ef_value p));
             bad_date = (case map_of (er_fields e) ''date_of_loss'' of None \<Rightarrow> False
                         | Some d \<Rightarrow> \<not> parse_date (py_str fr (ef_value d))) in
         (if bad_policy \<or> bad_date then ''fail_correctable'' else ''pass'',
          (if bad_policy then [''policy_number_format_invalid''] else []) @ (if bad_date then [''date_of_loss_invalid''] else []))))"
proof (rule validate_cases [of e fr ref])
  fix c p
  assume r: "map_of (er_fields e) ''claim_number'' = Some c" "map_of (er_fields e) ''policy_number'' = Some p"
    "vo_reasons (validate fr e ref) = correctable_reasons fr (er_fields e) p"
    "vo_status (validate fr e ref) = (if correctable_reasons fr (er_fields e) p = [] then ''pass'' else ''fail_correctable'')"
  have "correctable_reasons fr (er_fields e) p = [] \<longleftrightarrow> map vr_code (correctable_reasons fr (er_fields e) p) = []" by simp
  with r correctable_reasons_codes [of fr "er_fields e" p] show ?thesis
    by (simp add: Let_def split: option.split)
qed auto

text \<open>Review routing with the default thresholds: an extraction needs no review exactly when it has
  three fields, none below 0.7, and 0.9 on average.\<close>

lemma review_auto_approval:
  "\<not> rt_requires_review (evaluate_review_routing cs default_thresholds None True) \<longleftrightarrow>
     3 \<le> length cs \<and> list_all (\<lambda>(n, c). 7 / 10 \<le> c) cs \<and>
     9 / 10 \<le> (if cs = [] then 0 else sum_list (map snd cs) / of_nat (length cs))"
  by (simp add: auto_approval_iff overall_confidence_def)

text \<open>C21. The validate step rebuilds from the stored output of the extract step the fields that were
  extracted, with their provenance.\<close>

theorem reconstruct_roundtrip:
  assumes "distinct (map fst fs)" "\<And>n f. (n, f) \<in> set fs \<Longrightarrow> 0 \<le> ef_confidence f \<and> ef_confidence f \<le> 1"
  shows "reconstruct_extraction_result fr (JObj (extract_output fs rest)) w =
    (Inr \<lparr>er_fields = fs, er_extractor_name = JStr ''stub_extractor'', er_extractor_version = JStr ''1.0.0'', er_raw_text = None\<rparr>, w)"
  by (rule reconstruct_extract_output [OF assms])

theorem reconstruct_roundtrip_witness:
  "reconstruct_extraction_result (\<lambda>_. []) (JObj (extract_output [(''claim_type'', demo_field)] [])) demo =
    (Inr \<lparr>er_fields = [(''claim_type'', demo_field)], er_extractor_name = JStr ''stub_extractor'',
       er_extractor_version = JStr ''1.0.0'', er_raw_text = None\<rparr>, demo)"
  by (rule reconstruct_roundtrip) (auto simp: demo_field_def CONFIDENCE_def)

text \<open>C22. Completing never fails on account of the summary: whatever the model provider does, raise or
  return, the step succeeds. What is sent is bounded by 4012 characters: a prompt longer than the
  configured 4000 is cut there and gets the mark of truncation, twelve characters, on top, so nothing
  depends on how a provider answers longer prompts.\<close>

theorem completion_fail_safe:
  assumes "field_values (dict_get_or (ctx_previous_outputs ctx) ''extract'' JNull) w = (Inr fs, w)"
  shows "\<exists>summary w'. complete_handle ai ctx w = (Inr (step_success [(''completed'', JBool True), (''summary'', JStr summary),
      (''fields_extracted'', JInt (int (length fs)))]), w') \<and>
    (\<forall>ai'. agree_below 4012 ai ai' \<longrightarrow> complete_handle ai' ctx w = complete_handle ai ctx w) \<and>
    (\<forall>prompt. length (truncate_prompt default_summarization prompt) = (if 4000 < length prompt then 4012 else length prompt))"
proof -
  have cut: "\<forall>prompt. length (truncate_prompt default_summarization prompt) = (if 4000 < length prompt then 4012 else length prompt)"
  proof
    fix prompt
    have "cfg_max_input_chars default_summarization = 4000" by (simp add: default_summarization_def)
    with truncate_prompt_size [of default_summarization prompt]
    show "length (truncate_prompt default_summarization prompt) = (if 4000 < length prompt then 4012 else length prompt)"
      by (simp split: if_splits)
  qed
  have "\<forall>ai'. agree_below 4012 ai ai' \<longrightarrow> complete_handle ai' ctx w = complete_handle ai ctx w"
    by (intro allI impI) (rule complete_bounded [symmetric])
  with complete_run [OF assms, of ai] cut show ?thesis by blast
qed

theorem completion_fail_safe_witness:
  "\<exists>summary w'. complete_handle \<lparr>ai_name = ''down'', ai_generate = (\<lambda>_ _ _ _. raiseE (OSError ''timeout''))\<rparr> demo_context demo =
     (Inr (step_success [(''completed'', JBool True), (''summary'', JStr summary), (''fields_extracted'', JInt 0)]), w')"
proof -
  have "field_values (dict_get_or (ctx_previous_outputs demo_context) ''extract'' JNull) demo = (Inr [], demo)"
    by (simp add: field_values_def demo_context_def dict_get_or_def)
  from completion_fail_safe [OF this] show ?thesis by force
qed

section \<open>The queue\<close>

text \<open>First in, first out, for every server that keeps the laws of its commands: after
  enqueueing a task behind those that wait, as many claims return the waiting tasks in order and
  the new one last.\<close>

lemma queue_fifo:
  assumes "redis_laws R ls zs" "enqueue R p w = (Inr n, w1)"
    and "claims (claim_raw R k) (Suc (length (q_ready (queue_of ls w)))) w1 = (Inr bs, w')"
  shows "bs = map Some (q_ready (queue_of ls w)) @ [Some (task_bytes (w_float_repr w) p)]"
  by (rule redis_server.fifo [OF redis_server.intro [OF assms(1)] assms(2,3)])

lemma queue_fifo_witness:
  "\<exists>bs w'. claims (claim_raw mem_redis ''w1'') 1 (snd (enqueue mem_redis [] demo)) = (Inr bs, w') \<and>
     bs = [Some (task_bytes (w_float_repr demo) [])]"
proof -
  obtain n w1 where e: "enqueue mem_redis [] demo = (Inr n, w1)"
    by (simp add: enqueue_def redisE_def mem_redis_def)
  have q: "q_ready (queue_of mem_ls demo) = []" by (simp add: queue_of_def waiting_def mem_ls_def demo_def)
  obtain bs w' where c: "claims (claim_raw mem_redis ''w1'') 1 w1 = (Inr bs, w')"
    by (cases "mem_ls (w_redis w1) QUEUE_READY = []") (simp_all add: claim_raw_def redisE_def mem_redis_def bindE_def Let_def)
  from queue_fifo [OF mem_redis_laws e, of "''w1''" bs w'] c q e show ?thesis by simp
qed

text \<open>C23. Every operation of the reliable queue and of the dead letter queue refines the abstract one,
  however it ends. One that returns has returned what the specification does and has had its effect.
  One that raises has changed nothing, but for three: \<open>claim\<close> has moved a task whose bytes do not decode,
  which stays in flight, and \<open>move_to_ready\<close> and \<open>requeue_from_dlq\<close>, refused between their two commands,
  have removed the task and put it nowhere. With a server that answers and valid text none of them
  raises, apart from that decoding.\<close>

theorem queue_refines:
  assumes "redis_laws R ls zs"
  shows "runs_as (queue_of ls) (enqueue R p) (\<lambda>w. op_ends (answers R)
      (\<lambda>q. (int (length (q_ready q)) + 1, spec_enqueue (task_bytes (w_float_repr w) p) q)) id) \<and>
    runs_as (queue_of ls) (claim R loads k) (\<lambda>w. claim_ends (answers R) loads k) \<and>
    runs_as (queue_of ls) (ack R k b) (\<lambda>w. op_ends (answers R \<and> utf8_valid b)
      (\<lambda>q. (of_bool (b \<in> set (q_inflight q k)), spec_ack k b q)) id) \<and>
    runs_as (queue_of ls) (get_inflight R k) (\<lambda>w. op_ends (answers R) (\<lambda>q. (q_inflight q k, q)) id) \<and>
    runs_as (queue_of ls) (move_to_ready R k b) (\<lambda>w. op_ends (answers R \<and> utf8_valid b)
      (\<lambda>q. ((), spec_reclaim k b q)) (spec_ack k b)) \<and>
    runs_as (queue_of ls) (move_to_dlq R b) (\<lambda>w. op_ends (answers R) (\<lambda>q. (int (length (q_dead q)) + 1, spec_bury b q)) id) \<and>
    runs_as (queue_of ls) (list_dlq R start cnt) (\<lambda>w. op_ends (answers R)
      (\<lambda>q. (py_lrange (q_dead q) start (start + cnt - 1), q)) id) \<and>
    runs_as (queue_of ls) (requeue_from_dlq R b) (\<lambda>w. op_ends (answers R \<and> utf8_valid b) (spec_requeue b) (spec_drop b)) \<and>
    runs_as (queue_of ls) (dlq_count R) (\<lambda>w. op_ends (answers R) (\<lambda>q. (int (length (q_dead q)), q)) id) \<and>
    runs_as (queue_of ls) (get_dlq_entry R i) (\<lambda>w. op_ends (answers R) (\<lambda>q. (spec_entry i q, q)) id) \<and>
    runs_as (queue_of ls) (drop_from_dlq R b) (\<lambda>w. op_ends (answers R \<and> utf8_valid b)
      (\<lambda>q. (b \<in> set (q_dead q), spec_drop b q)) id)"
  by (intro conjI enqueue_runs [OF assms] claim_runs [OF assms] ack_runs [OF assms] get_inflight_runs [OF assms]
      move_to_ready_runs [OF assms] move_to_dlq_runs [OF assms] list_dlq_runs [OF assms] requeue_from_dlq_runs [OF assms]
      dlq_count_runs [OF assms] get_dlq_entry_runs [OF assms] drop_from_dlq_runs [OF assms])

theorem queue_refines_witness:
  "(\<exists>n w'. enqueue mem_redis [] demo = (Inr n, w') \<and>
     queue_of mem_ls w' = spec_enqueue (task_bytes (w_float_repr demo) []) (queue_of mem_ls demo)) \<and>
   runs_as (queue_of mem_ls) (move_to_ready full_redis ''w1'' [65])
     (\<lambda>w. op_ends (answers full_redis \<and> utf8_valid [65]) (\<lambda>q. ((), spec_reclaim ''w1'' [65] q)) (spec_ack ''w1'' [65]))"
proof
  obtain n w1 where e: "enqueue mem_redis [] demo = (Inr n, w1)"
    by (simp add: enqueue_def redisE_def mem_redis_def)
  from queue_refines [OF mem_redis_laws, THEN conjunct1, of "[]"] e
  show "\<exists>n w'. enqueue mem_redis [] demo = (Inr n, w') \<and>
     queue_of mem_ls w' = spec_enqueue (task_bytes (w_float_repr demo) []) (queue_of mem_ls demo)"
    by (auto simp: op_ends_def dest: runs_asD)
next
  show "runs_as (queue_of mem_ls) (move_to_ready full_redis ''w1'' [65])
     (\<lambda>w. op_ends (answers full_redis \<and> utf8_valid [65]) (\<lambda>q. ((), spec_reclaim ''w1'' [65] q)) (spec_ack ''w1'' [65]))"
    using queue_refines [OF full_redis_laws, of "[]" undefined "''w1''" "[65]"] by blast
qed

text \<open>The half-done endings happen: on a server that is out of memory, which refuses pushes only, the
  reclaim of a task in flight raises, and the task is in no list any more.\<close>

text \<open>The half-done endings happen: on a server that is out of memory, which refuses pushes only, the
  reclaim of the one task there is raises, and no list holds it any more.\<close>

lemma stuck_tasks: "all_tasks mem_ls mem_zs {''w1''} demo_stuck = {#[65]#}"
  by (simp add: all_tasks_def demo_stuck_def mem_ls_def mem_zs_def mem_zset_def queue_keys [unfolded])

lemma reclaim_can_lose:
  "\<exists>e w'. move_to_ready full_redis ''w1'' [65] demo_stuck = (Inl e, w') \<and> all_tasks mem_ls mem_zs {''w1''} w' = {#}"
proof -
  let ?w1 = "demo_stuck\<lparr>w_redis := put_list (inflight_key ''w1'') [] (w_redis demo_stuck)\<rparr>"
  have l: "redisE (r_lrem1 full_redis (inflight_key ''w1'') [65]) demo_stuck = (Inr 1, ?w1)"
    by (simp add: redisE_def full_redis_def mem_redis_def demo_stuck_def mem_ls_def)
  have p: "redisE (r_lpush full_redis QUEUE_READY [65]) ?w1 = (Inl (RedisError ''OOM''), ?w1)"
    by (simp add: redisE_def full_redis_def)
  have m: "move_to_ready full_redis ''w1'' [65] demo_stuck = (Inl (RedisError ''OOM''), ?w1)"
    using l p by (simp add: move_to_ready_def decode_utf8_def bindE_def)
  have "all_tasks mem_ls mem_zs {''w1''} demo_stuck = add_mset [65] (all_tasks mem_ls mem_zs {''w1''} ?w1)"
    by (rule lrem_inflight_tasks [OF full_redis_laws _ _ _ l]) (simp_all add: inflight_def demo_stuck_def mem_ls_def)
  with stuck_tasks m show ?thesis by auto
qed

text \<open>C24. The scheduler promotes exactly the due tasks, earliest first and at most a batch, to the
  end of the ready queue; the delayed queue loses just those, and when the batch was not full
  nothing due is left.\<close>

theorem mature_tasks_promotes:
  assumes "redis_laws R ls zs" "mature_tasks R now batch w = (Inr n, w')"
  shows "\<exists>items. n = int (length items) \<and> promotes ls zs (epoch_ms now) (nat batch) w items w'"
  using mature_loop_ok [OF assms(1) assms(2) [unfolded mature_tasks_def]] by simp

theorem mature_tasks_promotes_witness:
  "\<exists>n w' items. mature_tasks mem_redis 0 200 demo = (Inr n, w') \<and> n = int (length items) \<and>
     promotes mem_ls mem_zs (epoch_ms 0) 200 demo items w'"
proof -
  obtain n w1 where e: "mature_tasks mem_redis 0 200 demo = (Inr n, w1)"
    by (simp add: mature_tasks_def numeral_nat redisE_def mem_redis_def bindE_def mem_zset_def demo_def)
  from mature_tasks_promotes [OF mem_redis_laws e] e show ?thesis by auto
qed

section \<open>Relay, reaper and worker\<close>

text \<open>C25. The relay never marks a task as enqueued that is not queued: after a batch, however it
  ended, every outbox row marked was marked before, or its bytes are in the ready or the delayed
  queue.\<close>

theorem relay_delivers_before_marking:
  assumes "redis_laws R ls zs" "world_wf w" "relay_batch R acquired w = (r, w')"
    and "ob \<in> set (tasks_outbox (w_db w'))" "obx_enqueued_at ob \<noteq> None"
  shows "(\<exists>ob0 \<in> set (tasks_outbox (w_db w)). obx_outbox_id ob0 = obx_outbox_id ob \<and> obx_enqueued_at ob0 \<noteq> None) \<or>
    (\<exists>t. queued_task ls zs (task_bytes (w_float_repr w') (relay_payload (w_float_repr w') (obx_payload ob) t)) w')"
  by (rule relay_batch_marks [OF assms])

theorem relay_delivers_before_marking_witness:
  "\<exists>n w' ob t. relay_batch mem_redis True demo = (Inr n, w') \<and> ob \<in> set (tasks_outbox (w_db w')) \<and>
     queued_task mem_ls mem_zs (task_bytes (w_float_repr w') (relay_payload (w_float_repr w') (obx_payload ob) t)) w'"
proof -
  obtain n w' ob where run: "relay_batch mem_redis True demo = (Inr n, w')"
    and ob: "ob \<in> set (tasks_outbox (w_db w'))" "obx_enqueued_at ob \<noteq> None" using demo_relay by blast
  have "obx_enqueued_at ob0 = None" if "ob0 \<in> set (tasks_outbox (w_db demo))" for ob0
    using that by (simp add: demo_defs)
  with relay_delivers_before_marking [OF mem_redis_laws demo_wf run ob]
  obtain t where "queued_task mem_ls mem_zs (relay_bytes w' ob t) w'" by auto
  with run ob show ?thesis by blast
qed

text \<open>C26. What the reaper does to the tasks, however a scan ends: it makes none, and a scan that returns
  has lost none, whatever it moved to the ready queue or to the dead letters. A scan that raises has
  lost at most one, of those in flight: the one it had removed from its list when the push was
  refused.\<close>

theorem reaper_conserves_tasks:
  assumes "redis_laws R ls zs" "finite W" "\<And>k. inflight ls k w \<noteq> [] \<Longrightarrow> k \<in> W"
    and "reap_stuck_tasks R loads to_float timeout w = (r, w')"
  shows "case r of
      Inr n \<Rightarrow> all_tasks ls zs W w' = all_tasks ls zs W w
    | Inl e \<Rightarrow> all_tasks ls zs W w' = all_tasks ls zs W w \<or>
        (\<exists>k \<in> W. \<exists>b \<in> set (inflight ls k w). all_tasks ls zs W w = add_mset b (all_tasks ls zs W w'))"
  using reap_stuck_tasks_reaped [OF assms] by (simp add: reaped_def)

theorem reaper_conserves_tasks_witness:
  "\<exists>n w'. reap_stuck_tasks mem_redis (\<lambda>_. Inr (JObj [])) (\<lambda>_. None) 60 demo_stuck = (Inr n, w') \<and>
     all_tasks mem_ls mem_zs {''w1''} w' = all_tasks mem_ls mem_zs {''w1''} demo_stuck"
proof -
  have key: "utf8_string (utf8 (inflight_key ''w1'')) = Some (inflight_key ''w1'')" by simp
  have pre: "remove_prefix QUEUE_INFLIGHT_PREFIX (inflight_key ''w1'') = ''w1''"
    by (simp add: remove_prefix_def inflight_key_def)
  have "\<exists>n w'. reap_stuck_tasks mem_redis (\<lambda>_. Inr (JObj [])) (\<lambda>_. None) 60 demo_stuck = (Inr n, w')"
    by (simp add: reap_stuck_tasks_def reap_key_def reap_item_def as_dict_def move_to_ready_def decode_utf8_def
        redisE_def mem_redis_def demo_run_simps demo_stuck_def demo_def mem_ls_def put_list_def py_lrange_def
        QUEUE_INFLIGHT_PREFIX_def inflight_key_def key [unfolded inflight_key_def QUEUE_INFLIGHT_PREFIX_def]
        pre [unfolded inflight_key_def QUEUE_INFLIGHT_PREFIX_def])
  then obtain n w' where run: "reap_stuck_tasks mem_redis (\<lambda>_. Inr (JObj [])) (\<lambda>_. None) 60 demo_stuck = (Inr n, w')" by blast
  have "k \<in> {''w1''}" if "inflight mem_ls k demo_stuck \<noteq> []" for k
    using that by (auto simp: inflight_def demo_stuck_def mem_ls_def split: if_splits)
  from reaper_conserves_tasks [OF mem_redis_laws _ this run] run show ?thesis by auto
qed

text \<open>On the server that refuses pushes the scan of the one task in flight raises, and the task is gone.\<close>

lemma reaper_can_lose:
  "\<exists>e w'. reap_stuck_tasks full_redis (\<lambda>_. Inr (JObj [])) (\<lambda>_. None) 60 demo_stuck = (Inl e, w') \<and> inflight mem_ls ''w1'' w' = []
    \<and> waiting mem_ls w' = [] \<and> dead mem_ls w' = []"
proof -
  have key: "utf8_string (utf8 (inflight_key ''w1'')) = Some (inflight_key ''w1'')" by simp
  show ?thesis
    by (simp add: reap_stuck_tasks_def reap_key_def reap_item_def as_dict_def move_to_ready_def decode_utf8_def
        redisE_def full_redis_def mem_redis_def demo_run_simps demo_stuck_def demo_def mem_ls_def put_list_def py_lrange_def
        queue_views remove_prefix_def QUEUE_INFLIGHT_PREFIX_def QUEUE_READY_def QUEUE_DLQ_def inflight_key_def key [unfolded inflight_key_def QUEUE_INFLIGHT_PREFIX_def])
qed

text \<open>C27. At-least-once processing: when a worker has processed a task in flight, either every
  task is still queued, or the attempt the task names is recorded as ended in the database. A
  task leaves the queues only with its outcome committed.\<close>

theorem task_leaves_only_when_recorded:
  assumes "redis_laws R ls zs" "finite W" "worker \<in> W" "world_wf w"
    and "b \<in> set (inflight ls worker w)"
    and "process_task R (get_handler decode) loads text_param worker (JObj payload) b w = (r, w')"
  shows "all_tasks ls zs W w \<subseteq># all_tasks ls zs W w' \<or>
    (\<exists>a \<in> set (step_attempts (w_db w')). att_state a \<in> set attempt_ended \<and>
       uuid_field (dict_get_or payload ''step_attempt_id'' JNull) = Inr (Some (att_step_attempt_id a)))"
  by (rule process_task_not_lost [OF assms(1-3) handlers_read_only assms(4-6)])

theorem task_leaves_only_when_recorded_witness:
  "\<exists>r w'. process_task mem_redis (get_handler (env_decode demo_env)) (\<lambda>_. Inr JNull) (\<lambda>_. Inr JNull) ''w1''
      (JObj (obx_payload demo_task)) [65] demo_stuck = (r, w') \<and>
    (all_tasks mem_ls mem_zs {''w1''} demo_stuck \<subseteq># all_tasks mem_ls mem_zs {''w1''} w' \<or>
     (\<exists>a \<in> set (step_attempts (w_db w')). att_state a \<in> set attempt_ended))"
proof -
  obtain r w' where run: "process_task mem_redis (get_handler (env_decode demo_env)) (\<lambda>_. Inr JNull) (\<lambda>_. Inr JNull) ''w1''
      (JObj (obx_payload demo_task)) [65] demo_stuck = (r, w')" by fastforce
  have wf: "world_wf demo_stuck" using demo_wf by (simp add: demo_stuck_def)
  have b: "[65] \<in> set (inflight mem_ls ''w1'' demo_stuck)" by (simp add: inflight_def demo_stuck_def mem_ls_def)
  from task_leaves_only_when_recorded [OF mem_redis_laws _ _ wf b run] run show ?thesis by blast
qed

text \<open>Redelivery is harmless: a task whose attempt has already ended is acknowledged, and
  nothing in the database changes.\<close>

lemma redelivered_task_is_dropped:
  assumes "world_wf w" "\<exists>n s. r_lrem1 R (inflight_key worker) b (w_redis w) = (Inr n, s)" "utf8_valid b"
    and "uuid_field (dict_get_or payload ''step_attempt_id'' JNull) = Inr (Some (att_step_attempt_id a))"
      "uuid_field (dict_get_or payload ''step_id'' JNull) = Inr (Some (stp_step_id s))"
      "uuid_field (dict_get_or payload ''workflow_run_id'' JNull) = Inr (Some (run_workflow_run_id rn))"
    and "a \<in> set (step_attempts (w_db w))" "s \<in> set (steps (w_db w))" "rn \<in> set (workflow_runs (w_db w))"
    and "att_state a \<in> set terminal_attempt_states"
  shows "\<exists>n w'. process_task R (get_handler decode) loads text_param worker (JObj payload) b w = (Inr (), w') \<and>
    ack R worker b w = (Inr n, w') \<and> w_db w' = w_db w"
  by (rule process_task_again [OF assms])

lemma redelivered_task_is_dropped_witness:
  "\<exists>n w'. process_task mem_redis (get_handler (env_decode demo_env)) (\<lambda>_. Inr JNull) (\<lambda>_. Inr JNull) ''w1'' (JObj (obx_payload demo_task)) [65] demo_done
      = (Inr (), w') \<and> ack mem_redis ''w1'' [65] demo_done = (Inr n, w') \<and> w_db w' = w_db demo_done"
proof -
  have wf: "world_wf demo_done"
    using demo_wf by (simp add: demo_done_def db_wf_defs demo_defs attempt_key_def)
  show ?thesis
    by (rule redelivered_task_is_dropped [OF wf, where a = "demo_attempt\<lparr>att_state := succeeded\<rparr>" and
          s = "demo_step 10 ''ingest'' 0" and rn = demo_run])
      (simp_all add: demo_task_fields mem_redis_def demo_done_def demo_attempt_def mk_attempt_def demo_step_def demo_run_def
        demo_db_def terminal_attempt_states_def)
qed

section \<open>The API\<close>

text \<open>C28. Authorization: a request whose handler ran was made with a bearer token that is the
  secret of a stored key, neither revoked nor expired, whose role the route admits; without one
  the database is as it was.\<close>

theorem requests_are_authorized:
  assumes "exec_api R reg settings parse cred op w = (r, w')"
  shows "w_db w' = w_db w \<or> (\<exists>k \<in> set (api_keys (w_db w)). \<exists>token. cred = Some token \<and>
    key_key_hash k = compute_key_hash (API_KEY_HASH_PEPPER settings) token \<and>
    key_usable k (w_now w (w_now_n w)) \<and> key_role k \<in> set (api_roles op))"
proof (cases r)
  case (Inl e)
  with assms show ?thesis by (auto simp: exec_api_def request_def dest!: session_raised)
next
  case (Inr u)
  with assms obtain p w1 where "requires_role R settings (api_roles op) cred w = (Inr p, w1)"
    by (auto simp: exec_api_def request_def session_scope_def split: prod.splits sum.splits elim!: bindE_InrD)
  then show ?thesis by (rule requires_role_ok) auto
qed

theorem requests_are_authorized_witness:
  "w_db (snd (exec_api mem_redis registry default_settings (\<lambda>_. None) (Some ''wrong'') (ApiCancel True 1 None None)
      (demo\<lparr>w_db := demo_db\<lparr>api_keys := []\<rparr>\<rparr>))) = demo_db\<lparr>api_keys := []\<rparr>"
proof -
  let ?w = "demo\<lparr>w_db := demo_db\<lparr>api_keys := []\<rparr>\<rparr>"
  obtain r w' where run: "exec_api mem_redis registry default_settings (\<lambda>_. None) (Some ''wrong'') (ApiCancel True 1 None None) ?w = (r, w')"
    by fastforce
  from requests_are_authorized [OF run] run show ?thesis by simp
qed

text \<open>C29. The rate limit: of any number of calls for one key in one window, exactly as many are let
  through as the limit leaves, the first ones, whatever the role. This is with a server that answers:
  on an error of its commands a call passes.\<close>

theorem rate_limit_bound:
  assumes "counter_laws R cs" "\<And>k s. \<exists>n s'. r_incr R k s = (Inr n, s')" "\<And>k n s. \<exists>s'. r_expire R k n s = (Inr (), s')"
    and "0 < window" "\<And>j. j < k \<Longrightarrow> window_of window (w_now w (w_now_n w + j)) = wd"
  shows "\<exists>oks w'. rate_calls R key role window mx k w = (Inr oks, w') \<and>
    oks = map (\<lambda>j. cs (w_redis w) (rate_key key wd) + int j < mx) [0..<k] \<and>
    length (filter id oks) = nat (min (int k) (max 0 (mx - cs (w_redis w) (rate_key key wd))))"
  using rate_calls_run [OF assms, where role = role and mx = mx] count_below by blast

theorem rate_limit_bound_witness:
  "\<exists>oks w'. rate_calls mem_redis ''k'' ''viewer'' 60 2 3 demo = (Inr oks, w') \<and> length (filter id oks) = 2"
proof -
  have "window_of 60 (w_now demo (w_now_n demo + j)) = 1699999980" if "j < 3" for j
    using that by (auto simp: window_of_def demo_def less_Suc_eq numeral_3_eq_3)
  moreover have "\<exists>n s'. r_incr mem_redis k s = (Inr n, s')" "\<exists>s'. r_expire mem_redis k n s = (Inr (), s')" for k n s
    by (simp_all add: mem_redis_def Let_def)
  ultimately obtain oks w' where "rate_calls mem_redis ''k'' ''viewer'' 60 2 3 demo = (Inr oks, w')"
    "length (filter id oks) = nat (min (int 3) (max 0 (2 - (case map_of (mem_counters (w_redis demo)) (rate_key ''k'' 1699999980)
       of None \<Rightarrow> 0 | Some n \<Rightarrow> n))))"
    using rate_limit_bound [OF mem_counter_laws, of 60 3 demo 1699999980 "''k''" "''viewer''" 2] by auto
  then show ?thesis by (simp add: demo_def)
qed

text \<open>C30. Content addressing through the whole program: in every reachable state each document's
  payload is there, under its reference, and reading it through the API returns bytes whose
  SHA-256 is the hash of the row.\<close>

theorem documents_stay_readable:
  assumes "world_wf w" "payloads_ok (PAYLOAD_STORAGE_PATH (env_settings E)) w"
    and "d \<in> set (documents (w_db (run_system E ops w)))"
  shows "\<exists>b. get_document_content (env_settings E) (doc_document_id d) (run_system E ops w) =
      (Inr (b, doc_content_type d), run_system E ops w) \<and> sha256 b = doc_content_hash d"
proof -
  let ?w = "run_system E ops w" and ?base = "PAYLOAD_STORAGE_PATH (env_settings E)"
  have "world_wf ?w" using assms(1) by (rule run_system_keeps [rotated]) (rule sys_step_wf)
  moreover have "payloads_ok ?base ?w"
    using assms(2) by (rule run_system_keeps [rotated]) (rule sys_step_payloads)
  ultimately show ?thesis using get_document_content_run assms(3) by blast
qed

theorem documents_stay_readable_witness:
  "\<exists>b. get_document_content default_settings 40 (run_system demo_env [] demo) =
      (Inr (b, ''application/pdf''), run_system demo_env [] demo) \<and> sha256 b = sha256 demo_bytes"
proof -
  have p: "payloads_ok (PAYLOAD_STORAGE_PATH (env_settings demo_env)) demo"
    using demo_payloads_ok by (simp add: demo_env_def default_settings_def)
  have d: "demo_document \<in> set (documents (w_db (run_system demo_env [] demo)))" by (simp add: demo_def demo_db_def)
  from documents_stay_readable [OF demo_wf p d] show ?thesis
    by (simp add: demo_document_def demo_env_def)
qed

text \<open>A payload write is all or nothing: whatever fails on the way, it either returns the
  reference with the complete data stored there, or raises with every path but its temporary one
  as it was.\<close>

lemma payload_write_atomic:
  "let path = payload_path base h; tmp = tmp_path path in
   case payload_write base h data w of
     (Inr ref, w') \<Rightarrow> ref = content_hash_to_ref h \<and> w_files w' = (w_files w)(tmp := None, path \<mapsto> data)
   | (Inl e, w') \<Rightarrow> \<exists>v. w_files w' = (w_files w)(tmp := v)"
proof -
  obtain r w' where run: "payload_write base h data w = (r, w')" by fastforce
  then show ?thesis by (cases rule: payload_write_cases [OF _ refl]) (auto simp: Let_def)
qed

text \<open>C31. Paging through a run's events terminates and is complete: a client that follows
  \<open>next_cursor\<close> with any page size gets, within one request more than there are events, every
  event of the run exactly once and in order.\<close>

theorem event_pages_complete:
  assumes "run_get_by_id i w = (Inr (Some r), w)" "chain_ok fr (events_of_run i (w_db w))"
    and "1 \<le> limit" "length (events_of_run i (w_db w)) < 2 ^ 62" "length (events_of_run i (w_db w)) < n"
  shows "walk_events n i limit None w = (Inr (Some (map event_response (events_of_run i (w_db w)))), w)"
  using walk_events_from [OF assms(1-4), of 0 n None None] select_events_after(2) [OF assms(2), of 0] assms(5)
  by (simp add: cursor_filter_def)

theorem event_pages_complete_witness:
  "walk_events 2 1 50 None (demo\<lparr>w_db := demo_db\<lparr>audit_events := [first_event ''system'']\<rparr>\<rparr>) =
     (Inr (Some [event_response (first_event ''system'')]), demo\<lparr>w_db := demo_db\<lparr>audit_events := [first_event ''system'']\<rparr>\<rparr>)"
proof -
  let ?w = "demo\<lparr>w_db := demo_db\<lparr>audit_events := [first_event ''system'']\<rparr>\<rparr>"
  have es: "events_of_run 1 (w_db ?w) = [first_event ''system'']"
    by (simp add: events_of_run_def first_event_def broken_event_def Let_def)
  have run: "run_get_by_id 1 ?w = (Inr (Some demo_run), ?w)"
    by (simp add: run_get_by_id_def scalar_one_or_none_def demo_db_def demo_run_def)
  have ok: "chain_ok (\<lambda>_. []) (events_of_run 1 (w_db ?w))"
    unfolding es by (simp add: chain_ok_def first_event_def broken_event_def Let_def event_row_hash_def)
  have "walk_events 2 1 50 None ?w = (Inr (Some (map event_response (events_of_run 1 (w_db ?w)))), ?w)"
    by (rule event_pages_complete [OF run ok]) (simp_all only: es, simp_all)
  then show ?thesis unfolding es by simp
qed

text \<open>C32. Cancelling through the API, when it succeeds: only a supervisor's handler, from the same
  states as the orchestrator's; the update is conditional on the version it read. The response
  says version + 1 without SQLAlchemy's session synchronisation and version + 2 with its default,
  while the row has version + 1.\<close>

theorem api_cancel_effect:
  assumes "cancel_workflow_run sync i reason nts p w = (Inr res, w')"
  shows "\<exists>r m now. r \<in> set (workflow_runs (w_db w)) \<and> run_workflow_run_id r = i \<and>
    cancelled \<in> set (run_valid_transitions (run_state r)) \<and>
    evt_workflow_run_id m = i \<and> evt_event_type m = ''workflow_run.cancelled'' \<and> evt_actor m = actor_string p \<and>
    wrr_state res = ''cancelled'' \<and> wrr_version res = run_version r + (if sync then 2 else 1) \<and>
    w_db w' = cancelled_db i (run_version r) now m (w_db w)"
  using cancel_workflow_run_ok [OF assms] by fastforce

theorem api_cancel_effect_witness:
  "\<exists>res w'. cancel_workflow_run True 1 None None demo_principal demo = (Inr res, w') \<and> wrr_version res = 4"
proof -
  obtain res w' where run: "cancel_workflow_run True 1 None None demo_principal demo = (Inr res, w')"
    using demo_api_cancel by blast
  from api_cancel_effect [OF run] run show ?thesis by (auto simp: demo_defs)
qed

text \<open>C33. Resolving an escalation is open only to the principal that claimed it; it decides the
  case, records a human attempt with the fixed number 99, and sets the run running again if it
  was waiting - but neither closes the step nor gives the run a next task.\<close>

theorem resolve_effect:
  assumes "resolve_escalation i body p w = (Inr res, w')"
  shows "\<exists>c aid now m. c \<in> set (escalation_cases (w_db w)) \<and> esc_escalation_id c = i \<and>
    esc_state c = claimed \<and> esc_claimed_by c = Some (actor_string p) \<and> er_state res = ''resolved'' \<and>
    evt_event_type m = ''escalation.resolved'' \<and> evt_actor m = actor_string p \<and>
    w_db w' = resolved_db i body (actor_string p) c aid now m (w_db w) \<and>
    steps (w_db w') = steps (w_db w) \<and> tasks_outbox (w_db w') = tasks_outbox (w_db w)"
proof -
  have same: "steps (resolved_db i body actor c aid now m d) = steps d"
    "tasks_outbox (resolved_db i body actor c aid now m d) = tasks_outbox d" for actor c aid now m d
    by (simp_all add: resolved_db_def move_run_def)
  from resolve_escalation_ok [OF assms] show ?thesis by (metis same)
qed

theorem resolve_effect_witness:
  "\<exists>res w'. resolve_escalation 30 \<lparr>rq_approve = Some True, rq_override = None, rq_notes = []\<rparr> demo_principal demo = (Inr res, w') \<and>
     tasks_outbox (w_db w') = tasks_outbox (w_db demo)"
proof -
  obtain res w' where run: "resolve_escalation 30 \<lparr>rq_approve = Some True, rq_override = None, rq_notes = []\<rparr>
      demo_principal demo = (Inr res, w')" using demo_resolve by blast
  from resolve_effect [OF run] run show ?thesis by auto
qed



text \<open>Rejecting an escalation fails its run, also one that waits for a human, which the run's
  own lifecycle does not allow: \<open>failed\<close> is not among the transitions from \<open>awaiting_human\<close>.\<close>

lemma reject_effect:
  assumes "reject_escalation i body p w = (Inr res, w')"
  shows "\<exists>c now m. c \<in> set (escalation_cases (w_db w)) \<and> esc_escalation_id c = i \<and>
    esc_state c = claimed \<and> esc_claimed_by c = Some (actor_string p) \<and> er_state res = ''rejected'' \<and>
    evt_event_type m = ''escalation.rejected'' \<and> evt_actor m = actor_string p \<and>
    w_db w' = rejected_db i body (actor_string p) c now m (w_db w) \<and>
    failed \<notin> set (run_valid_transitions awaiting_human)"
  using reject_escalation_ok [OF assms] by auto

lemma reject_effect_witness:
  "\<exists>res w'. reject_escalation 30 \<lparr>rj_reason_code = ''r'', rj_notes = []\<rparr> demo_principal demo = (Inr res, w') \<and> er_state res = ''rejected''"
proof -
  obtain res w' where run: "reject_escalation 30 \<lparr>rj_reason_code = ''r'', rj_notes = []\<rparr> demo_principal demo = (Inr res, w')"
    using demo_reject by blast
  from reject_effect [OF run] run show ?thesis by auto
qed

text \<open>C35. What a client of the application gets, on every branch: a request with a body announced as too
  large is refused with 413 before the router sees it; an unreadable length is answered with 500;
  otherwise the router runs once, with the correlation identifier bound, and its answer, or the answer
  to its HTTP exception, comes back with that identifier and is counted; any other exception is
  answered with 500. The identifier is the client's own header, any text that is not empty, and
  otherwise a fresh version 4 UUID drawn before the router runs.\<close>

theorem app_answers:
  fixes w :: "'r sysworld" and req :: http_request
  defines "w0 \<equiv> w\<lparr>w_perf_n := Suc (w_perf_n w)\<rparr>"
    and "sent \<equiv> map_of (hr_headers req) ''x-correlation-id''"
    and "cid \<equiv> (case map_of (hr_headers req) ''x-correlation-id'' of
        Some (c # cs) \<Rightarrow> c # cs | _ \<Rightarrow> uuid_str (w_uuid4 w (w_uuid4_n w)))"
  assumes "router (correlated cid) req (if sent \<in> {None, Some []} then w0\<lparr>w_uuid4_n := Suc (w_uuid4_n w0)\<rparr> else w0) = (r, v)"
  shows "create_app settings router req w =
    (case request_size_limit settings (map_of (hr_headers req) ''content-length'') of
       Inl e \<Rightarrow> (Inr internal_error_handler, w0)
     | Inr (Some status) \<Rightarrow>
         let a = json_response status (error_body ''REQUEST_TOO_LARGE''
               (''Request body exceeds '' @ int_str (MAX_REQUEST_BYTES settings) @ '' bytes'')) in
         (Inr a, w0\<lparr>w_perf_n := Suc (w_perf_n w0), w_metrics := w_metrics w @ labelled req a\<rparr>)
     | Inr None \<Rightarrow>
         (case answer r of
            Some a \<Rightarrow> (Inr (a\<lparr>hp_headers := AList.update ''x-correlation-id'' cid (hp_headers a)\<rparr>),
              v\<lparr>w_perf_n := Suc (w_perf_n v), w_metrics := w_metrics v @ labelled req a\<rparr>)
          | None \<Rightarrow> (Inr internal_error_handler, v)))"
proof -
  have cid: "request_cid req w = cid" by (simp add: request_cid_def cid_def)
  have same: "(if sent \<in> {None, Some []} then w0\<lparr>w_uuid4_n := Suc (w_uuid4_n w0)\<rparr> else w0) = after_cid req w0"
    by (simp add: brings_cid_def sent_def)
  have "router (correlated (request_cid req w)) req (after_cid req w0) = (r, v)"
    using assms(4) unfolding cid same .
  from app_runs [where router = router and req = req and w = w and r = r and settings = settings, OF this [unfolded w0_def]] show ?thesis unfolding cid w0_def .
qed

theorem app_answers_witness:
  "(\<exists>w'. create_app default_settings (\<lambda>ctx req. raiseE (HTTPException 404 ''Run not found''))
     \<lparr>hr_method = ''GET'', hr_path = ''/v1/workflow-runs/1'', hr_headers = [(''x-correlation-id'', ''c'')]\<rparr> demo =
     (Inr (not_found_handler\<lparr>hp_headers := [(''x-correlation-id'', ''c'')]\<rparr>), w')) \<and>
   (\<exists>w'. create_app default_settings (\<lambda>ctx req. returnE healthz)
     \<lparr>hr_method = ''GET'', hr_path = ''/healthz'', hr_headers = []\<rparr> demo =
     (Inr (healthz\<lparr>hp_headers := [(''x-correlation-id'', uuid_str 100)]\<rparr>), w'))"
proof
  let ?req = "\<lparr>hr_method = ''GET'', hr_path = ''/v1/workflow-runs/1'', hr_headers = [(''x-correlation-id'', ''c'')]\<rparr>"
  let ?w0 = "demo\<lparr>w_perf_n := Suc (w_perf_n demo)\<rparr>"
  have run: "(\<lambda>ctx req. raiseE (HTTPException 404 ''Run not found'')) (correlated ''c'') ?req ?w0 =
      (Inl (HTTPException 404 ''Run not found''), ?w0)" by (simp add: raiseE_def)
  show "\<exists>w'. create_app default_settings (\<lambda>ctx req. raiseE (HTTPException 404 ''Run not found'')) ?req demo =
     (Inr (not_found_handler\<lparr>hp_headers := [(''x-correlation-id'', ''c'')]\<rparr>), w')"
    using app_answers [where router = "\<lambda>ctx req. raiseE (HTTPException 404 ''Run not found'')" and req = ?req and w = demo
        and r = "Inl (HTTPException 404 ''Run not found'')" and v = ?w0 and settings = default_settings] run
    by (simp add: request_size_limit_def answer_def not_found_handler_def json_response_def)
next
  let ?req = "\<lparr>hr_method = ''GET'', hr_path = ''/healthz'', hr_headers = []\<rparr>"
  let ?w1 = "demo\<lparr>w_perf_n := Suc (w_perf_n demo), w_uuid4_n := Suc (w_uuid4_n demo)\<rparr>"
  have u: "w_uuid4 demo (w_uuid4_n demo) = 100" by (simp add: demo_def)
  show "\<exists>w'. create_app default_settings (\<lambda>ctx req. returnE healthz) ?req demo =
     (Inr (healthz\<lparr>hp_headers := [(''x-correlation-id'', uuid_str 100)]\<rparr>), w')"
    using app_answers [where router = "\<lambda>ctx req. returnE healthz" and req = ?req and w = demo and r = "Inr healthz"
        and v = ?w1 and settings = default_settings]
    by (simp add: request_size_limit_def answer_def healthz_def json_response_def u)
qed

section \<open>What the program tells about itself\<close>

text \<open>C36. What the redaction of the logs does: a record holds, for a key of the event, its value or, when
  the key is a sensitive one, the redaction mark, and otherwise what the context binds; two events
  that differ in the values of sensitive keys only are logged alike. Sensitive are eight keys, in any
  case of letters, and no other: names, claim and account numbers, tokens and API keys are not.\<close>

theorem log_redaction:
  assumes "distinct (map fst d)" "alike d d'"
  shows "log_record ctx d = log_record ctx d' \<and>
    map_of (log_record ctx d) k =
      (case map_of d k of
         Some v \<Rightarrow> Some (if sensitive k then JStr REDACTED_VALUE else v)
       | None \<Rightarrow> if k \<in> set CONTEXT_VARS \<and> ctx k \<noteq> [] then Some (JStr (ctx k)) else None) \<and>
    (sensitive k \<longleftrightarrow> py_lower k \<in>
      {''ssn'', ''social_security'', ''dob'', ''date_of_birth'', ''policy_number'', ''phone'', ''email'', ''address''})"
  by (intro conjI log_record_alike [OF assms] log_record_lookup [OF assms(1)] sensitive_keys)

theorem log_redaction_witness:
  "log_record empty_context [(''SSN'', JStr ''123-45-6789'')] = log_record empty_context [(''SSN'', JNull)]"
proof -
  have "sensitive ''SSN''" by (simp add: sensitive_def) code_simp
  then show ?thesis by (intro log_redaction [THEN conjunct1]) (simp_all add: alike_def)
qed

text \<open>Of the keys that the documents list as redacted, only the first seven are.\<close>

lemma documented_not_redacted:
  "k \<in> {''claimant_name'', ''first_name'', ''last_name'', ''icd_code'', ''cpt_code'', ''medical_code'', ''account_number'',
     ''routing_number'', ''card_pan'', ''api_key'', ''token'', ''password'', ''secret_key'', ''pepper''} \<Longrightarrow>
   log_record empty_context [(k, v)] = [(k, v)]"
  by (rule documented_keys_logged) (auto simp: documented_keys_def)

lemma documented_not_redacted_witness:
  "log_record empty_context [(''claimant_name'', JStr ''Jane Smith'')] = [(''claimant_name'', JStr ''Jane Smith'')]"
  by (rule documented_not_redacted) simp

text \<open>C37. Metrics: whatever the program does, the log of metrics only grows, and each entry names one of
  the metrics that are recorded at all, as it is declared, with one value for each of its labels.\<close>

theorem system_metrics_declared:
  "\<exists>new. w_metrics (run_system E ops w) = w_metrics w @ new \<and> list_all recorded new"
  using run_system_logs [of "w_metrics w" w E ops] by (simp add: logs_def)

section \<open>The migrations\<close>

text \<open>C38. The initial migration can be reversed: on a database that has none of its relations, all
  statements of \<open>upgrade\<close> and then of \<open>downgrade\<close> run, and the catalog is the same as before.\<close>

theorem migration_reversible:
  assumes "closed_catalog C" "set migration_names \<inter> set (relations C) = {}"
  shows "\<exists>C'. run_ddl upgrade C = Inr C' \<and> run_ddl downgrade C' = Inr C"
  using migration_reversed [OF assms] by (auto simp: run_ddl_append split: sum.splits)

theorem migration_reversible_witness: "\<exists>C'. run_ddl upgrade empty_catalog = Inr C' \<and> run_ddl downgrade C' = Inr empty_catalog"
  by (rule migration_reversible) (simp_all add: closed_catalog_def empty_catalog_def relations_def table_names_def)

text \<open>C39. The classes of the object-relational mapping declare what the migration creates: the same
  tables with the same columns, types, nullability, keys, checks and unique constraints, the same
  foreign keys, and no index that the migration does not create on the same columns.\<close>

theorem orm_matches_migration:
  "run_ddl upgrade empty_catalog = Inr migrated \<and>
   set (map table_shape orm_tables) = set (map table_shape (cat_tables migrated)) \<and>
   set (map fk_shape (concat (map column_fks orm_tables))) = set (map fk_shape (cat_fks migrated)) \<and>
   set (map index_shape orm_indexes) \<subseteq> set (map index_shape (cat_indexes migrated))"
  using migrated_runs orm_tables_match orm_fks_match orm_indexes_match by (intro conjI)

section \<open>The migration checker\<close>

text \<open>C40. What the checker reports: outside an initial migration, and within the body of \<open>upgrade()\<close>,
  there is a finding of a kind on a line exactly when a call of the operation stands there and its
  statement has, or lacks, the words that the rule looks for. The regular expressions and the
  iteration over their matches amount to this.\<close>

theorem migration_findings:
  "(p, l) \<in> located ` set (chk_findings (check_text path s)) \<longleftrightarrow>
    (\<exists>b k. \<not> found INITIAL_MIGRATION_RE s \<and> extract_upgrade_body s = Some b \<and> l = line_at s b k \<and>
      (if p = ''CREATE_INDEX_WITHOUT_CONCURRENTLY'' then is_call ''op.create_index'' b k \<and>
         \<not> (is_inside_create_table s (nat (py_find s b + int k)) \<or>
            occurs [''postgresql_concurrently'', ''='', ''True''] (stmt_text b k))
       else if p = ''ADD_COLUMN_NOT_NULL_NO_DEFAULT'' then is_call ''op.add_column'' b k \<and>
         occurs [''nullable'', ''='', ''False''] (stmt_text b k) \<and> \<not> occurs [''server_default'', ''=''] (stmt_text b k)
       else if p = ''DROP_COLUMN'' then is_call ''op.drop_column'' b k
       else if p = ''DROP_TABLE'' then is_call ''op.drop_table'' b k
       else p = ''DML_IN_MIGRATION'' \<and> is_call ''op.execute'' b k \<and> found DATA_MANIP_RE (stmt_text b k)))"
proof -
  have "(p, l) \<in> located ` set (chk_findings (check_text path s)) \<longleftrightarrow>
      (\<exists>f \<in> set (chk_findings (check_text path s)). located f = (p, l))" by (auto simp: image_iff)
  also have "\<dots> \<longleftrightarrow> (\<exists>b k. \<not> found INITIAL_MIGRATION_RE s \<and> extract_upgrade_body s = Some b \<and> l = line_at s b k \<and>
      (\<exists>name \<in> set op_names. is_call name b k \<and> reported s b name k = Some p))"
    unfolding check_text_iff by blast
  finally show ?thesis unfolding reported_if .
qed

text \<open>The exit status: with \<open>--strict\<close> the command fails exactly when some migration file of the
  directory has a finding; without it, it succeeds whatever it finds.\<close>

lemma migration_exit:
  assumes "main_check strict dir (Some es) = Inr (out, c)"
  shows "c = (if strict \<and> (\<exists>f \<in> set es. \<exists>s. suffix ''.py'' (ent_name f) \<and> ent_read f = Inr s \<and>
      chk_findings (check_text (dir @ ''/'' @ ent_name f) s) \<noteq> []) then 1 else 0)"
  using main_check_status [OF assms] .

lemma migration_exit_witness:
  "\<exists>out. main_check True ''m'' (Some [\<lparr>ent_name = ''0002.py'', ent_read = Inr repeated_body\<rparr>]) = Inr (out, 1)"
proof -
  let ?es = "[\<lparr>ent_name = ''0002.py'', ent_read = Inr repeated_body\<rparr>]"
  have found: "chk_findings (check_text path repeated_body) \<noteq> []" for path
    using repeated_body_found by blast
  obtain out c where run: "main_check True ''m'' (Some ?es) = Inr (out, c)"
    using main_check_runs [of ?es True "''m''"] by auto
  from migration_exit [OF run] found run show ?thesis by (simp add: suffix_def)
qed

end
